(* ===== verification/Prelude.thy ===== *)
theory Prelude
  imports Complex_Main "HOL-Library.Word" "HOL-Library.AList" "HOL-Library.State_Monad"
    "HOL-Library.Multiset"
begin

text \<open>
  Shared vocabulary of the development: Go errors as values, Go maps as association lists with
  the laws every client relies on, the weakest-precondition calculus used for code that threads
  the state of the whole service, and the facts about signed 64-bit arithmetic that the retry
  policy and the configuration need.
\<close>

section \<open>Collections of facts\<close>

named_theorems wp_simps \<open>weakest preconditions, as equations\<close>
named_theorems wp_rules \<open>weakest preconditions, as introduction rules\<close>
named_theorems map_laws \<open>what a Go map promises\<close>

section \<open>Go values\<close>

type_synonym go_int = "64 word"
type_synonym duration = "64 word"
type_synonym time = int
type_synonym uuid = "128 word"

text \<open>
  \<open>GoErr m\<close> is an error made by \<^verbatim>\<open>fmt.Errorf\<close> or \<^verbatim>\<open>errors.New\<close> without a cause, \<open>Wrapped m e\<close> one
  made with a final \<^verbatim>\<open>%w\<close> verb. \<open>Error\<close> is the method of the \<^verbatim>\<open>error\<close> interface.
\<close>

datatype go_error = GoErr string | Wrapped string go_error

fun Error :: "go_error \<Rightarrow> string" where
  "Error (GoErr m) = m"
| "Error (Wrapped m e) = m @ Error e"

fun cause :: "go_error \<Rightarrow> go_error" where
  "cause (GoErr m) = GoErr m"
| "cause (Wrapped m e) = cause e"

lemma cause_not_wrapped [simp]: "cause e \<noteq> Wrapped m e'"
  by (induction e) auto

text \<open>A decoded JSON document (numbers by value): what \<^verbatim>\<open>interface{}\<close> holds after decoding.\<close>

datatype json = JNull | JBool bool | JNum rat | JStr string | JArr "json list"
  | JObj "(string \<times> json) list"

section \<open>Go maps\<close>

text \<open>
  A Go map is an association list without repeated keys. The operations are the ones the
  program uses; the order in which \<^verbatim>\<open>range\<close> visits the keys is chosen by the runtime and is
  therefore not read off this list (see \<open>range_map\<close> in theory Ports).
\<close>

type_synonym ('k, 'v) gomap = "('k \<times> 'v) list"

definition map_get :: "('k, 'v) gomap \<Rightarrow> 'k \<Rightarrow> 'v option" where
  "map_get m k = map_of m k"

definition map_put :: "('k, 'v) gomap \<Rightarrow> 'k \<Rightarrow> 'v \<Rightarrow> ('k, 'v) gomap" where
  "map_put m k v = AList.update k v m"

definition map_del :: "('k, 'v) gomap \<Rightarrow> 'k \<Rightarrow> ('k, 'v) gomap" where
  "map_del m k = AList.delete k m"

definition map_keys :: "('k, 'v) gomap \<Rightarrow> 'k list" where
  "map_keys m = map fst m"

definition map_ok :: "('k, 'v) gomap \<Rightarrow> bool" where
  "map_ok m \<longleftrightarrow> distinct (map_keys m)"

text \<open>
  The contract of a dictionary: lookup after store and delete, and that the key list of a
  well-formed dictionary enumerates exactly the keys that are present.
\<close>

locale dictionary =
  fixes get :: "'m \<Rightarrow> 'k \<Rightarrow> 'v option"
    and put :: "'m \<Rightarrow> 'k \<Rightarrow> 'v \<Rightarrow> 'm"
    and del :: "'m \<Rightarrow> 'k \<Rightarrow> 'm"
    and keys :: "'m \<Rightarrow> 'k list"
    and ok :: "'m \<Rightarrow> bool"
  assumes get_put: "get (put m k v) k' = (if k' = k then Some v else get m k')"
    and get_del: "get (del m k) k' = (if k' = k then None else get m k')"
    and ok_put: "ok m \<Longrightarrow> ok (put m k v)"
    and ok_del: "ok m \<Longrightarrow> ok (del m k)"
    and keys_distinct: "ok m \<Longrightarrow> distinct (keys m)"
    and keys_get: "k \<in> set (keys m) \<longleftrightarrow> get m k \<noteq> None"
begin

lemma keys_put: "set (keys (put m k v)) = insert k (set (keys m))"
  by (auto simp: keys_get get_put split: if_splits)

lemma keys_del: "set (keys (del m k)) = set (keys m) - {k}"
  by (auto simp: keys_get get_del split: if_splits)

lemma len_keys: "ok m \<Longrightarrow> length (keys m) = card (set (keys m))"
  by (simp add: distinct_card keys_distinct)

lemma len_put:
  assumes "ok m"
  shows "length (keys (put m k v)) = (if get m k = None then Suc (length (keys m)) else length (keys m))"
  using assms by (auto simp: len_keys ok_put keys_put keys_get insert_absorb)

lemma len_del:
  assumes "ok m" and "get m k \<noteq> None"
  shows "Suc (length (keys (del m k))) = length (keys m)"
proof -
  from assms(2) have "k \<in> set (keys m)" by (simp add: keys_get)
  then show ?thesis using assms(1)
    by (simp add: len_keys ok_del keys_del) (metis List.finite_set Suc_pred card_gt_0_iff empty_iff)
qed

end

lemma map_get_Nil [simp]: "map_get [] k = None"
  by (simp add: map_get_def)

lemma map_keys_Nil [simp]: "map_keys [] = []"
  by (simp add: map_keys_def)

lemma map_ok_Nil [simp]: "map_ok []"
  by (simp add: map_ok_def)

interpretation gm: dictionary map_get map_put map_del map_keys map_ok
proof
  show "map_get (map_put m k v) k' = (if k' = k then Some v else map_get m k')"
    for m :: "('k, 'v) gomap" and k k' v
    by (simp add: map_get_def map_put_def update_conv')
  show "map_get (map_del m k) k' = (if k' = k then None else map_get m k')"
    for m :: "('k, 'v) gomap" and k k'
    by (simp add: map_get_def map_del_def delete_conv')
  show "map_ok (map_put m k v)" if "map_ok m" for m :: "('k, 'v) gomap" and k v
    using that by (simp add: map_ok_def map_keys_def map_put_def distinct_update)
  show "map_ok (map_del m k)" if "map_ok m" for m :: "('k, 'v) gomap" and k
    using that by (simp add: map_ok_def map_keys_def map_del_def distinct_delete)
  show "distinct (map_keys m)" if "map_ok m" for m :: "('k, 'v) gomap"
    using that by (simp add: map_ok_def)
  show "k \<in> set (map_keys m) \<longleftrightarrow> map_get m k \<noteq> None" for m :: "('k, 'v) gomap" and k
    by (simp add: map_keys_def map_get_def map_of_eq_None_iff)
qed

lemmas [simp, map_laws] = gm.get_put gm.get_del gm.ok_put gm.ok_del
lemmas [map_laws] = gm.keys_get gm.keys_put gm.keys_del gm.len_put gm.len_del

text \<open>\<^verbatim>\<open>m[k]\<close> where the value type's zero value stands for a missing key.\<close>

definition map_get_list :: "('k, 'v list) gomap \<Rightarrow> 'k \<Rightarrow> 'v list" where
  "map_get_list m k = (case map_get m k of None \<Rightarrow> [] | Some vs \<Rightarrow> vs)"

lemma map_get_list_Nil [simp]: "map_get_list [] k = []"
  by (simp add: map_get_list_def)

lemma map_get_list_put [simp]:
  "map_get_list (map_put m k v) k' = (if k' = k then v else map_get_list m k')"
  by (simp add: map_get_list_def)

lemma map_get_foldl_put:
  "map_get (foldl (\<lambda>a k. map_put a k (f k)) m ks) k = (if k \<in> set ks then Some (f k) else map_get m k)"
  by (induction ks arbitrary: m) auto

section \<open>Lists\<close>

lemma find_append: "find P (xs @ ys) = (case find P xs of Some x \<Rightarrow> Some x | None \<Rightarrow> find P ys)"
  by (induction xs) auto

lemma distinct_set_single: "distinct xs \<Longrightarrow> set xs = {x} \<Longrightarrow> xs = [x]"
proof (cases xs)
  case (Cons y ys)
  moreover assume "distinct xs" "set xs = {x}"
  ultimately show ?thesis by (cases ys) auto
qed simp

section \<open>State and weakest preconditions\<close>

definition gets :: "('w \<Rightarrow> 'a) \<Rightarrow> ('w, 'a) state" where
  "gets f = State (\<lambda>w. (f w, w))"

definition modify :: "('w \<Rightarrow> 'w) \<Rightarrow> ('w, unit) state" where
  "modify f = State (\<lambda>w. ((), f w))"

abbreviation ret :: "'a \<Rightarrow> ('w, 'a) state" where
  "ret \<equiv> State_Monad.return"

definition wp :: "('w, 'a) state \<Rightarrow> ('a \<Rightarrow> 'w \<Rightarrow> bool) \<Rightarrow> 'w \<Rightarrow> bool" where
  "wp m Q w \<longleftrightarrow> (case run_state m w of (r, w') \<Rightarrow> Q r w')"

lemma run_gets [simp]: "run_state (gets f) w = (f w, w)"
  by (simp add: gets_def)

lemma run_modify [simp]: "run_state (modify f) w = ((), f w)"
  by (simp add: modify_def)

lemma wp_return [wp_simps]: "wp (ret x) Q = Q x"
  by (simp add: wp_def fun_eq_iff)

lemma wp_bind [wp_simps]: "wp (State_Monad.bind m f) Q = wp m (\<lambda>r. wp (f r) Q)"
  by (simp add: wp_def fun_eq_iff split: prod.split)

lemma wp_gets [wp_simps]: "wp (gets f) Q w \<longleftrightarrow> Q (f w) w"
  by (simp add: wp_def)

lemma wp_modify [wp_simps]: "wp (modify f) Q w \<longleftrightarrow> Q () (f w)"
  by (simp add: wp_def)

lemma wp_mono: "wp m Q w \<Longrightarrow> (\<And>r w'. Q r w' \<Longrightarrow> Q' r w') \<Longrightarrow> wp m Q' w"
  by (auto simp: wp_def)

lemma wp_conj: "wp m (\<lambda>r w'. Q r w' \<and> Q' r w') w \<longleftrightarrow> wp m Q w \<and> wp m Q' w"
  by (auto simp: wp_def split: prod.split)

lemma wpD: "wp m Q w \<Longrightarrow> run_state m w = (r, w') \<Longrightarrow> Q r w'"
  by (simp add: wp_def)

lemma wpI: "(\<And>r w'. run_state m w = (r, w') \<Longrightarrow> Q r w') \<Longrightarrow> wp m Q w"
  by (simp add: wp_def split: prod.split)

lemma wp_run: "run_state m w = (r, w') \<Longrightarrow> wp m Q w \<longleftrightarrow> Q r w'"
  by (simp add: wp_def)

section \<open>Signed 64-bit arithmetic\<close>

lemma sint64_bounds: "- (2 ^ 63) \<le> sint (x :: 64 word)" "sint (x :: 64 word) < 2 ^ 63"
  using sint_greater_eq [of x] sint_less [of x] by simp_all

lemma sint64_of_int:
  assumes "- (2 ^ 63) \<le> i" and "i < 2 ^ 63"
  shows "sint (word_of_int i :: 64 word) = i"
  using assms by (simp add: signed_take_bit_int_eq_self_iff sint_sbintrunc')

lemma sint64_mult:
  assumes "- (2 ^ 63) \<le> sint x * sint y" and "sint x * sint y < 2 ^ 63"
  shows "sint (x * y :: 64 word) = sint x * sint y"
proof -
  have "x * y = word_of_int (sint x * sint y)" by simp
  then show ?thesis using sint64_of_int [OF assms] by simp
qed

lemma sint64_sub:
  assumes "- (2 ^ 63) \<le> sint x - sint y" and "sint x - sint y < 2 ^ 63"
  shows "sint (x - y :: 64 word) = sint x - sint y"
proof -
  have "x - y = word_of_int (sint x - sint y)" by simp
  then show ?thesis using sint64_of_int [OF assms] by simp
qed

lemma sint64_inc:
  assumes "sint x < 2 ^ 63 - 1"
  shows "sint (x + 1 :: 64 word) = sint x + 1"
proof -
  have "x + 1 = word_of_int (sint x + 1)" by simp
  moreover have "- (2 ^ 63) \<le> sint x + 1" "sint x + 1 < 2 ^ 63"
    using assms sint64_bounds [of x] by linarith+
  ultimately show ?thesis by (metis sint64_of_int)
qed

lemma sint64_pow2:
  assumes "n < 63"
  shows "sint (2 ^ n :: 64 word) = 2 ^ n"
proof -
  have "(2 :: int) ^ n < 2 ^ 63" using assms by (rule power_strict_increasing) simp
  moreover have "- (2 ^ 63) \<le> (2 :: int) ^ n" by (rule order_trans [of _ 0]) simp_all
  ultimately have "sint (word_of_int (2 ^ n) :: 64 word) = 2 ^ n"
    by (intro sint64_of_int)
  then show ?thesis by simp
qed

end
