(* ===== verification/Priority.thy ===== *)
theory Priority
  imports Prelude
begin

text \<open>
  \<^verbatim>\<open>internal/core/domain/priority.go\<close>: priorities are plain 64-bit integers, four of them named.
\<close>

type_synonym Priority = go_int

definition PriorityLow :: Priority where "PriorityLow = 1"
definition PriorityMedium :: Priority where "PriorityMedium = 2"
definition PriorityHigh :: Priority where "PriorityHigh = 3"
definition PriorityCritical :: Priority where "PriorityCritical = 4"

lemmas priority_consts = PriorityLow_def PriorityMedium_def PriorityHigh_def PriorityCritical_def

definition Priority_ToInt :: "Priority \<Rightarrow> go_int" where
  "Priority_ToInt p =
     (if p = PriorityLow then 1
      else if p = PriorityMedium then 2
      else if p = PriorityHigh then 3
      else if p = PriorityCritical then 4
      else 2)"

definition Priority_String :: "Priority \<Rightarrow> string" where
  "Priority_String p =
     (if p = PriorityLow then ''low''
      else if p = PriorityMedium then ''medium''
      else if p = PriorityHigh then ''high''
      else if p = PriorityCritical then ''critical''
      else ''medium'')"

definition Priority_QueueName :: "Priority \<Rightarrow> string" where
  "Priority_QueueName p = ''jobs_'' @ Priority_String p"

text \<open>The named priorities, most urgent first: the order in which every worker polls.\<close>

definition named_priorities :: "Priority list" where
  "named_priorities = [PriorityCritical, PriorityHigh, PriorityMedium, PriorityLow]"

lemma named_priorities_iff:
  "p \<in> set named_priorities \<longleftrightarrow>
     p = PriorityLow \<or> p = PriorityMedium \<or> p = PriorityHigh \<or> p = PriorityCritical"
  by (auto simp: named_priorities_def)

lemma distinct_named_priorities: "distinct named_priorities"
  by (simp add: named_priorities_def priority_consts)

lemma ToInt_named: "p \<in> set named_priorities \<Longrightarrow> Priority_ToInt p = p"
  by (auto simp: named_priorities_iff Priority_ToInt_def priority_consts)

lemma ToInt_unnamed: "p \<notin> set named_priorities \<Longrightarrow> Priority_ToInt p = PriorityMedium"
  by (auto simp: named_priorities_iff Priority_ToInt_def priority_consts)

lemma String_ToInt: "Priority_String (Priority_ToInt p) = Priority_String p"
  by (simp add: Priority_ToInt_def Priority_String_def priority_consts)

lemma ToInt_in_named: "Priority_ToInt p \<in> set named_priorities"
  by (simp add: named_priorities_iff Priority_ToInt_def priority_consts)

lemma String_inj_named:
  "p \<in> set named_priorities \<Longrightarrow> q \<in> set named_priorities \<Longrightarrow>
   Priority_String p = Priority_String q \<Longrightarrow> p = q"
  by (auto simp: named_priorities_iff Priority_String_def priority_consts)

text \<open>
  C38: the queue name identifies exactly the numeric class of a priority: two priorities share a
  queue name if and only if \<open>ToInt\<close> gives them the same number, and every integer outside the
  four named priorities falls into the class of \<open>PriorityMedium\<close>.
\<close>

theorem QueueName_classes:
  "(Priority_QueueName p = Priority_QueueName q \<longleftrightarrow> Priority_ToInt p = Priority_ToInt q) \<and>
   Priority_ToInt p = (if p \<in> set named_priorities then p else PriorityMedium)"
proof (intro conjI iffI)
  assume "Priority_QueueName p = Priority_QueueName q"
  then have "Priority_String (Priority_ToInt p) = Priority_String (Priority_ToInt q)"
    by (simp add: Priority_QueueName_def String_ToInt)
  then show "Priority_ToInt p = Priority_ToInt q"
    by (rule String_inj_named [OF ToInt_in_named ToInt_in_named])
next
  assume "Priority_ToInt p = Priority_ToInt q"
  then show "Priority_QueueName p = Priority_QueueName q"
    by (metis Priority_QueueName_def String_ToInt)
next
  show "Priority_ToInt p = (if p \<in> set named_priorities then p else PriorityMedium)"
    by (simp add: ToInt_named ToInt_unnamed)
qed

end
