(* ===== verification/GoStd.thy ===== *)
theory GoStd
  imports Prelude
begin

text \<open>
  The parts of Go's standard library that the service computes with: instants and durations of
  package time, \<^verbatim>\<open>strconv.Atoi\<close>, \<^verbatim>\<open>time.ParseDuration\<close>, and the conversion of \<^verbatim>\<open>math.Pow(2, n)\<close> to an
  integer. An instant is the number of nanoseconds since the Unix epoch; a duration is a signed
  64-bit number of nanoseconds.
\<close>

section \<open>Instants and durations\<close>

definition Second :: duration where "Second = 1000000000"
definition Minute :: duration where "Minute = 60 * Second"

definition time_Add :: "time \<Rightarrow> duration \<Rightarrow> time" where
  "time_Add t d = t + sint d"

definition time_Before :: "time \<Rightarrow> time \<Rightarrow> bool" where
  "time_Before t u \<longleftrightarrow> t < u"

definition time_After :: "time \<Rightarrow> time \<Rightarrow> bool" where
  "time_After t u \<longleftrightarrow> u < t"

definition time_Equal :: "time \<Rightarrow> time \<Rightarrow> bool" where
  "time_Equal t u \<longleftrightarrow> t = u"

text \<open>\<^verbatim>\<open>t.Sub(u)\<close> saturates at the largest and the smallest duration.\<close>

definition time_Sub :: "time \<Rightarrow> time \<Rightarrow> duration" where
  "time_Sub t u =
     (if t - u < - (2 ^ 63) then word_of_int (- (2 ^ 63))
      else if 2 ^ 63 \<le> t - u then word_of_int (2 ^ 63 - 1)
      else word_of_int (t - u))"

definition time_Unix :: "time \<Rightarrow> int" where
  "time_Unix t = t div 1000000000"

text \<open>The zero value of \<^verbatim>\<open>time.Time\<close>: midnight of January 1 of year 1.\<close>

definition zero_time :: time where
  "zero_time = - 62135596800 * 1000000000"

lemma sint_Second: "sint Second = 1000000000"
  by (simp add: Second_def)

lemma sint_Minute: "sint Minute = 60000000000"
  by (simp add: Minute_def Second_def)

lemma time_Sub_nonneg: "u \<le> t \<Longrightarrow> 0 \<le> sint (time_Sub t u)"
  unfolding time_Sub_def
  using sint64_of_int [of "t - u"] sint64_of_int [of "2 ^ 63 - 1"] by (auto simp del: wi_hom_sub)

section \<open>Powers of two as durations\<close>

text \<open>
  \<^verbatim>\<open>time.Duration(math.Pow(2, float64(n)))\<close>. The power is exact in float64 for every \<open>n\<close> whose
  power fits an int64; a negative exponent gives a fraction, which the conversion truncates to 0.
  For \<open>63 \<le> n\<close> the value is outside int64 and the Go specification leaves the result of the
  conversion to the implementation: it is the parameter \<open>cvt\<close>.
\<close>

definition pow2_duration :: "(go_int \<Rightarrow> duration) \<Rightarrow> go_int \<Rightarrow> duration" where
  "pow2_duration cvt n =
     (if sint n < 0 then 0 else if sint n < 63 then 2 ^ nat (sint n) else cvt n)"

lemma sint_pow2_duration:
  "0 \<le> sint n \<Longrightarrow> sint n < 63 \<Longrightarrow> sint (pow2_duration cvt n) = 2 ^ nat (sint n)"
  by (simp add: pow2_duration_def sint64_pow2)

section \<open>Decimal integers\<close>

definition is_digit :: "char \<Rightarrow> bool" where
  "is_digit c \<longleftrightarrow> c \<in> set ''0123456789''"

definition digit_val :: "char \<Rightarrow> nat" where
  "digit_val c = of_char c - 48"

definition digits_val :: "string \<Rightarrow> nat" where
  "digits_val ds = foldl (\<lambda>a c. 10 * a + digit_val c) 0 ds"

text \<open>\<^verbatim>\<open>strconv.Atoi\<close>: \<open>None\<close> is a syntax or range error.\<close>

definition Atoi :: "string \<Rightarrow> go_int option" where
  "Atoi s =
     (let neg = (s \<noteq> [] \<and> hd s = CHR ''-'');
          ds = (if s \<noteq> [] \<and> (hd s = CHR ''-'' \<or> hd s = CHR ''+'') then tl s else s)
      in if ds = [] \<or> \<not> list_all is_digit ds then None
         else let v = (if neg then - int (digits_val ds) else int (digits_val ds))
              in if - (2 ^ 63) \<le> v \<and> v < 2 ^ 63 then Some (word_of_int v) else None)"

lemma Atoi_no_wrap:
  assumes "Atoi s = Some i" and "list_all is_digit s"
  shows "sint i = int (digits_val s)"
proof -
  have "s \<noteq> [] \<Longrightarrow> hd s \<noteq> CHR ''-'' \<and> hd s \<noteq> CHR ''+''"
    using assms(2) by (cases s) (auto simp: is_digit_def)
  with assms have "i = word_of_int (int (digits_val s))" and "int (digits_val s) < 2 ^ 63"
    by (auto simp: Atoi_def Let_def split: if_splits)
  then show ?thesis using sint64_of_int [of "int (digits_val s)"] by simp
qed

text \<open>Integers in decimal, as \<^verbatim>\<open>strconv.Itoa\<close> writes them.\<close>

definition digit_of :: "nat \<Rightarrow> char" where
  "digit_of k = ''0123456789'' ! k"

fun show_nat :: "nat \<Rightarrow> string" where
  "show_nat n = (if n < 10 then [digit_of n] else show_nat (n div 10) @ [digit_of (n mod 10)])"

definition show_int :: "int \<Rightarrow> string" where
  "show_int i = (if i < 0 then CHR ''-'' # show_nat (nat (- i)) else show_nat (nat i))"

declare show_nat.simps [simp del]

lemma digit_table: "list_all (\<lambda>k. is_digit (digit_of k) \<and> digit_val (digit_of k) = k \<and>
    (digit_of k = CHR ''0'' \<longrightarrow> k = 0)) [0..<10]"
  by code_simp

lemma digit_char:
  assumes "k < 10"
  shows "is_digit (digit_of k)" and "digit_val (digit_of k) = k" and "digit_of k = CHR ''0'' \<Longrightarrow> k = 0"
  using digit_table assms by (simp_all add: list_all_iff)

lemma show_nat_digits: "list_all is_digit (show_nat n)" "show_nat n \<noteq> []"
proof (induction n rule: show_nat.induct)
  case (1 n)
  show "list_all is_digit (show_nat n)"
    using 1 digit_char(1) [of n] digit_char(1) [of "n mod 10"] by (subst show_nat.simps) simp
  show "show_nat n \<noteq> []" by (subst show_nat.simps) simp
qed

lemma digits_val_show_nat: "digits_val (show_nat n) = n"
proof (induction n rule: show_nat.induct)
  case (1 n)
  then show ?case
    using digit_char(2) [of n] digit_char(2) [of "n mod 10"]
    by (subst show_nat.simps) (auto simp: digits_val_def)
qed

lemma show_nat_zero: "hd (show_nat n) = CHR ''0'' \<Longrightarrow> n = 0"
proof (induction n rule: show_nat.induct)
  case (1 n)
  show ?case
  proof (cases "n < 10")
    case True
    then show ?thesis using 1(2) digit_char(3) [of n] by (subst (asm) show_nat.simps) simp
  next
    case False
    then have "hd (show_nat (n div 10)) = CHR ''0''"
      using 1(2) show_nat_digits(2) [of "n div 10"] by (subst (asm) show_nat.simps) simp
    then have "n div 10 = 0" using 1(1) [OF False] by blast
    then show ?thesis using False by simp
  qed
qed

lemma Atoi_show_int: "Atoi (show_int (sint (w :: go_int))) = Some w"
proof -
  have b: "- (2 ^ 63) \<le> sint w" "sint w < 2 ^ 63" by (rule sint64_bounds)+
  have nosign: "hd (show_nat n) \<noteq> CHR ''-'' \<and> hd (show_nat n) \<noteq> CHR ''+''" for n
    using show_nat_digits [of n] by (cases "show_nat n") (auto simp: is_digit_def)
  show ?thesis
  proof (cases "sint w < 0")
    case True
    then show ?thesis using b show_nat_digits [of "nat (- sint w)"]
      by (simp add: Atoi_def show_int_def digits_val_show_nat Let_def)
  next
    case False
    then show ?thesis using b nosign [of "nat (sint w)"] show_nat_digits [of "nat (sint w)"]
      by (simp add: Atoi_def show_int_def digits_val_show_nat Let_def)
  qed
qed

section \<open>Parsing durations\<close>

definition unit_ns :: "string \<Rightarrow> nat option" where
  "unit_ns u = map_of
     [(''ns'', 1), (''us'', 1000),
      ([CHR 0xC2, CHR 0xB5, CHR ''s''], 1000), ([CHR 0xCE, CHR 0xBC, CHR ''s''], 1000),
      (''ms'', 1000000), (''s'', 1000000000), (''m'', 60000000000), (''h'', 3600000000000)] u"

text \<open>
  \<^verbatim>\<open>leadingFraction\<close>: the digits after the point, as far as they fit, and their scale.
\<close>

fun leading_fraction :: "string \<Rightarrow> nat \<Rightarrow> nat \<Rightarrow> bool \<Rightarrow> nat \<times> nat" where
  "leading_fraction [] x scale overflow = (x, scale)"
| "leading_fraction (c # cs) x scale overflow =
     (if overflow then leading_fraction cs x scale True
      else if x > (2 ^ 63 - 1) div 10 then leading_fraction cs x scale True
      else if x * 10 + digit_val c > 2 ^ 63 then leading_fraction cs x scale True
      else leading_fraction cs (x * 10 + digit_val c) (scale * 10) False)"

lemma dropWhile_shorter: "takeWhile P xs \<noteq> [] \<Longrightarrow> length (dropWhile P xs) < length xs"
  by (metis length_0_conv length_append less_add_same_cancel2 neq0_conv takeWhile_dropWhile_id)

definition unit_char :: "char \<Rightarrow> bool" where
  "unit_char c \<longleftrightarrow> c \<noteq> CHR ''.'' \<and> \<not> is_digit c"

text \<open>
  The loop of \<^verbatim>\<open>time.ParseDuration\<close>: one number with its unit per round, the sum in \<open>d\<close>. The
  nanoseconds of a fraction are computed in float64 by the library
  (\<^verbatim>\<open>uint64(float64(f) * (float64(unit) / scale))\<close>); that product is the parameter \<open>fns\<close>.
\<close>

function duration_loop :: "(nat \<Rightarrow> nat \<Rightarrow> nat \<Rightarrow> nat) \<Rightarrow> nat \<Rightarrow> string \<Rightarrow> nat option" where
  "duration_loop fns d s =
     (if s = [] then Some d
      else if \<not> (hd s = CHR ''.'' \<or> is_digit (hd s)) then None
      else
        let pre = takeWhile is_digit s; s1 = dropWhile is_digit s; v = digits_val pre;
            point = (s1 \<noteq> [] \<and> hd s1 = CHR ''.'');
            post = (if point then takeWhile is_digit (tl s1) else []);
            s2 = (if point then dropWhile is_digit (tl s1) else s1);
            (f, scale) = leading_fraction post 0 1 False;
            u = takeWhile unit_char s2; s3 = dropWhile unit_char s2
        in if v > 2 ^ 63 then None
           else if pre = [] \<and> post = [] then None
           else if u = [] then None
           else case unit_ns u of
             None \<Rightarrow> None
           | Some unit \<Rightarrow>
               if v > 2 ^ 63 div unit then None
               else let v' = v * unit + (if f > 0 then fns f unit scale else 0)
                    in if v' > 2 ^ 63 then None
                       else if d + v' > 2 ^ 63 then None
                       else duration_loop fns (d + v') s3)"
  by pat_completeness auto

termination
proof (relation "measure (\<lambda>(_, _, s). length s)", goal_cases)
  case 1 show ?case by simp
next
  case (2 fns d s pre s1 v point post s2 x f scale u s3 unit v')
  have "length s3 < length s2" using 2 by (simp add: dropWhile_shorter)
  moreover have "length s2 \<le> length s1"
    using 2 length_dropWhile_le [of is_digit "tl s1"] by (auto split: if_splits)
  moreover have "length s1 \<le> length s" using 2 by (simp add: length_dropWhile_le)
  ultimately show ?case by simp
qed

declare duration_loop.simps [simp del]

definition ParseDuration :: "(nat \<Rightarrow> nat \<Rightarrow> nat \<Rightarrow> nat) \<Rightarrow> string \<Rightarrow> duration option" where
  "ParseDuration fns s =
     (let neg = (s \<noteq> [] \<and> hd s = CHR ''-'');
          t = (if s \<noteq> [] \<and> (hd s = CHR ''-'' \<or> hd s = CHR ''+'') then tl s else s)
      in if t = ''0'' then Some 0
         else if t = [] then None
         else case duration_loop fns 0 t of
           None \<Rightarrow> None
         | Some d \<Rightarrow>
             if neg then Some (- word_of_nat d)
             else if d > 2 ^ 63 - 1 then None
             else Some (word_of_nat d))"

lemma ParseDuration_30s: "ParseDuration fns ''30s'' = Some (30 * Second)"
  by (simp add: ParseDuration_def duration_loop.simps unit_char_def is_digit_def digits_val_def
      digit_val_def unit_ns_def Second_def)

lemma ParseDuration_30m: "ParseDuration fns ''30m'' = Some (30 * Minute)"
  by (simp add: ParseDuration_def duration_loop.simps unit_char_def is_digit_def digits_val_def
      digit_val_def unit_ns_def Second_def Minute_def)

lemma ParseDuration_5m: "ParseDuration fns ''5m'' = Some (5 * Minute)"
  by (simp add: ParseDuration_def duration_loop.simps unit_char_def is_digit_def digits_val_def
      digit_val_def unit_ns_def Second_def Minute_def)

lemma ParseDuration_5s: "ParseDuration fns ''5s'' = Some (5 * Second)"
  by (simp add: ParseDuration_def duration_loop.simps unit_char_def is_digit_def digits_val_def
      digit_val_def unit_ns_def Second_def)

lemmas ParseDuration_defaults =
  ParseDuration_30s ParseDuration_30m ParseDuration_5m ParseDuration_5s

end
