(* ===== verification/Retry.thy ===== *)
theory Retry
  imports Config
begin

text \<open>
  \<^verbatim>\<open>internal/core/domain/retry.go\<close>: the retry policy of a job and its backoff schedule. Attempts are
  64-bit integers and delays 64-bit durations, so the products of the linear and the exponential
  schedule wrap around.
\<close>

type_synonym BackoffType = string

definition BackoffFixed :: BackoffType where "BackoffFixed = ''fixed''"
definition BackoffLinear :: BackoffType where "BackoffLinear = ''linear''"
definition BackoffExponential :: BackoffType where "BackoffExponential = ''exponential''"
definition DefaultBackoff :: BackoffType where "DefaultBackoff = ''exponential''"

lemmas backoff_consts =
  BackoffFixed_def BackoffLinear_def BackoffExponential_def DefaultBackoff_def

record RetryPolicy =
  MaxAttempts :: go_int
  CurrentAttempts :: go_int
  BaseDelay :: duration
  MaxDelay :: duration
  BackoffStrategy :: BackoffType
  LastAttemptAt :: "time option"

text \<open>The zero value of the struct.\<close>

definition zero_policy :: RetryPolicy where
  "zero_policy = \<lparr>MaxAttempts = 0, CurrentAttempts = 0, BaseDelay = 0, MaxDelay = 0,
     BackoffStrategy = [], LastAttemptAt = None\<rparr>"

definition NewRetryPolicy :: "(nat \<Rightarrow> nat \<Rightarrow> nat \<Rightarrow> nat) \<Rightarrow> (string \<Rightarrow> string) \<Rightarrow> RetryPolicy" where
  "NewRetryPolicy fns getenv =
     (let cfg = LoadConfig fns getenv
      in \<lparr>MaxAttempts = DefaultMaxRetries cfg,
          CurrentAttempts = 0,
          BaseDelay = BaseRetryDelay cfg,
          MaxDelay = MaxRetryDelay cfg,
          BackoffStrategy = DefaultBackoff,
          LastAttemptAt = None\<rparr>)"

definition AttemptsLeft :: "RetryPolicy \<Rightarrow> go_int" where
  "AttemptsLeft rp = MaxAttempts rp - CurrentAttempts rp"

text \<open>\<open>now\<close> is the reading of the clock that the method takes.\<close>

definition IncrementAttempts :: "time \<Rightarrow> RetryPolicy \<Rightarrow> RetryPolicy" where
  "IncrementAttempts now rp =
     rp\<lparr>CurrentAttempts := CurrentAttempts rp + 1, LastAttemptAt := Some now\<rparr>"

definition backoff_delay :: "(go_int \<Rightarrow> duration) \<Rightarrow> RetryPolicy \<Rightarrow> duration" where
  "backoff_delay cvt rp =
     (if BackoffStrategy rp = BackoffFixed then BaseDelay rp
      else if BackoffStrategy rp = BackoffLinear then CurrentAttempts rp * BaseDelay rp
      else if BackoffStrategy rp = BackoffExponential
        then pow2_duration cvt (CurrentAttempts rp) * BaseDelay rp
      else BaseDelay rp)"

definition NextRetryAt :: "(go_int \<Rightarrow> duration) \<Rightarrow> time \<Rightarrow> RetryPolicy \<Rightarrow> time" where
  "NextRetryAt cvt now rp =
     (case LastAttemptAt rp of
        None \<Rightarrow> now
      | Some lt \<Rightarrow>
          (let delay = backoff_delay cvt rp;
               delay' = (if sint (MaxDelay rp) < sint delay then MaxDelay rp else delay)
           in time_Add lt delay'))"

section \<open>The exact schedule\<close>

text \<open>What the strategies mean on unbounded integers.\<close>

definition ideal_delay :: "RetryPolicy \<Rightarrow> int" where
  "ideal_delay rp =
     (if BackoffStrategy rp = BackoffLinear then sint (CurrentAttempts rp) * sint (BaseDelay rp)
      else if BackoffStrategy rp = BackoffExponential
        then 2 ^ nat (sint (CurrentAttempts rp)) * sint (BaseDelay rp)
      else sint (BaseDelay rp))"

text \<open>No product of the schedule leaves the int64 range.\<close>

definition no_overflow :: "RetryPolicy \<Rightarrow> bool" where
  "no_overflow rp \<longleftrightarrow>
     0 \<le> sint (CurrentAttempts rp) \<and> 0 \<le> sint (BaseDelay rp) \<and> ideal_delay rp < 2 ^ 63 \<and>
     (BackoffStrategy rp = BackoffExponential \<longrightarrow> sint (CurrentAttempts rp) < 63)"

lemma backoff_delay_exact:
  assumes "no_overflow rp"
  shows "sint (backoff_delay cvt rp) = ideal_delay rp"
proof -
  let ?n = "sint (CurrentAttempts rp)" and ?b = "sint (BaseDelay rp)"
  have nn: "0 \<le> ?n" "0 \<le> ?b" using assms by (auto simp: no_overflow_def)
  consider (linear) "BackoffStrategy rp = BackoffLinear"
    | (exponential) "BackoffStrategy rp = BackoffExponential"
    | (other) "BackoffStrategy rp \<noteq> BackoffLinear" "BackoffStrategy rp \<noteq> BackoffExponential"
    by blast
  then show ?thesis
  proof cases
    case linear
    then have "?n * ?b < 2 ^ 63" using assms by (simp add: no_overflow_def ideal_delay_def)
    moreover have "0 \<le> ?n * ?b" using nn by simp
    then have "- (2 ^ 63) \<le> ?n * ?b" by (rule order_trans [rotated]) simp
    ultimately show ?thesis using linear
      by (simp add: backoff_delay_def ideal_delay_def backoff_consts sint64_mult)
  next
    case exponential
    let ?p = "pow2_duration cvt (CurrentAttempts rp)"
    have p: "sint ?p = 2 ^ nat ?n"
      using exponential assms nn by (intro sint_pow2_duration) (auto simp: no_overflow_def)
    have "sint ?p * ?b < 2 ^ 63"
      using exponential assms by (simp add: no_overflow_def ideal_delay_def backoff_consts p)
    moreover have "0 \<le> sint ?p * ?b" using nn by (simp add: p)
    then have "- (2 ^ 63) \<le> sint ?p * ?b" by (rule order_trans [rotated]) simp
    ultimately show ?thesis using exponential p
      by (simp add: backoff_delay_def ideal_delay_def backoff_consts sint64_mult)
  next
    case other
    then show ?thesis by (simp add: backoff_delay_def ideal_delay_def)
  qed
qed

lemma ideal_delay_nonneg: "no_overflow rp \<Longrightarrow> 0 \<le> ideal_delay rp"
  by (simp add: no_overflow_def ideal_delay_def)

lemma ideal_delay_mono:
  assumes "0 \<le> sint m" and "sint m \<le> sint n" and "0 \<le> sint (BaseDelay rp)"
  shows "ideal_delay (rp\<lparr>CurrentAttempts := m\<rparr>) \<le> ideal_delay (rp\<lparr>CurrentAttempts := n\<rparr>)"
  using assms by (auto simp: ideal_delay_def mult_right_mono nat_mono power_increasing)

lemma NextRetryAt_exact:
  assumes "LastAttemptAt rp = Some lt" and "no_overflow rp"
  shows "NextRetryAt cvt now rp = lt + min (ideal_delay rp) (sint (MaxDelay rp))"
  using assms backoff_delay_exact [OF assms(2), of cvt]
  by (auto simp: NextRetryAt_def time_Add_def Let_def)

text \<open>
  C10: as long as the product of the chosen strategy fits an int64, the next retry lies exactly
  the specified delay after the last attempt, cut off at \<open>MaxDelay\<close>: the base delay (fixed or
  unknown strategy), attempts times the base delay (linear), \<open>2 ^ attempts\<close> times the base delay
  (exponential).
\<close>

theorem NextRetryAt_schedule:
  assumes "LastAttemptAt rp = Some lt" and "no_overflow rp"
  shows "NextRetryAt cvt now rp = lt + min (ideal_delay rp) (sint (MaxDelay rp))"
  using assms by (rule NextRetryAt_exact)

definition example_policy :: RetryPolicy where
  "example_policy = \<lparr>MaxAttempts = 5, CurrentAttempts = 2, BaseDelay = 30 * Second,
     MaxDelay = 30 * Minute, BackoffStrategy = ''exponential'', LastAttemptAt = Some 1000\<rparr>"

lemma example_policy_no_overflow:
  "no_overflow (example_policy\<lparr>CurrentAttempts := 1\<rparr>)"
  "no_overflow (example_policy\<lparr>CurrentAttempts := 2\<rparr>)"
  "no_overflow example_policy"
  by (simp_all add: no_overflow_def ideal_delay_def example_policy_def backoff_consts Second_def)

theorem NextRetryAt_schedule_witness:
  "NextRetryAt (\<lambda>_. 0) 0 example_policy = 1000 + 120000000000"
  using NextRetryAt_schedule [of example_policy 1000 "\<lambda>_. 0" 0] example_policy_no_overflow
  by (simp add: example_policy_def ideal_delay_def backoff_consts Second_def Minute_def)

text \<open>
  C36: the cap holds for every policy, overflow included: no retry is ever planned later than
  \<open>MaxDelay\<close> after the last attempt.
\<close>

theorem NextRetryAt_capped:
  assumes "LastAttemptAt rp = Some lt"
  shows "NextRetryAt cvt now rp \<le> lt + sint (MaxDelay rp)"
  using assms by (simp add: NextRetryAt_def time_Add_def Let_def)

theorem NextRetryAt_capped_witness:
  "NextRetryAt (\<lambda>_. 0) 0 (example_policy\<lparr>CurrentAttempts := 29\<rparr>) \<le> 1000 + 1800000000000"
  using NextRetryAt_capped [of "example_policy\<lparr>CurrentAttempts := 29\<rparr>" 1000 "\<lambda>_. 0" 0]
  by (simp add: example_policy_def Minute_def Second_def)

text \<open>
  Within the int64 range the backoff never shortens: with more attempts behind it, a job is
  retried no earlier after its last attempt, and never before that attempt.
\<close>

theorem NextRetryAt_monotone:
  assumes "LastAttemptAt rp = Some lt" and "sint m \<le> sint n" and "0 \<le> sint (MaxDelay rp)"
    and "no_overflow (rp\<lparr>CurrentAttempts := m\<rparr>)" and "no_overflow (rp\<lparr>CurrentAttempts := n\<rparr>)"
  shows "lt \<le> NextRetryAt cvt now (rp\<lparr>CurrentAttempts := m\<rparr>) \<and>
    NextRetryAt cvt now (rp\<lparr>CurrentAttempts := m\<rparr>) \<le> NextRetryAt cvt now (rp\<lparr>CurrentAttempts := n\<rparr>)"
proof

  have exact: "NextRetryAt cvt now (rp\<lparr>CurrentAttempts := k\<rparr>)
      = lt + min (ideal_delay (rp\<lparr>CurrentAttempts := k\<rparr>)) (sint (MaxDelay rp))"
    if "no_overflow (rp\<lparr>CurrentAttempts := k\<rparr>)" for k
    using NextRetryAt_exact [OF _ that] assms(1) by simp
  show "lt \<le> NextRetryAt cvt now (rp\<lparr>CurrentAttempts := m\<rparr>)"
    using exact [OF assms(4)] ideal_delay_nonneg [OF assms(4)] assms(3) by simp
  have "ideal_delay (rp\<lparr>CurrentAttempts := m\<rparr>) \<le> ideal_delay (rp\<lparr>CurrentAttempts := n\<rparr>)"
    using assms(2,4) by (intro ideal_delay_mono) (auto simp: no_overflow_def)
  then show "NextRetryAt cvt now (rp\<lparr>CurrentAttempts := m\<rparr>) \<le> NextRetryAt cvt now (rp\<lparr>CurrentAttempts := n\<rparr>)"
    using exact [OF assms(4)] exact [OF assms(5)] by simp
qed

theorem NextRetryAt_monotone_witness:
  "1000 \<le> NextRetryAt (\<lambda>_. 0) 0 (example_policy\<lparr>CurrentAttempts := 1\<rparr>) \<and>
   NextRetryAt (\<lambda>_. 0) 0 (example_policy\<lparr>CurrentAttempts := 1\<rparr>)
     \<le> NextRetryAt (\<lambda>_. 0) 0 (example_policy\<lparr>CurrentAttempts := 2\<rparr>)"
  using NextRetryAt_monotone [of example_policy 1000 1 2 "\<lambda>_. 0" 0] example_policy_no_overflow
  by (simp add: example_policy_def Minute_def Second_def)

text \<open>
  C37: the default policy is safe for as long as it is used: a policy made by \<open>NewRetryPolicy\<close> with
  the retry variables unset gives up after 3 attempts, and for every attempt number up to 28 its
  exponential delay is the exact one.
\<close>

theorem NewRetryPolicy_default_safe:
  assumes "getenv ''DEFAULT_MAX_RETRIES'' = []" and "getenv ''BASE_RETRY_DELAY'' = []"
    and "getenv ''MAX_RETRY_DELAY'' = []" and "0 \<le> sint n" and "sint n \<le> 28"
  shows "MaxAttempts (NewRetryPolicy fns getenv) = 3 \<and>
    NextRetryAt cvt now ((NewRetryPolicy fns getenv)\<lparr>CurrentAttempts := n, LastAttemptAt := Some lt\<rparr>)
      = lt + min (2 ^ nat (sint n) * 30000000000) 1800000000000"
proof -
  let ?rp = "(NewRetryPolicy fns getenv)\<lparr>CurrentAttempts := n, LastAttemptAt := Some lt\<rparr>"
  have cfg: "DefaultMaxRetries (LoadConfig fns getenv) = 3"
    "BaseRetryDelay (LoadConfig fns getenv) = 30 * Second"
    "MaxRetryDelay (LoadConfig fns getenv) = 30 * Minute"
    using assms(1-3) by (simp_all add: LoadConfig_retry_defaults)
  have base: "sint (BaseDelay ?rp) = 30000000000" "sint (MaxDelay ?rp) = 1800000000000"
    by (simp_all add: NewRetryPolicy_def cfg Second_def Minute_def)
  have ideal: "ideal_delay ?rp = 2 ^ nat (sint n) * 30000000000"
    using base by (simp add: ideal_delay_def NewRetryPolicy_def Let_def backoff_consts)
  have "(2 :: int) ^ nat (sint n) \<le> 2 ^ 28"
    using assms(5) by (intro power_increasing) simp_all
  then have "no_overflow ?rp"
    using assms(4,5) base ideal by (simp add: no_overflow_def)
  then show ?thesis
    using NextRetryAt_exact [of ?rp lt cvt now] ideal base
    by (simp add: NewRetryPolicy_def Let_def cfg)
qed

theorem NewRetryPolicy_default_safe_witness:
  "MaxAttempts (NewRetryPolicy (\<lambda>_ _ _. 0) (\<lambda>_. [])) = 3 \<and>
   NextRetryAt (\<lambda>_. 0) 0
     ((NewRetryPolicy (\<lambda>_ _ _. 0) (\<lambda>_. []))\<lparr>CurrentAttempts := 1, LastAttemptAt := Some 5\<rparr>)
     = 5 + 60000000000"
  using NewRetryPolicy_default_safe [of "\<lambda>_. []" 1 "\<lambda>_ _ _. 0" "\<lambda>_. 0" 0 5] by simp

section \<open>Beyond the int64 range\<close>

text \<open>The int64 value that is left of an integer after wrap-around.\<close>

definition wrap64 :: "int \<Rightarrow> int" where
  "wrap64 i = (i + 2 ^ 63) mod 2 ^ 64 - 2 ^ 63"

lemma sint64_mult_wrap: "sint (x * y :: 64 word) = wrap64 (sint x * sint y)"
proof -
  have of_int: "sint (word_of_int i :: 64 word) = wrap64 i" for i
    by (simp add: sint_sbintrunc' wrap64_def signed_take_bit_eq_take_bit_shift take_bit_eq_mod)
  have "x * y = word_of_int (sint x * sint y)" by simp
  then show ?thesis by (metis of_int)
qed

lemma wrap64_sint: "wrap64 (sint (x :: 64 word)) = sint x"
  using sint64_bounds [of x] by (simp add: wrap64_def)

lemma wrap64_less_0: "wrap64 i < 0 \<longleftrightarrow> 2 ^ 63 \<le> i mod 2 ^ 64"
proof -
  have "(i + 2 ^ 63) mod 2 ^ 64 = (i mod 2 ^ 64 + 2 ^ 63) mod 2 ^ 64" by (simp add: mod_simps)
  moreover have "0 \<le> i mod 2 ^ 64" "i mod 2 ^ 64 < 2 ^ 64" by simp_all
  moreover have "(m + 2 ^ 63) mod 2 ^ 64 = (if m < 2 ^ 63 then m + 2 ^ 63 else m - 2 ^ 63)" if "0 \<le> m" "m < 2 ^ 64" for m :: int
    using that by (auto simp: mod_pos_pos_trivial intro: mod_pos_geq [THEN trans])
  ultimately show ?thesis unfolding wrap64_def by auto
qed

lemma backoff_delay_wraps:
  assumes "BackoffStrategy rp = BackoffExponential \<Longrightarrow> 0 \<le> sint (CurrentAttempts rp) \<and> sint (CurrentAttempts rp) < 63"
  shows "sint (backoff_delay cvt rp) = wrap64 (ideal_delay rp)"
  using assms by (simp add: backoff_delay_def ideal_delay_def sint64_mult_wrap wrap64_sint sint_pow2_duration backoff_consts)

text \<open>
  C40: the schedule for every policy, overflow included: with up to 62 attempts behind it a job is retried
  after the delay of its strategy reduced to an int64 by wrap-around, cut off at \<open>MaxDelay\<close>. So for a policy with a cap that is not negative the retry is planned
  before the last attempt exactly when bit 63 of the product is set; the cap does not help then, since it only shortens.
\<close>

theorem NextRetryAt_wraps:
  assumes "LastAttemptAt rp = Some lt" and "0 \<le> sint (CurrentAttempts rp)" and "sint (CurrentAttempts rp) < 63"
    and "0 \<le> sint (MaxDelay rp)"
  shows "NextRetryAt cvt now rp = lt + min (wrap64 (ideal_delay rp)) (sint (MaxDelay rp)) \<and>
    (NextRetryAt cvt now rp < lt \<longleftrightarrow> 2 ^ 63 \<le> ideal_delay rp mod 2 ^ 64)"
proof -
  have "NextRetryAt cvt now rp = lt + min (wrap64 (ideal_delay rp)) (sint (MaxDelay rp))"
    using assms backoff_delay_wraps [of rp cvt] by (auto simp: NextRetryAt_def time_Add_def Let_def)
  then show ?thesis using assms(4) wrap64_less_0 [of "ideal_delay rp"] by auto
qed

text \<open>The default delays and 29 attempts: the retry is planned more than seventy years before the last attempt.\<close>

theorem NextRetryAt_wraps_witness:
  "NextRetryAt (\<lambda>_. 0) 0 (example_policy\<lparr>CurrentAttempts := 29\<rparr>) = 1000 - 2340616713709551616"
  using NextRetryAt_wraps [of "example_policy\<lparr>CurrentAttempts := 29\<rparr>" 1000 "\<lambda>_. 0" 0]
  by (simp add: example_policy_def ideal_delay_def backoff_consts Second_def Minute_def wrap64_def)

end
