(* ===== verification/Job.thy ===== *)
theory Job
  imports Priority Retry
begin

text \<open>
  \<^verbatim>\<open>internal/core/domain/job.go\<close>: the job entity and the methods that move it through its life cycle.
  Every argument named \<open>t\<close>, \<open>t1\<close>, \<open>t2\<close>, \<open>t3\<close> is the result of one call of \<^verbatim>\<open>time.Now()\<close>, in the order
  of the calls; a pointer to an instant is an option.
\<close>

type_synonym JobType = string
type_synonym Status = string
type_synonym Metadata = "(string, json) gomap option"

definition StatusPending :: Status where "StatusPending = ''pending''"
definition StatusScheduled :: Status where "StatusScheduled = ''scheduled''"
definition StatusProcessing :: Status where "StatusProcessing = ''processing''"
definition StatusCompleted :: Status where "StatusCompleted = ''completed''"
definition StatusFailed :: Status where "StatusFailed = ''failed''"
definition StatusDead :: Status where "StatusDead = ''dead''"

lemmas status_consts = StatusPending_def StatusScheduled_def StatusProcessing_def
  StatusCompleted_def StatusFailed_def StatusDead_def

definition JobTypeEmail :: JobType where "JobTypeEmail = ''email''"
definition JobTypePayment :: JobType where "JobTypePayment = ''payment''"
definition JobTypeDataExport :: JobType where "JobTypeDataExport = ''data_export''"

record Job =
  Job_ID :: uuid
  Job_Type :: JobType
  Job_Priority :: Priority
  Job_Payload :: string
  Job_Metadata :: Metadata
  Job_Status :: Status
  Job_RetryPolicy :: RetryPolicy
  Job_CreatedAt :: time
  Job_UpdatedAt :: time
  Job_ScheduledAt :: time
  Job_ProcessedAt :: "time option"
  Job_CompletedAt :: "time option"
  Job_FailedAt :: "time option"
  Job_LastError :: string
  Job_WorkerID :: string

definition CanRetry :: "Job \<Rightarrow> bool" where
  "CanRetry j \<longleftrightarrow> 0 < sint (AttemptsLeft (Job_RetryPolicy j)) \<and> Job_Status j = StatusFailed"

definition MarkAsProcessing :: "string \<Rightarrow> time \<Rightarrow> time \<Rightarrow> Job \<Rightarrow> Job" where
  "MarkAsProcessing workerID t1 t2 j =
     j\<lparr>Job_Status := StatusProcessing, Job_WorkerID := workerID, Job_UpdatedAt := t1,
       Job_ProcessedAt := Some t2\<rparr>"

definition MarkAsCompleted :: "time \<Rightarrow> time \<Rightarrow> Job \<Rightarrow> Job" where
  "MarkAsCompleted t1 t2 j =
     j\<lparr>Job_Status := StatusCompleted, Job_UpdatedAt := t1, Job_CompletedAt := Some t2\<rparr>"

definition MarkAsFailed :: "go_error \<Rightarrow> time \<Rightarrow> time \<Rightarrow> time \<Rightarrow> Job \<Rightarrow> Job" where
  "MarkAsFailed err t1 t2 t3 j =
     j\<lparr>Job_Status := StatusFailed, Job_LastError := Error err, Job_UpdatedAt := t1,
       Job_FailedAt := Some t2, Job_RetryPolicy := IncrementAttempts t3 (Job_RetryPolicy j)\<rparr>"

definition MarkAsDead :: "time \<Rightarrow> Job \<Rightarrow> Job" where
  "MarkAsDead t j = j\<lparr>Job_Status := StatusDead, Job_UpdatedAt := t\<rparr>"

definition Job_NextRetryAt :: "(go_int \<Rightarrow> duration) \<Rightarrow> time \<Rightarrow> Job \<Rightarrow> time" where
  "Job_NextRetryAt cvt t j = NextRetryAt cvt t (Job_RetryPolicy j)"

lemmas mark_defs = MarkAsProcessing_def MarkAsCompleted_def MarkAsFailed_def MarkAsDead_def

text \<open>Fields that no life-cycle method writes.\<close>

definition same_identity :: "Job \<Rightarrow> Job \<Rightarrow> bool" where
  "same_identity j j' \<longleftrightarrow> Job_ID j' = Job_ID j \<and> Job_Type j' = Job_Type j \<and>
     Job_Priority j' = Job_Priority j \<and> Job_Payload j' = Job_Payload j \<and>
     Job_Metadata j' = Job_Metadata j \<and> Job_CreatedAt j' = Job_CreatedAt j"

section \<open>The retry budget\<close>

text \<open>The attempts a policy has left, where the counters are in their intended range.\<close>

definition attempts_wf :: "RetryPolicy \<Rightarrow> bool" where
  "attempts_wf rp \<longleftrightarrow> 0 \<le> sint (MaxAttempts rp) \<and> 0 \<le> sint (CurrentAttempts rp) \<and>
     sint (CurrentAttempts rp) < 2 ^ 63 - 1"

lemma AttemptsLeft_exact:
  assumes "0 \<le> sint (MaxAttempts rp)" and "0 \<le> sint (CurrentAttempts rp)"
  shows "sint (AttemptsLeft rp) = sint (MaxAttempts rp) - sint (CurrentAttempts rp)"
proof -
  let ?d = "sint (MaxAttempts rp) - sint (CurrentAttempts rp)"
  have "sint (MaxAttempts rp) < 2 ^ 63" "sint (CurrentAttempts rp) < 2 ^ 63"
    by (rule sint64_bounds)+
  with assms have "- (2 ^ 63) \<le> ?d" "?d < 2 ^ 63" by linarith+
  then show ?thesis by (simp add: AttemptsLeft_def sint64_sub)
qed

lemma Increment_exact:
  assumes "attempts_wf rp"
  shows "sint (CurrentAttempts (IncrementAttempts t rp)) = sint (CurrentAttempts rp) + 1"
    and "MaxAttempts (IncrementAttempts t rp) = MaxAttempts rp"
    and "0 \<le> sint (CurrentAttempts (IncrementAttempts t rp))"
  using assms by (simp_all add: IncrementAttempts_def attempts_wf_def sint64_inc)

lemma CanRetry_failed:
  assumes "attempts_wf (Job_RetryPolicy j)"
  shows "CanRetry (MarkAsFailed err t1 t2 t3 j) \<longleftrightarrow>
    sint (CurrentAttempts (Job_RetryPolicy j)) + 1 < sint (MaxAttempts (Job_RetryPolicy j))"
  using assms Increment_exact [OF assms, of t3]
  by (auto simp: CanRetry_def MarkAsFailed_def AttemptsLeft_exact attempts_wf_def)

text \<open>A job whose handler keeps failing: \<open>n\<close> failures in a row, as far as the domain is concerned.\<close>

fun fail_times :: "nat \<Rightarrow> go_error \<Rightarrow> (nat \<Rightarrow> time) \<Rightarrow> Job \<Rightarrow> Job" where
  "fail_times 0 err clk j = j"
| "fail_times (Suc n) err clk j =
     MarkAsFailed err (clk n) (clk n) (clk n) (fail_times n err clk j)"

lemma fail_times_policy:
  assumes "attempts_wf (Job_RetryPolicy j)"
    and "sint (CurrentAttempts (Job_RetryPolicy j)) + int n < 2 ^ 63 - 1"
  shows "attempts_wf (Job_RetryPolicy (fail_times n err clk j)) \<and>
    MaxAttempts (Job_RetryPolicy (fail_times n err clk j)) = MaxAttempts (Job_RetryPolicy j) \<and>
    sint (CurrentAttempts (Job_RetryPolicy (fail_times n err clk j)))
      = sint (CurrentAttempts (Job_RetryPolicy j)) + int n"
  using assms(2)
proof (induction n)
  case 0
  then show ?case using assms(1) by simp
next
  case (Suc n)
  let ?rp = "Job_RetryPolicy (fail_times n err clk j)"
  have IH: "attempts_wf ?rp" "MaxAttempts ?rp = MaxAttempts (Job_RetryPolicy j)"
    "sint (CurrentAttempts ?rp) = sint (CurrentAttempts (Job_RetryPolicy j)) + int n"
    using Suc by auto
  show ?case using Increment_exact [OF IH(1), of "clk n"] IH Suc.prems assms(1)
    by (simp add: MarkAsFailed_def attempts_wf_def)
qed

text \<open>
  C26: \<open>MaxAttempts\<close> bounds the executions of a job, not its retries: a fresh job that fails every
  time may be retried after its \<open>n\<close>-th failure exactly while \<open>n < MaxAttempts\<close>.
\<close>

theorem retry_budget:
  assumes "attempts_wf (Job_RetryPolicy j)" and "CurrentAttempts (Job_RetryPolicy j) = 0"
    and "0 < n" and "int n < 2 ^ 63 - 1"
  shows "CanRetry (fail_times n err clk j) \<longleftrightarrow> int n < sint (MaxAttempts (Job_RetryPolicy j))"
proof -
  obtain m where n: "n = Suc m" using assms(3) by (cases n) auto
  have "attempts_wf (Job_RetryPolicy (fail_times m err clk j)) \<and>
      MaxAttempts (Job_RetryPolicy (fail_times m err clk j)) = MaxAttempts (Job_RetryPolicy j) \<and>
      sint (CurrentAttempts (Job_RetryPolicy (fail_times m err clk j)))
        = sint (CurrentAttempts (Job_RetryPolicy j)) + int m"
    using assms n by (intro fail_times_policy) auto
  then show ?thesis using assms(2) n by (simp add: CanRetry_failed add.commute)
qed

definition example_job :: Job where
  "example_job = \<lparr>Job_ID = 7, Job_Type = ''email'', Job_Priority = 3, Job_Payload = ''{}'',
     Job_Metadata = None, Job_Status = ''pending'',
     Job_RetryPolicy = example_policy\<lparr>MaxAttempts := 3, CurrentAttempts := 0, LastAttemptAt := None\<rparr>,
     Job_CreatedAt = 0, Job_UpdatedAt = 0, Job_ScheduledAt = 0, Job_ProcessedAt = None,
     Job_CompletedAt = None, Job_FailedAt = None, Job_LastError = [], Job_WorkerID = []\<rparr>"

theorem retry_budget_witness:
  "CanRetry (fail_times 2 (GoErr ''x'') (\<lambda>_. 1) example_job) \<and>
   \<not> CanRetry (fail_times 3 (GoErr ''x'') (\<lambda>_. 1) example_job)"
  using retry_budget [of example_job 2 "GoErr ''x''" "\<lambda>_. 1"]
    retry_budget [of example_job 3 "GoErr ''x''" "\<lambda>_. 1"]
  by (simp add: example_job_def attempts_wf_def)

text \<open>
  The counter test is only meaningful for non-negative limits: with the smallest int64 as
  \<open>MaxAttempts\<close> the subtraction wraps around and a failed job may be retried.
\<close>

theorem CanRetry_wraps:
  "CanRetry (MarkAsFailed err t1 t2 t3
     (j\<lparr>Job_RetryPolicy := rp\<lparr>MaxAttempts := - (2 ^ 63), CurrentAttempts := 0\<rparr>\<rparr>))"
  by (simp add: CanRetry_def MarkAsFailed_def IncrementAttempts_def AttemptsLeft_def)

end
