(* ===== verification/Ports.thy ===== *)
theory Ports
  imports Job
begin

text \<open>
  \<^verbatim>\<open>internal/core/ports\<close>: the interfaces between the services and their adapters, as records of
  operations, and the state of a running process on which the operations act. The state holds
  the job objects (adapters and services share pointers to them), the state of the storage and
  the queue adapter, what was printed, and the choices of the Go runtime and of third-party
  code (clock readings, fresh UUIDs, map iteration orders) as an arbitrary environment.
\<close>

section \<open>Data of the ports\<close>

datatype field_value = VString string | VInt go_int | VDuration duration

record Field =
  Key :: string
  Value :: field_value

definition Field_String :: "string \<Rightarrow> string \<Rightarrow> Field" where
  "Field_String key v = \<lparr>Key = key, Value = VString v\<rparr>"

definition Field_Int :: "string \<Rightarrow> go_int \<Rightarrow> Field" where
  "Field_Int key v = \<lparr>Key = key, Value = VInt v\<rparr>"

definition Field_Duration :: "string \<Rightarrow> duration \<Rightarrow> Field" where
  "Field_Duration key v = \<lparr>Key = key, Value = VDuration v\<rparr>"

record QueueStats =
  ActiveJobs :: "(Priority, go_int) gomap"
  DelayedJobs :: go_int
  DeadLetterJobs :: go_int

record JobFilter =
  Filter_Status :: "Status option"
  Filter_JobType :: "JobType option"
  Filter_Priority :: "Priority option"
  Filter_Limit :: go_int
  Filter_Offset :: go_int

record JobHistory =
  Hist_ID :: string
  Hist_JobID :: uuid
  Hist_WorkerID :: string
  Hist_AttemptNumber :: go_int
  Hist_StartedAt :: time
  Hist_CompletedAt :: "time option"
  Hist_Status :: string
  Hist_Error :: string
  Hist_Duration :: duration

record Worker =
  Worker_ID :: string
  Worker_Hostname :: string
  Worker_SupportedTypes :: "JobType list"
  Worker_MaxConcurrent :: go_int
  Worker_CurrentJobs :: go_int
  Worker_Status :: string
  Worker_LastHeartbeat :: time
  Worker_RegisteredAt :: time

section \<open>The state of a process\<close>

text \<open>
  The environment of a run. \<open>clock k\<close> is the \<open>k\<close>-th reading of the clock, \<open>uuid_New k\<close> the \<open>k\<close>-th
  generated identifier, \<open>range_order k n\<close> the order in which the \<open>k\<close>-th \<^verbatim>\<open>range\<close> over a map with
  \<open>n\<close> entries visits them, \<open>cvt_overflow\<close> and \<open>frac_ns\<close> the machine-dependent float conversions,
  \<open>float64_Parse\<close> and \<open>float64_Text\<close> the reading and the shortest writing of a float64 (its value as a
  rational), \<open>uuid_String\<close> and \<open>uuid_Parse\<close> the functions of the UUID library, \<open>time_Text\<close> and \<open>time_Parse\<close>
  the RFC 3339 form of an instant in the local time zone (\<open>time_Text\<close> fails for years beyond 9999).
\<close>

record runtime =
  clock :: "nat \<Rightarrow> time"
  uuid_New :: "nat \<Rightarrow> uuid"
  uuid_String :: "uuid \<Rightarrow> string"
  uuid_Parse :: "string \<Rightarrow> uuid option"
  range_order :: "nat \<Rightarrow> nat \<Rightarrow> nat list"
  cvt_overflow :: "go_int \<Rightarrow> duration"
  frac_ns :: "nat \<Rightarrow> nat \<Rightarrow> nat \<Rightarrow> nat"
  float64_Parse :: "string \<Rightarrow> rat option"
  float64_Text :: "rat \<Rightarrow> string"
  time_Text :: "time \<Rightarrow> string option"
  time_Parse :: "string \<Rightarrow> time option"
  os_Getenv :: "string \<Rightarrow> string"

text \<open>A printed line: the format and its arguments (their rendering is not modelled).\<close>

datatype fmt_arg = FmtStr string | FmtInt int | FmtFloat rat | FmtDur duration | FmtTime time | FmtUuid uuid
  | FmtFields "Field list"

type_synonym job_ref = nat

record ('st, 'q) world =
  rt :: runtime
  ticks :: nat
  uuids :: nat
  ranges :: nat
  heap :: "job_ref \<Rightarrow> Job"
  next_ref :: job_ref
  storage :: 'st
  queue :: 'q
  stdout :: "(string \<times> fmt_arg list) list"
  exit_code :: "int option"

type_synonym ('st, 'q, 'a) prog = "(('st, 'q) world, 'a) state"

definition now :: "('st, 'q, time) prog" where
  "now = do {
     t \<leftarrow> gets (\<lambda>w. clock (rt w) (ticks w));
     modify (\<lambda>w. w\<lparr>ticks := Suc (ticks w)\<rparr>);
     ret t }"

definition new_uuid :: "('st, 'q, uuid) prog" where
  "new_uuid = do {
     u \<leftarrow> gets (\<lambda>w. uuid_New (rt w) (uuids w));
     modify (\<lambda>w. w\<lparr>uuids := Suc (uuids w)\<rparr>);
     ret u }"

definition printf :: "string \<Rightarrow> fmt_arg list \<Rightarrow> ('st, 'q, unit) prog" where
  "printf fmt args = modify (\<lambda>w. w\<lparr>stdout := stdout w @ [(fmt, args)]\<rparr>)"

text \<open>A pause shows only in later readings of the clock.\<close>

definition Sleep :: "duration \<Rightarrow> ('st, 'q, unit) prog" where
  "Sleep d = ret ()"

lemma wp_Sleep [wp_simps]: "wp (Sleep d) Q w \<longleftrightarrow> Q () w"
  by (simp add: Sleep_def wp_simps)

text \<open>The keys of a map in the order of one \<^verbatim>\<open>range\<close> loop.\<close>

definition range_map :: "('k, 'v) gomap \<Rightarrow> ('st, 'q, 'k list) prog" where
  "range_map m = do {
     ks \<leftarrow> gets (\<lambda>w. map (\<lambda>i. map_keys m ! i) (range_order (rt w) (ranges w) (length m)));
     modify (\<lambda>w. w\<lparr>ranges := Suc (ranges w)\<rparr>);
     ret ks }"

definition read_job :: "job_ref \<Rightarrow> ('st, 'q, Job) prog" where
  "read_job j = gets (\<lambda>w. heap w j)"

definition write_job :: "job_ref \<Rightarrow> (Job \<Rightarrow> Job) \<Rightarrow> ('st, 'q, unit) prog" where
  "write_job j f = modify (\<lambda>w. w\<lparr>heap := (heap w)(j := f (heap w j))\<rparr>)"

definition alloc_job :: "Job \<Rightarrow> ('st, 'q, job_ref) prog" where
  "alloc_job J = do {
     j \<leftarrow> gets next_ref;
     modify (\<lambda>w. w\<lparr>heap := (heap w)(j := J), next_ref := Suc j\<rparr>);
     ret j }"

text \<open>Every \<^verbatim>\<open>range\<close> visits every entry exactly once, in some order.\<close>

definition fair_range :: "runtime \<Rightarrow> bool" where
  "fair_range r \<longleftrightarrow> (\<forall>k n. mset (range_order r k n) = mset [0..<n])"

text \<open>The clock does not run backwards.\<close>

definition steady_clock :: "runtime \<Rightarrow> bool" where
  "steady_clock r \<longleftrightarrow> mono (clock r)"

text \<open>The identifier that \<^verbatim>\<open>uuid.New\<close> returns next was not returned before.\<close>

definition fresh_uuid :: "('st, 'q) world \<Rightarrow> bool" where
  "fresh_uuid w \<longleftrightarrow> uuid_New (rt w) (uuids w) \<notin> uuid_New (rt w) ` {..<uuids w}"

text \<open>The deadline of a \<^verbatim>\<open>context.Context\<close>; \<^verbatim>\<open>context.WithTimeout\<close> only ever shortens it.\<close>

record ctx =
  deadline :: "time option"

definition with_deadline :: "ctx \<Rightarrow> time \<Rightarrow> ctx" where
  "with_deadline c t = c\<lparr>deadline := Some (case deadline c of None \<Rightarrow> t | Some old \<Rightarrow> min old t)\<rparr>"

definition WithTimeout :: "ctx \<Rightarrow> duration \<Rightarrow> ('st, 'q, ctx) prog" where
  "WithTimeout c d = do {
     t \<leftarrow> now;
     ret (with_deadline c (time_Add t d)) }"

lemma with_deadline_le: "\<exists>t'. deadline (with_deadline c t) = Some t' \<and> t' \<le> t"
  by (simp add: with_deadline_def split: option.split)

section \<open>The interfaces\<close>

record ('st, 'q) StoragePort =
  SaveJob :: "ctx \<Rightarrow> job_ref \<Rightarrow> ('st, 'q, go_error option) prog"
  GetJob :: "ctx \<Rightarrow> uuid \<Rightarrow> ('st, 'q, go_error + job_ref) prog"
  UpdateJob :: "ctx \<Rightarrow> job_ref \<Rightarrow> ('st, 'q, go_error option) prog"
  ListJobs :: "ctx \<Rightarrow> JobFilter \<Rightarrow> ('st, 'q, go_error + job_ref list) prog"
  SaveJobHistory :: "ctx \<Rightarrow> JobHistory \<Rightarrow> ('st, 'q, go_error option) prog"
  GetJobHistory :: "ctx \<Rightarrow> uuid \<Rightarrow> ('st, 'q, go_error + JobHistory list) prog"
  RegisterWorker :: "ctx \<Rightarrow> Worker \<Rightarrow> ('st, 'q, go_error option) prog"
  UpdateWorkerHeartbeat :: "ctx \<Rightarrow> string \<Rightarrow> ('st, 'q, go_error option) prog"
  GetActiveWorkers :: "ctx \<Rightarrow> ('st, 'q, go_error + Worker list) prog"
  DeactivateStaleWorkers :: "ctx \<Rightarrow> duration \<Rightarrow> ('st, 'q, go_error option) prog"

record ('st, 'q) QueuePort =
  Enqueue :: "ctx \<Rightarrow> job_ref \<Rightarrow> ('st, 'q, go_error option) prog"
  Dequeue :: "ctx \<Rightarrow> Priority list \<Rightarrow> ('st, 'q, go_error + job_ref option) prog"
  EnqueueDelayed :: "ctx \<Rightarrow> job_ref \<Rightarrow> time \<Rightarrow> ('st, 'q, go_error option) prog"
  MoveToDeadLetter :: "ctx \<Rightarrow> job_ref \<Rightarrow> ('st, 'q, go_error option) prog"
  GetQueueStats :: "ctx \<Rightarrow> ('st, 'q, QueueStats \<times> go_error option) prog"
  ProcessDelayedJobs :: "ctx \<Rightarrow> ('st, 'q, go_error option) prog"

record ('st, 'q) MetricsPort =
  IncrementJobsScheduled :: "JobType \<Rightarrow> Priority \<Rightarrow> ('st, 'q, unit) prog"
  IncrementJobsCompleted :: "JobType \<Rightarrow> Priority \<Rightarrow> duration \<Rightarrow> ('st, 'q, unit) prog"
  IncrementJobsFailed :: "JobType \<Rightarrow> Priority \<Rightarrow> string \<Rightarrow> ('st, 'q, unit) prog"
  IncrementJobsRetried :: "JobType \<Rightarrow> Priority \<Rightarrow> ('st, 'q, unit) prog"
  IncrementJobsDeadLettered :: "JobType \<Rightarrow> Priority \<Rightarrow> ('st, 'q, unit) prog"
  SetQueueLength :: "Priority \<Rightarrow> go_int \<Rightarrow> ('st, 'q, unit) prog"
  SetDelayedQueueLength :: "go_int \<Rightarrow> ('st, 'q, unit) prog"
  SetDeadLetterQueueLength :: "go_int \<Rightarrow> ('st, 'q, unit) prog"
  SetActiveWorkers :: "go_int \<Rightarrow> ('st, 'q, unit) prog"
  IncrementWorkerHeartbeats :: "string \<Rightarrow> ('st, 'q, unit) prog"

record ('st, 'q) LoggerPort =
  Log_Debug :: "ctx \<Rightarrow> string \<Rightarrow> Field list \<Rightarrow> ('st, 'q, unit) prog"
  Log_Info :: "ctx \<Rightarrow> string \<Rightarrow> Field list \<Rightarrow> ('st, 'q, unit) prog"
  Log_Warn :: "ctx \<Rightarrow> string \<Rightarrow> Field list \<Rightarrow> ('st, 'q, unit) prog"
  Log_Error :: "ctx \<Rightarrow> string \<Rightarrow> Field list \<Rightarrow> ('st, 'q, unit) prog"
  Log_Fatal :: "ctx \<Rightarrow> string \<Rightarrow> Field list \<Rightarrow> ('st, 'q, unit) prog"

section \<open>Weakest preconditions of the primitives\<close>

lemma wp_now [wp_simps]:
  "wp now Q w \<longleftrightarrow> Q (clock (rt w) (ticks w)) (w\<lparr>ticks := Suc (ticks w)\<rparr>)"
  by (simp add: now_def wp_simps)

lemma wp_new_uuid [wp_simps]:
  "wp new_uuid Q w \<longleftrightarrow> Q (uuid_New (rt w) (uuids w)) (w\<lparr>uuids := Suc (uuids w)\<rparr>)"
  by (simp add: new_uuid_def wp_simps)

lemma wp_printf [wp_simps]:
  "wp (printf fmt args) Q w \<longleftrightarrow> Q () (w\<lparr>stdout := stdout w @ [(fmt, args)]\<rparr>)"
  by (simp add: printf_def wp_simps)

lemma wp_read_job [wp_simps]: "wp (read_job j) Q w \<longleftrightarrow> Q (heap w j) w"
  by (simp add: read_job_def wp_simps)

lemma wp_write_job [wp_simps]:
  "wp (write_job j f) Q w \<longleftrightarrow> Q () (w\<lparr>heap := (heap w)(j := f (heap w j))\<rparr>)"
  by (simp add: write_job_def wp_simps)

lemma wp_alloc_job [wp_simps]:
  "wp (alloc_job J) Q w \<longleftrightarrow>
     Q (next_ref w) (w\<lparr>heap := (heap w)(next_ref w := J), next_ref := Suc (next_ref w)\<rparr>)"
  by (simp add: alloc_job_def wp_simps)

lemma wp_range_map [wp_simps]:
  "wp (range_map m) Q w \<longleftrightarrow>
     Q (map (\<lambda>i. map_keys m ! i) (range_order (rt w) (ranges w) (length m)))
       (w\<lparr>ranges := Suc (ranges w)\<rparr>)"
  by (simp add: range_map_def wp_simps)

lemma wp_WithTimeout [wp_simps]:
  "wp (WithTimeout c d) Q w \<longleftrightarrow>
     Q (with_deadline c (time_Add (clock (rt w) (ticks w)) d)) (w\<lparr>ticks := Suc (ticks w)\<rparr>)"
  by (simp add: WithTimeout_def wp_simps)

lemma range_map_mset:
  assumes "fair_range r"
  shows "mset (map (\<lambda>i. map_keys m ! i) (range_order r k (length m))) = mset (map_keys m)"
proof -
  have "mset (map (\<lambda>i. map_keys m ! i) (range_order r k (length m)))
      = image_mset (\<lambda>i. map_keys m ! i) (mset [0..<length m])"
    using assms by (simp add: fair_range_def)
  also have "\<dots> = mset (map (\<lambda>i. map_keys m ! i) [0..<length (map_keys m)])"
    by (simp add: map_keys_def)
  finally show ?thesis by (simp add: map_nth)
qed

end
