(* ===== verification/Contracts.thy ===== *)
theory Contracts
  imports Ports
begin

text \<open>
  What the services may rely on when they call a port. Each contract is stated over an abstract
  view of the adapter's state, so that it says nothing about how the adapter stores its data. The
  in-memory adapters satisfy them. A command to a database or a Redis server may be executed although it is
  answered with an error, so the networked adapters have rules of their own in their theories.
\<close>

section \<open>A concrete environment\<close>

text \<open>An environment that satisfies the laws of the runtime; the examples are evaluated in it.\<close>

definition demo_parse :: "string \<Rightarrow> int option" where
  "demo_parse s = (if s \<noteq> [] \<and> hd s = CHR ''-'' then Some (- int (digits_val (tl s)))
     else Some (int (digits_val s)))"

definition demo_runtime :: runtime where
  "demo_runtime = \<lparr>clock = (\<lambda>k. int k * 1000), uuid_New = (\<lambda>k. 100 + of_nat k),
     uuid_String = (\<lambda>u. show_int (uint u)), uuid_Parse = (\<lambda>s. map_option word_of_int (demo_parse s)),
     range_order = (\<lambda>_ n. [0..<n]), cvt_overflow = (\<lambda>_. 0), frac_ns = (\<lambda>_ _ _. 0),
     float64_Parse = (\<lambda>s. map_option of_int (demo_parse s)), float64_Text = (\<lambda>q. show_int \<lfloor>q\<rfloor>),
     time_Text = (\<lambda>t. Some (show_int t)), time_Parse = demo_parse, os_Getenv = (\<lambda>_. [])\<rparr>"

lemma demo_runtime_laws: "fair_range demo_runtime" "steady_clock demo_runtime"
  by (simp_all add: fair_range_def steady_clock_def demo_runtime_def mono_def)

lemma demo_parse_show: "demo_parse (show_int i) = Some i"
proof -
  have "hd (show_nat n) \<noteq> CHR ''-''" for n
    using show_nat_digits [of n] by (cases "show_nat n") (auto simp: is_digit_def)
  then show ?thesis
    using show_nat_digits(2) by (simp add: demo_parse_def show_int_def digits_val_show_nat)
qed

section \<open>Frames\<close>

text \<open>
  What no adapter touches: the environment, the fresh identifiers, and every existing job object
  (an adapter may allocate new ones).
\<close>

definition same_run :: "('st, 'q) world \<Rightarrow> ('st, 'q) world \<Rightarrow> bool" where
  "same_run w w' \<longleftrightarrow> rt w' = rt w \<and> uuids w' = uuids w \<and> next_ref w \<le> next_ref w' \<and>
     exit_code w' = exit_code w"

definition queue_frame :: "('st, 'q) world \<Rightarrow> ('st, 'q) world \<Rightarrow> bool" where
  "queue_frame w w' \<longleftrightarrow> same_run w w' \<and> storage w' = storage w \<and>
     (\<forall>j < next_ref w. heap w' j = heap w j)"

definition storage_frame :: "('st, 'q) world \<Rightarrow> ('st, 'q) world \<Rightarrow> bool" where
  "storage_frame w w' \<longleftrightarrow> same_run w w' \<and> queue w' = queue w \<and>
     (\<forall>j < next_ref w. heap w' j = heap w j)"

text \<open>A program that does nothing but print.\<close>

definition prints :: "('st, 'q, unit) prog \<Rightarrow> bool" where
  "prints m \<longleftrightarrow> (\<forall>w. \<exists>out. run_state m w = ((), w\<lparr>stdout := stdout w @ out\<rparr>))"

lemma wp_prints:
  assumes "prints m" and "\<And>out. Q () (w\<lparr>stdout := stdout w @ out\<rparr>)"
  shows "wp m Q w"
  using assms by (metis prints_def wp_run)

lemma prints_printf [simp]: "prints (printf fmt args)"
  by (auto simp: prints_def printf_def)

section \<open>Metrics and logging\<close>

locale observability =
  fixes metrics :: "('st, 'q) MetricsPort" and logger :: "('st, 'q) LoggerPort"
  assumes scheduled: "prints (IncrementJobsScheduled metrics ty p)"
    and completed: "prints (IncrementJobsCompleted metrics ty p d)"
    and failed: "prints (IncrementJobsFailed metrics ty p reason)"
    and retried: "prints (IncrementJobsRetried metrics ty p)"
    and deadlettered: "prints (IncrementJobsDeadLettered metrics ty p)"
    and info: "prints (Log_Info logger c msg fs)"
    and warn: "prints (Log_Warn logger c msg fs)"
    and error: "prints (Log_Error logger c msg fs)"
begin

lemmas [wp_rules] = scheduled [THEN wp_prints] completed [THEN wp_prints] failed [THEN wp_prints]
  retried [THEN wp_prints] deadlettered [THEN wp_prints] info [THEN wp_prints]
  warn [THEN wp_prints] error [THEN wp_prints]

end

section \<open>Storage\<close>

text \<open>
  \<open>view st h jid\<close> is the job an adapter in state \<open>st\<close> holds under \<open>jid\<close> (an in-memory adapter holds
  pointers, so its view depends on the job objects \<open>h\<close>); \<open>norm\<close> is what storing a job does to its
  data; \<open>hist\<close> is the recorded history of a job.
\<close>

locale storage_contract =
  fixes S :: "('st, 'q) StoragePort"
    and view :: "'st \<Rightarrow> (job_ref \<Rightarrow> Job) \<Rightarrow> uuid \<Rightarrow> Job option"
    and norm :: "Job \<Rightarrow> Job"
    and hist :: "'st \<Rightarrow> uuid \<Rightarrow> JobHistory list"
  assumes save: "wp (SaveJob S c j) (\<lambda>r w'. storage_frame w w' \<and>
        hist (storage w') = hist (storage w) \<and>
        (r = None \<longrightarrow> view (storage w') (heap w') =
           (view (storage w) (heap w))(Job_ID (heap w j) \<mapsto> norm (heap w j))) \<and>
        (r \<noteq> None \<longrightarrow> storage w' = storage w)) w"
    and update: "wp (UpdateJob S c j) (\<lambda>r w'. same_run w w' \<and> queue w' = queue w \<and>
        hist (storage w') = hist (storage w) \<and>
        (\<exists>t. \<forall>i < next_ref w. heap w' i =
           (if i = j then (heap w j)\<lparr>Job_UpdatedAt := t\<rparr> else heap w i)) \<and>
        (r = None \<and> j < next_ref w \<longrightarrow>
           view (storage w') (heap w') (Job_ID (heap w j)) = Some (norm (heap w' j))) \<and>
        (r \<noteq> None \<longrightarrow> storage w' = storage w)) w"
    and save_history: "wp (SaveJobHistory S c h) (\<lambda>r w'. storage_frame w w' \<and>
        view (storage w') (heap w') = view (storage w) (heap w) \<and>
        (r = None \<longrightarrow> (\<forall>jid. mset (hist (storage w') jid) =
           mset (hist (storage w) jid) + (if jid = Hist_JobID h then {#h#} else {#}))) \<and>
        (r \<noteq> None \<longrightarrow> storage w' = storage w)) w"
    and view_defined: "view st hp jid = None \<longleftrightarrow> view st hp' jid = None"
    and norm_keeps: "Job_ID (norm J) = Job_ID J \<and> Job_Status (norm J) = Job_Status J \<and>
        Job_RetryPolicy (norm J) = Job_RetryPolicy J \<and> Job_Priority (norm J) = Job_Priority J \<and>
        Job_ScheduledAt (norm J) = Job_ScheduledAt J \<and> Job_LastError (norm J) = Job_LastError J"

text \<open>A storage that stores whatever it is given and updates every job it holds.\<close>

locale reliable_storage = storage_contract +
  assumes save_ok: "wp (SaveJob S c j) (\<lambda>r w'. r = None) w"
    and update_ok: "view (storage w) (heap w) (Job_ID (heap w j)) \<noteq> None \<Longrightarrow>
        wp (UpdateJob S c j) (\<lambda>r w'. r = None) w"
    and save_history_ok: "wp (SaveJobHistory S c h) (\<lambda>r w'. r = None) w"

section \<open>Queue\<close>

text \<open>
  \<open>ready q l\<close> lists the identifiers waiting in lane \<open>l\<close>, the next one first; \<open>lane p\<close> is the lane
  of a priority; \<open>waiting q jid\<close> is the time from which a delayed job may be promoted, \<open>stamp t\<close>
  what an adapter keeps of a due time \<open>t\<close>; \<open>dead q\<close> lists the dead letters; \<open>inv\<close> is the adapter's
  own invariant, which may depend on the job objects it points to.
\<close>

locale queue_contract =
  fixes Q :: "('st, 'q) QueuePort"
    and lane :: "Priority \<Rightarrow> 'lane"
    and stamp :: "time \<Rightarrow> time"
    and ready :: "'q \<Rightarrow> 'lane \<Rightarrow> uuid list"
    and waiting :: "'q \<Rightarrow> uuid \<Rightarrow> time option"
    and dead :: "'q \<Rightarrow> uuid list"
    and inv :: "'q \<Rightarrow> (job_ref \<Rightarrow> Job) \<Rightarrow> job_ref \<Rightarrow> bool"
  assumes inv_heap: "inv q h n \<Longrightarrow> (\<And>j. j < n \<Longrightarrow> Job_ID (h' j) = Job_ID (h j)) \<Longrightarrow>
        n \<le> n' \<Longrightarrow> inv q h' n'"
    and enqueue: "inv (queue w) (heap w) (next_ref w) \<Longrightarrow> j < next_ref w \<Longrightarrow>
        wp (Enqueue Q c j) (\<lambda>r w'. queue_frame w w' \<and> heap w' = heap w \<and> inv (queue w') (heap w') (next_ref w') \<and>
          waiting (queue w') = waiting (queue w) \<and> dead (queue w') = dead (queue w) \<and>
          ready (queue w') = (if r = None
            then (let l = lane (Job_Priority (heap w j))
                  in (ready (queue w))(l := ready (queue w) l @ [Job_ID (heap w j)]))
            else ready (queue w))) w"
    and enqueue_delayed: "inv (queue w) (heap w) (next_ref w) \<Longrightarrow> j < next_ref w \<Longrightarrow>
        wp (EnqueueDelayed Q c j t) (\<lambda>r w'. queue_frame w w' \<and> heap w' = heap w \<and>
          inv (queue w') (heap w') (next_ref w') \<and>
          ready (queue w') = ready (queue w) \<and> dead (queue w') = dead (queue w) \<and>
          waiting (queue w') = (if r = None
            then (waiting (queue w))(Job_ID (heap w j) \<mapsto> stamp t) else waiting (queue w))) w"
    and dead_letter: "inv (queue w) (heap w) (next_ref w) \<Longrightarrow> j < next_ref w \<Longrightarrow>
        wp (MoveToDeadLetter Q c j) (\<lambda>r w'. queue_frame w w' \<and> heap w' = heap w \<and>
          inv (queue w') (heap w') (next_ref w') \<and>
          ready (queue w') = ready (queue w) \<and> waiting (queue w') = waiting (queue w) \<and>
          (r = None \<longrightarrow> mset (dead (queue w')) = mset (dead (queue w)) + {#Job_ID (heap w j)#}) \<and>
          (r \<noteq> None \<longrightarrow> dead (queue w') = dead (queue w))) w"
    and dequeue: "inv (queue w) (heap w) (next_ref w) \<Longrightarrow>
        wp (Dequeue Q c ps) (\<lambda>r w'. queue_frame w w' \<and>
          inv (queue w') (heap w') (next_ref w') \<and>
          waiting (queue w') = waiting (queue w) \<and> dead (queue w') = dead (queue w) \<and>
          (case r of Inr (Some j) \<Rightarrow> j < next_ref w' \<and>
             (\<exists>pre p post. ps = pre @ p # post \<and> (\<forall>p' \<in> set pre. ready (queue w) (lane p') = []) \<and>
               ready (queue w) (lane p) = Job_ID (heap w' j) # ready (queue w') (lane p) \<and>
               (\<forall>l. l \<noteq> lane p \<longrightarrow> ready (queue w') l = ready (queue w) l))
           | _ \<Rightarrow> ready (queue w') = ready (queue w))) w"

text \<open>A client that polls the lanes of \<open>ps\<close> up to \<open>n\<close> times and records what it is given.\<close>

fun drain :: "('st, 'q) QueuePort \<Rightarrow> ctx \<Rightarrow> Priority list \<Rightarrow> nat \<Rightarrow> ('st, 'q, uuid list) prog" where
  "drain Q c ps 0 = ret []"
| "drain Q c ps (Suc n) = do {
     r \<leftarrow> Dequeue Q c ps;
     (case r of
        Inr (Some j) \<Rightarrow> do {
          J \<leftarrow> read_job j;
          rest \<leftarrow> drain Q c ps n;
          ret (Job_ID J # rest) }
      | _ \<Rightarrow> ret []) }"

text \<open>A queue whose operations do not fail: an empty answer means that there is no job.\<close>

locale reliable_queue = queue_contract +
  assumes enqueue_ok: "wp (Enqueue Q c j) (\<lambda>r w'. r = None) w"
    and enqueue_delayed_ok: "wp (EnqueueDelayed Q c j t) (\<lambda>r w'. r = None) w"
    and dead_letter_ok: "wp (MoveToDeadLetter Q c j) (\<lambda>r w'. r = None) w"
    and dequeue_ok: "inv (queue w) (heap w) (next_ref w) \<Longrightarrow> p \<in> set ps \<Longrightarrow>
        ready (queue w) (lane p) \<noteq> [] \<Longrightarrow>
        wp (Dequeue Q c ps) (\<lambda>r w'. \<exists>j. r = Inr (Some j)) w"
begin

text \<open>The jobs in the polled lanes, in the order in which they are to be handed out.\<close>

definition backlog where
  "backlog q ps = concat (map (\<lambda>p. ready q (lane p)) ps)"

lemma backlog_Nil_iff: "backlog q ps = [] \<longleftrightarrow> (\<forall>p \<in> set ps. ready q (lane p) = [])"
  by (auto simp: backlog_def)

lemma backlog_pop:
  assumes "distinct (map lane ps)" and "ps = pre @ p # post"
    and "\<forall>p' \<in> set pre. ready q (lane p') = []"
    and "ready q (lane p) = jid # ready q' (lane p)"
    and "\<forall>l. l \<noteq> lane p \<longrightarrow> ready q' l = ready q l"
  shows "backlog q ps = jid # backlog q' ps"
proof -
  have others: "ready q' (lane p') = ready q (lane p')" if "p' \<in> set pre \<union> set post" for p'
    using assms(1,2,5) that by (auto simp: image_iff)
  then have "map (\<lambda>p'. ready q' (lane p')) post = map (\<lambda>p'. ready q (lane p')) post"
    and "concat (map (\<lambda>p'. ready q' (lane p')) pre) = []"
    and "concat (map (\<lambda>p'. ready q (lane p')) pre) = []"
    using assms(3) by auto
  then show ?thesis using assms(2,4) by (simp add: backlog_def del: concat_eq_Nil_conv map_eq_conv)
qed

lemma dequeue_backlog:
  assumes "inv (queue w) (heap w) (next_ref w)" and "distinct (map lane ps)"
    and "backlog (queue w) ps = jid # rest"
  shows "wp (Dequeue Q c ps) (\<lambda>r w'. \<exists>j. r = Inr (Some j) \<and> Job_ID (heap w' j) = jid \<and>
    backlog (queue w') ps = rest \<and> inv (queue w') (heap w') (next_ref w') \<and> j < next_ref w' \<and>
    queue_frame w w' \<and> waiting (queue w') = waiting (queue w) \<and> dead (queue w') = dead (queue w)) w"
proof -
  obtain p where "p \<in> set ps" "ready (queue w) (lane p) \<noteq> []"
    using assms(3) backlog_Nil_iff by (metis list.distinct(1))
  then have "wp (Dequeue Q c ps) (\<lambda>r w'. \<exists>j. r = Inr (Some j)) w"
    by (rule dequeue_ok [OF assms(1)])
  with dequeue [OF assms(1), of c ps] show ?thesis
  proof (rule wp_mono [OF iffD2 [OF wp_conj, OF conjI]], elim conjE exE, goal_cases)
    case (1 r w' j)
    then obtain pre p post where "ps = pre @ p # post"
        "\<forall>p' \<in> set pre. ready (queue w) (lane p') = []"
        "ready (queue w) (lane p) = Job_ID (heap w' j) # ready (queue w') (lane p)"
        "\<forall>l. l \<noteq> lane p \<longrightarrow> ready (queue w') l = ready (queue w) l"
      by auto
    then have "backlog (queue w) ps = Job_ID (heap w' j) # backlog (queue w') ps"
      by (rule backlog_pop [OF assms(2)])
    with 1 assms(3) show ?case by auto
  qed
qed

lemma dequeue_empty:
  assumes "inv (queue w) (heap w) (next_ref w)" and "backlog (queue w) ps = []"
  shows "wp (Dequeue Q c ps) (\<lambda>r w'. (\<forall>j. r \<noteq> Inr (Some j)) \<and> queue_frame w w' \<and>
    inv (queue w') (heap w') (next_ref w') \<and> ready (queue w') = ready (queue w) \<and>
    waiting (queue w') = waiting (queue w) \<and> dead (queue w') = dead (queue w)) w"
proof (rule wp_mono [OF dequeue [OF assms(1)]], goal_cases)
  case (1 r w')
  have "r \<noteq> Inr (Some j)" for j
  proof
    assume "r = Inr (Some j)"
    with 1 obtain pre q post where "ps = pre @ q # post"
        "ready (queue w) (lane q) = Job_ID (heap w' j) # ready (queue w') (lane q)" by auto
    then show False using assms(2) by (simp add: backlog_Nil_iff)
  qed
  then show ?case using 1 by (cases r) (auto split: option.splits)
qed

text \<open>
  Polling hands out the whole backlog: the lanes in the order of the polling list, each lane in
  order of arrival, every job once.
\<close>

lemma drain_take:
  assumes "inv (queue w) (heap w) (next_ref w)" and "distinct (map lane ps)"
  shows "wp (drain Q c ps n) (\<lambda>r w'. r = take n (backlog (queue w) ps)) w"
  using assms(1)
proof (induction n arbitrary: w)
  case 0
  then show ?case by (simp add: wp_simps)
next
  case (Suc n)
  show ?case
  proof (cases "backlog (queue w) ps")
    case Nil
    show ?thesis unfolding drain.simps wp_bind
      by (rule wp_mono [OF dequeue_empty [OF Suc.prems Nil]])
        (auto simp: wp_simps Nil split: sum.split option.split)
  next
    case (Cons jid rest)
    show ?thesis unfolding drain.simps wp_bind
    proof (rule wp_mono [OF dequeue_backlog [OF Suc.prems assms(2) Cons]], elim conjE exE, goal_cases)
      case (1 r w' j)
      then have "wp (drain Q c ps n) (\<lambda>r w'. r = take n rest) w'"
        using Suc.IH [of w'] by simp
      then show ?case using 1 Cons by (auto simp: wp_simps elim: wp_mono)
    qed
  qed
qed

end

end
