(* ===== verification/Services.thy ===== *)
theory Services
  imports Contracts
begin

text \<open>
  \<^verbatim>\<open>internal/core/services\<close>: the scheduler service (\<^verbatim>\<open>schedular.go\<close>) and the processor service
  (\<^verbatim>\<open>processor.go\<close>), over arbitrary ports. A service is the record of the ports it was built with.
\<close>

section \<open>The scheduler service\<close>

record ('st, 'q) SchedulerService =
  Sched_storage :: "('st, 'q) StoragePort"
  Sched_queue :: "('st, 'q) QueuePort"
  Sched_metrics :: "('st, 'q) MetricsPort"
  Sched_logger :: "('st, 'q) LoggerPort"

definition NewSchedulerService where
  "NewSchedulerService S Q M L =
     \<lparr>Sched_storage = S, Sched_queue = Q, Sched_metrics = M, Sched_logger = L\<rparr>"

record ScheduleJobRequest =
  Req_Type :: JobType
  Req_Priority :: Priority
  Req_Payload :: string
  Req_Metadata :: Metadata
  Req_RetryPolicy :: "RetryPolicy option"
  Req_ScheduleAt :: "time option"

definition uuid_str :: "uuid \<Rightarrow> ('st, 'q, string) prog" where
  "uuid_str jid = gets (\<lambda>w. uuid_String (rt w) jid)"

definition enqueueJob ::
  "('st, 'q) SchedulerService \<Rightarrow> ctx \<Rightarrow> job_ref \<Rightarrow> ('st, 'q, go_error option) prog" where
  "enqueueJob s c j = do {
     job \<leftarrow> read_job j;
     (if Job_Status job = StatusScheduled
      then EnqueueDelayed (Sched_queue s) c j (Job_ScheduledAt job)
      else Enqueue (Sched_queue s) c j) }"

definition create_job :: "ScheduleJobRequest \<Rightarrow> ('st, 'q, job_ref) prog" where
  "create_job req = do {
     jid \<leftarrow> new_uuid;
     t1 \<leftarrow> now;
     t2 \<leftarrow> now;
     t3 \<leftarrow> now;
     j \<leftarrow> alloc_job \<lparr>Job_ID = jid, Job_Type = Req_Type req, Job_Priority = Req_Priority req,
       Job_Payload = Req_Payload req, Job_Metadata = Req_Metadata req,
       Job_Status = StatusPending, Job_RetryPolicy = zero_policy, Job_CreatedAt = t1,
       Job_UpdatedAt = t2, Job_ScheduledAt = t3, Job_ProcessedAt = None, Job_CompletedAt = None,
       Job_FailedAt = None, Job_LastError = [], Job_WorkerID = []\<rparr>;
     (if Req_Priority req = 0
      then write_job j (\<lambda>J. J\<lparr>Job_Priority := PriorityMedium\<rparr>) else ret ());
     (case Req_RetryPolicy req of
        Some rp \<Rightarrow> write_job j (\<lambda>J. J\<lparr>Job_RetryPolicy := rp\<rparr>)
      | None \<Rightarrow> do {
          r \<leftarrow> gets rt;
          write_job j (\<lambda>J. J\<lparr>Job_RetryPolicy := NewRetryPolicy (frac_ns r) (os_Getenv r)\<rparr>) });
     (case Req_ScheduleAt req of
        Some t \<Rightarrow> do {
          tn \<leftarrow> now;
          (if time_After t tn
           then write_job j (\<lambda>J. J\<lparr>Job_Status := StatusScheduled, Job_ScheduledAt := t\<rparr>)
           else ret ()) }
      | None \<Rightarrow> ret ());
     ret j }"

text \<open>\<open>create_job\<close> is the part of \<open>ScheduleJob\<close> before the job is persisted.\<close>

definition SchedulerService_ScheduleJob ::
  "('st, 'q) SchedulerService \<Rightarrow> ctx \<Rightarrow> ScheduleJobRequest \<Rightarrow> ('st, 'q, go_error + job_ref) prog" where
  "SchedulerService_ScheduleJob s c req = do {
     j \<leftarrow> create_job req;
     err \<leftarrow> SaveJob (Sched_storage s) c j;
     (case err of
        Some e \<Rightarrow> do {
          job \<leftarrow> read_job j;
          idstr \<leftarrow> uuid_str (Job_ID job);
          Log_Error (Sched_logger s) c ''Failed to save job''
            [Field_String ''job_id'' idstr, Field_String ''error'' (Error e)];
          ret (Inl (Wrapped ''failed to save job: '' e)) }
      | None \<Rightarrow> do {
          err2 \<leftarrow> enqueueJob s c j;
          (case err2 of
             Some e \<Rightarrow> do {
               job \<leftarrow> read_job j;
               idstr \<leftarrow> uuid_str (Job_ID job);
               Log_Error (Sched_logger s) c ''Failed to enqueue job''
                 [Field_String ''job_id'' idstr, Field_String ''error'' (Error e)];
               ret (Inl (Wrapped ''failed to enqueue job: '' e)) }
           | None \<Rightarrow> do {
               job \<leftarrow> read_job j;
               IncrementJobsScheduled (Sched_metrics s) (Job_Type job) (Job_Priority job);
               idstr \<leftarrow> uuid_str (Job_ID job);
               Log_Info (Sched_logger s) c ''Job scheduled successfully''
                 [Field_String ''job_id'' idstr, Field_String ''type'' (Job_Type job),
                  Field_String ''priority'' (Priority_String (Job_Priority job))];
               ret (Inr j) }) }) }"

definition SchedulerService_GetJob where
  "SchedulerService_GetJob s c jid = GetJob (Sched_storage s) c jid"

definition SchedulerService_ListJobs where
  "SchedulerService_ListJobs s c f = ListJobs (Sched_storage s) c f"

definition SchedulerService_GetQueueStats where
  "SchedulerService_GetQueueStats s c = GetQueueStats (Sched_queue s) c"

section \<open>The processor service\<close>

record ('st, 'q) JobHandler =
  Handle :: "ctx \<Rightarrow> job_ref \<Rightarrow> ('st, 'q, go_error option) prog"
  GetType :: JobType

record ('st, 'q) ProcessorService =
  Proc_storage :: "('st, 'q) StoragePort"
  Proc_queue :: "('st, 'q) QueuePort"
  Proc_metrics :: "('st, 'q) MetricsPort"
  Proc_logger :: "('st, 'q) LoggerPort"
  Proc_handlers :: "(JobType, ('st, 'q) JobHandler) gomap"

definition NewProcessorService where
  "NewProcessorService S Q M L =
     \<lparr>Proc_storage = S, Proc_queue = Q, Proc_metrics = M, Proc_logger = L, Proc_handlers = []\<rparr>"

definition RegisterHandler ::
  "('st, 'q) ProcessorService \<Rightarrow> ('st, 'q) JobHandler \<Rightarrow> ('st, 'q) ProcessorService" where
  "RegisterHandler p h = p\<lparr>Proc_handlers := map_put (Proc_handlers p) (GetType h) h\<rparr>"

definition executeJob ::
  "('st, 'q) ProcessorService \<Rightarrow> ctx \<Rightarrow> job_ref \<Rightarrow> ('st, 'q, go_error option) prog" where
  "executeJob p c j = do {
     job \<leftarrow> read_job j;
     (case map_get (Proc_handlers p) (Job_Type job) of
        None \<Rightarrow> ret (Some (GoErr (''no handler registered for job type: '' @ Job_Type job)))
      | Some h \<Rightarrow> Handle h c j) }"

text \<open>The history object is private to \<open>ProcessJob\<close>; the handlers return it as they leave it.\<close>

definition handleJobSuccess ::
  "('st, 'q) ProcessorService \<Rightarrow> ctx \<Rightarrow> job_ref \<Rightarrow> JobHistory \<Rightarrow> ('st, 'q, JobHistory) prog" where
  "handleJobSuccess p c j history = do {
     t1 \<leftarrow> now;
     t2 \<leftarrow> now;
     write_job j (MarkAsCompleted t1 t2);
     let history = history\<lparr>Hist_Status := ''completed''\<rparr>;
     err \<leftarrow> UpdateJob (Proc_storage p) c j;
     job \<leftarrow> read_job j;
     idstr \<leftarrow> uuid_str (Job_ID job);
     (case err of
        Some e \<Rightarrow> Log_Error (Proc_logger p) c ''Failed to update completed job''
          [Field_String ''job_id'' idstr, Field_String ''error'' (Error e)]
      | None \<Rightarrow> ret ());
     IncrementJobsCompleted (Proc_metrics p) (Job_Type job) (Job_Priority job) (Hist_Duration history);
     Log_Info (Proc_logger p) c ''Job completed successfully''
       [Field_String ''job_id'' idstr, Field_Duration ''duration'' (Hist_Duration history)];
     ret history }"

text \<open>\<^verbatim>\<open>job.NextRetryAt()\<close>, which reads the clock only when there was no attempt yet.\<close>

definition next_retry_at :: "job_ref \<Rightarrow> ('st, 'q, time) prog" where
  "next_retry_at j = do {
     job \<leftarrow> read_job j;
     cvt \<leftarrow> gets (\<lambda>w. cvt_overflow (rt w));
     (if LastAttemptAt (Job_RetryPolicy job) = None
      then do { t \<leftarrow> now; ret (Job_NextRetryAt cvt t job) }
      else ret (Job_NextRetryAt cvt 0 job)) }"

definition schedule_retry ::
  "('st, 'q) ProcessorService \<Rightarrow> ctx \<Rightarrow> job_ref \<Rightarrow> go_error \<Rightarrow> ('st, 'q, unit) prog" where
  "schedule_retry p c j err = do {
     write_job j (\<lambda>J. J\<lparr>Job_Status := StatusScheduled\<rparr>);
     t \<leftarrow> next_retry_at j;
     write_job j (\<lambda>J. J\<lparr>Job_ScheduledAt := t\<rparr>);
     enqueueErr \<leftarrow> EnqueueDelayed (Proc_queue p) c j t;
     job \<leftarrow> read_job j;
     idstr \<leftarrow> uuid_str (Job_ID job);
     (case enqueueErr of
        Some e \<Rightarrow> Log_Error (Proc_logger p) c ''Failed to enqueue job for retry''
          [Field_String ''job_id'' idstr, Field_String ''error'' (Error e)]
      | None \<Rightarrow> ret ());
     IncrementJobsRetried (Proc_metrics p) (Job_Type job) (Job_Priority job);
     Log_Warn (Proc_logger p) c ''Job failed, scheduled for retry''
       [Field_String ''job_id'' idstr,
        Field_Int ''attempt'' (CurrentAttempts (Job_RetryPolicy job)),
        Field_Int ''max_attempts'' (MaxAttempts (Job_RetryPolicy job)),
        Field_String ''error'' (Error err)] }"

definition bury ::
  "('st, 'q) ProcessorService \<Rightarrow> ctx \<Rightarrow> job_ref \<Rightarrow> go_error \<Rightarrow> ('st, 'q, unit) prog" where
  "bury p c j err = do {
     t \<leftarrow> now;
     write_job j (MarkAsDead t);
     dlqErr \<leftarrow> MoveToDeadLetter (Proc_queue p) c j;
     job \<leftarrow> read_job j;
     idstr \<leftarrow> uuid_str (Job_ID job);
     (case dlqErr of
        Some e \<Rightarrow> Log_Error (Proc_logger p) c ''Failed to move job to dead letter queue''
          [Field_String ''job_id'' idstr, Field_String ''error'' (Error e)]
      | None \<Rightarrow> ret ());
     IncrementJobsDeadLettered (Proc_metrics p) (Job_Type job) (Job_Priority job);
     Log_Error (Proc_logger p) c ''Job moved to dead letter queue''
       [Field_String ''job_id'' idstr, Field_String ''error'' (Error err)] }"

text \<open>\<open>schedule_retry\<close> and \<open>bury\<close> are the two branches of \<open>handleJobFailure\<close>.\<close>

definition handleJobFailure ::
  "('st, 'q) ProcessorService \<Rightarrow> ctx \<Rightarrow> job_ref \<Rightarrow> JobHistory \<Rightarrow> go_error \<Rightarrow> ('st, 'q, JobHistory) prog" where
  "handleJobFailure p c j history err = do {
     t1 \<leftarrow> now;
     t2 \<leftarrow> now;
     t3 \<leftarrow> now;
     write_job j (MarkAsFailed err t1 t2 t3);
     let history = history\<lparr>Hist_Status := ''failed'', Hist_Error := Error err\<rparr>;
     job \<leftarrow> read_job j;
     (if CanRetry job then schedule_retry p c j err else bury p c j err);
     IncrementJobsFailed (Proc_metrics p) (Job_Type job) (Job_Priority job) (Error err);
     updErr \<leftarrow> UpdateJob (Proc_storage p) c j;
     (case updErr of
        Some e \<Rightarrow> do {
          idstr \<leftarrow> uuid_str (Job_ID job);
          Log_Error (Proc_logger p) c ''Failed to update failed job''
            [Field_String ''job_id'' idstr, Field_String ''error'' (Error e)] }
      | None \<Rightarrow> ret ());
     ret history }"

text \<open>
  \<open>settle_job\<close> and \<open>run_job\<close> are consecutive parts of \<open>ProcessJob\<close>: \<open>run_job\<close> is what follows once the
  job was marked as processing and stored, its execution under a 30 minute deadline;
  \<open>settle_job\<close> is the bookkeeping of the outcome.
\<close>

definition settle_job ::
  "('st, 'q) ProcessorService \<Rightarrow> ctx \<Rightarrow> job_ref \<Rightarrow> JobHistory \<Rightarrow> go_error option \<Rightarrow> ('st, 'q, go_error option) prog" where
  "settle_job p c j history err = do {
     history \<leftarrow> (case err of
        Some e \<Rightarrow> handleJobFailure p c j history e
      | None \<Rightarrow> handleJobSuccess p c j history);
     saveErr \<leftarrow> SaveJobHistory (Proc_storage p) c history;
     (case saveErr of
        Some e \<Rightarrow> do {
          job \<leftarrow> read_job j;
          idstr \<leftarrow> uuid_str (Job_ID job);
          Log_Error (Proc_logger p) c ''Failed to save job history''
            [Field_String ''job_id'' idstr, Field_String ''error'' (Error e)] }
      | None \<Rightarrow> ret ());
     ret err }"

definition run_job ::
  "('st, 'q) ProcessorService \<Rightarrow> ctx \<Rightarrow> job_ref \<Rightarrow> string \<Rightarrow> ('st, 'q, go_error option) prog" where
  "run_job p c j workerID = do {
     hid \<leftarrow> new_uuid;
     hstr \<leftarrow> uuid_str hid;
     job \<leftarrow> read_job j;
     started \<leftarrow> now;
     let history = \<lparr>Hist_ID = hstr, Hist_JobID = Job_ID job, Hist_WorkerID = workerID,
       Hist_AttemptNumber = CurrentAttempts (Job_RetryPolicy job) + 1, Hist_StartedAt = started,
       Hist_CompletedAt = None, Hist_Status = ''processing'', Hist_Error = [], Hist_Duration = 0\<rparr>;
     startTime \<leftarrow> now;
     jobCtx \<leftarrow> WithTimeout c (30 * Minute);
     err \<leftarrow> executeJob p jobCtx j;
     endTime \<leftarrow> now;
     tn \<leftarrow> now;
     let history = history\<lparr>Hist_Duration := time_Sub endTime startTime, Hist_CompletedAt := Some tn\<rparr>;
     settle_job p c j history err }"

definition ProcessJob ::
  "('st, 'q) ProcessorService \<Rightarrow> ctx \<Rightarrow> job_ref \<Rightarrow> string \<Rightarrow> ('st, 'q, go_error option) prog" where
  "ProcessJob p c j workerID = do {
     t1 \<leftarrow> now;
     t2 \<leftarrow> now;
     write_job j (MarkAsProcessing workerID t1 t2);
     err \<leftarrow> UpdateJob (Proc_storage p) c j;
     (case err of
        Some e \<Rightarrow> ret (Some (Wrapped ''failed to update job status: '' e))
      | None \<Rightarrow> run_job p c j workerID) }"

definition ProcessNextJob ::
  "('st, 'q) ProcessorService \<Rightarrow> ctx \<Rightarrow> string \<Rightarrow> Priority list \<Rightarrow> ('st, 'q, go_error option) prog" where
  "ProcessNextJob p c workerID priorities = do {
     r \<leftarrow> Dequeue (Proc_queue p) c priorities;
     (case r of
        Inl e \<Rightarrow> ret (Some (Wrapped ''failed to dequeue job: '' e))
      | Inr None \<Rightarrow> ret (Some (GoErr ''no jobs available''))
      | Inr (Some j) \<Rightarrow> ProcessJob p c j workerID) }"

lemma wp_uuid_str [wp_simps]: "wp (uuid_str jid) Q w \<longleftrightarrow> Q (uuid_String (rt w) jid) w"
  by (simp add: uuid_str_def wp_simps)

end
