(* ===== verification/Processor.thy ===== *)
theory Processor
  imports Services
begin

text \<open>
  What the processor service does with a job, proved for every storage, queue, metrics and logging
  adapter that satisfies the contracts. The theorems of theory Memory_Backend about the in-memory
  adapters are instances of these lemmas.
\<close>

section \<open>Programs that leave the jobs alone\<close>

text \<open>A job handler that may read the clock and print, but changes no job, storage or queue.\<close>

definition quiet :: "('st, 'q, 'a) prog \<Rightarrow> bool" where
  "quiet m \<longleftrightarrow> (\<forall>w r w'. run_state m w = (r, w') \<longrightarrow>
     rt w' = rt w \<and> uuids w' = uuids w \<and> next_ref w' = next_ref w \<and> exit_code w' = exit_code w \<and>
     heap w' = heap w \<and> storage w' = storage w \<and> queue w' = queue w)"

lemma quietD:
  assumes "quiet m" and "run_state m w = (r, w')"
  shows "rt w' = rt w" "uuids w' = uuids w" "next_ref w' = next_ref w" "exit_code w' = exit_code w"
    "heap w' = heap w" "storage w' = storage w" "queue w' = queue w"
  using assms unfolding quiet_def by blast+

lemma quiet_ret [intro, simp]: "quiet (ret x)"
  by (simp add: quiet_def)

section \<open>The services' view of their adapters\<close>

text \<open>
  From \<open>w\<close> to \<open>w'\<close> only job \<open>j\<close> may have changed, and it kept its identity.
\<close>

definition only_job :: "job_ref \<Rightarrow> ('st, 'q) world \<Rightarrow> ('st, 'q) world \<Rightarrow> bool" where
  "only_job j w w' \<longleftrightarrow> rt w' = rt w \<and> next_ref w \<le> next_ref w' \<and> exit_code w' = exit_code w \<and>
     (\<forall>i < next_ref w. i \<noteq> j \<longrightarrow> heap w' i = heap w i) \<and> same_identity (heap w j) (heap w' j)"

lemma only_job_refl: "only_job j w w"
  by (simp add: only_job_def same_identity_def)

lemma only_job_trans: "only_job j w w' \<Longrightarrow> only_job j w' w'' \<Longrightarrow> only_job j w w''"
  by (auto simp: only_job_def same_identity_def)

lemma only_job_ID: "only_job j w w' \<Longrightarrow> i < next_ref w \<Longrightarrow> Job_ID (heap w' i) = Job_ID (heap w i)"
  by (cases "i = j") (auto simp: only_job_def same_identity_def)

locale backend =
  st: reliable_storage S view norm hist + qu: reliable_queue Q lane stamp ready waiting dead inv +
  ob: observability M L
  for S :: "('st, 'q) StoragePort" and view and norm and hist
    and Q :: "('st, 'q) QueuePort" and lane :: "Priority \<Rightarrow> 'lane" and stamp and ready and waiting
    and dead and inv and M :: "('st, 'q) MetricsPort" and L :: "('st, 'q) LoggerPort"
begin

abbreviation wf :: "('st, 'q) world \<Rightarrow> bool" where
  "wf w \<equiv> inv (queue w) (heap w) (next_ref w)"

lemma wf_only_job:
  assumes "wf w" and "only_job j w w'" and "queue w' = queue w"
  shows "wf w'"
proof -
  have "next_ref w \<le> next_ref w'" using assms(2) by (simp add: only_job_def)
  then show ?thesis
    using qu.inv_heap [OF assms(1), of "heap w'" "next_ref w'"] only_job_ID [OF assms(2)] assms(3)
    by simp
qed

lemma known_heap: "view sto hp jid \<noteq> None \<Longrightarrow> view sto hp' jid \<noteq> None"
  by (metis st.view_defined)

text \<open>The contracts in the form in which the proofs apply them.\<close>

lemma update_rule:
  assumes j: "j < next_ref w" and known: "view (storage w) (heap w) (Job_ID (heap w j)) \<noteq> None"
    and post: "\<And>w' t. only_job j w w' \<Longrightarrow> queue w' = queue w \<Longrightarrow> uuids w' = uuids w \<Longrightarrow>
      hist (storage w') = hist (storage w) \<Longrightarrow> heap w' j = (heap w j)\<lparr>Job_UpdatedAt := t\<rparr> \<Longrightarrow>
      view (storage w') (heap w') (Job_ID (heap w j)) = Some (norm (heap w' j)) \<Longrightarrow> P None w'"
  shows "wp (UpdateJob S c j) P w"
proof (rule wpI)
  fix r w' assume run: "run_state (UpdateJob S c j) w = (r, w')"
  have r: "r = None" using wpD [OF st.update_ok [OF known] run] .
  note u = wpD [OF st.update [of c j w] run]
  then obtain t where h: "\<forall>i < next_ref w. heap w' i =
      (if i = j then (heap w j)\<lparr>Job_UpdatedAt := t\<rparr> else heap w i)" by blast
  have "only_job j w w'"
    using u h j by (auto simp: only_job_def same_run_def same_identity_def)
  then show "P r w'" unfolding r using u h j r by (intro post [of w' t]) (auto simp: same_run_def)
qed

lemma delay_rule:
  assumes "wf w" and "j < next_ref w"
    and post: "\<And>w'. only_job j w w' \<Longrightarrow> storage w' = storage w \<Longrightarrow> uuids w' = uuids w \<Longrightarrow>
      heap w' = heap w \<Longrightarrow> wf w' \<Longrightarrow> ready (queue w') = ready (queue w) \<Longrightarrow>
      dead (queue w') = dead (queue w) \<Longrightarrow>
      waiting (queue w') = (waiting (queue w))(Job_ID (heap w j) \<mapsto> stamp t) \<Longrightarrow> P None w'"
  shows "wp (EnqueueDelayed Q c j t) P w"
proof (rule wpI)
  fix r w' assume run: "run_state (EnqueueDelayed Q c j t) w = (r, w')"
  have r: "r = None" using wpD [OF qu.enqueue_delayed_ok run] .
  note e = wpD [OF qu.enqueue_delayed [OF assms(1,2), of c t] run]
  have "only_job j w w'"
    using e assms(2) by (auto simp: only_job_def queue_frame_def same_run_def same_identity_def)
  then show "P r w'" unfolding r
    using e r assms(2) by (intro post) (auto simp: queue_frame_def same_run_def)
qed

lemma dead_letter_rule:
  assumes "wf w" and "j < next_ref w"
    and post: "\<And>w'. only_job j w w' \<Longrightarrow> storage w' = storage w \<Longrightarrow> uuids w' = uuids w \<Longrightarrow>
      heap w' = heap w \<Longrightarrow> wf w' \<Longrightarrow> ready (queue w') = ready (queue w) \<Longrightarrow>
      waiting (queue w') = waiting (queue w) \<Longrightarrow>
      mset (dead (queue w')) = mset (dead (queue w)) + {#Job_ID (heap w j)#} \<Longrightarrow> P None w'"
  shows "wp (MoveToDeadLetter Q c j) P w"
proof (rule wpI)
  fix r w' assume run: "run_state (MoveToDeadLetter Q c j) w = (r, w')"
  have r: "r = None" using wpD [OF qu.dead_letter_ok run] .
  note e = wpD [OF qu.dead_letter [OF assms(1,2), of c] run]
  have "only_job j w w'"
    using e assms(2) by (auto simp: only_job_def queue_frame_def same_run_def same_identity_def)
  then show "P r w'" unfolding r
    using e r assms(2) by (intro post) (auto simp: queue_frame_def same_run_def)
qed

lemma save_history_rule:
  assumes post: "\<And>w'. same_run w w' \<Longrightarrow> queue w' = queue w \<Longrightarrow>
      (\<And>i. i < next_ref w \<Longrightarrow> heap w' i = heap w i) \<Longrightarrow>
      view (storage w') (heap w') = view (storage w) (heap w) \<Longrightarrow>
      (\<And>jid. mset (hist (storage w') jid) =
         mset (hist (storage w) jid) + (if jid = Hist_JobID h then {#h#} else {#})) \<Longrightarrow> P None w'"
  shows "wp (SaveJobHistory S c h) P w"
proof (rule wpI)
  fix r w' assume run: "run_state (SaveJobHistory S c h) w = (r, w')"
  have r: "r = None" using wpD [OF st.save_history_ok run] .
  show "P r w'" unfolding r
    using wpD [OF st.save_history [of c h w] run] r by (intro post) (auto simp: storage_frame_def)
qed

end

section \<open>Outcomes of an execution\<close>

text \<open>How a job object looks after it was started, completed, sent back for a retry, or given up.\<close>

definition started_as :: "string \<Rightarrow> Job \<Rightarrow> Job \<Rightarrow> bool" where
  "started_as workerID J J' \<longleftrightarrow> (\<exists>t t'. J' = J\<lparr>Job_Status := StatusProcessing,
     Job_WorkerID := workerID, Job_UpdatedAt := t, Job_ProcessedAt := Some t'\<rparr>)"

definition completed_as :: "Job \<Rightarrow> Job \<Rightarrow> bool" where
  "completed_as J J' \<longleftrightarrow> (\<exists>t t'. J' = J\<lparr>Job_Status := StatusCompleted, Job_UpdatedAt := t,
     Job_CompletedAt := Some t'\<rparr>)"

definition retried_as :: "(go_int \<Rightarrow> duration) \<Rightarrow> go_error \<Rightarrow> Job \<Rightarrow> Job \<Rightarrow> bool" where
  "retried_as cvt e J J' \<longleftrightarrow> (\<exists>t t' t''. J' = J\<lparr>Job_Status := StatusScheduled,
     Job_LastError := Error e, Job_UpdatedAt := t, Job_FailedAt := Some t',
     Job_RetryPolicy := IncrementAttempts t'' (Job_RetryPolicy J),
     Job_ScheduledAt := NextRetryAt cvt 0 (IncrementAttempts t'' (Job_RetryPolicy J))\<rparr>)"

definition died_as :: "go_error \<Rightarrow> Job \<Rightarrow> Job \<Rightarrow> bool" where
  "died_as e J J' \<longleftrightarrow> (\<exists>t t' t''. J' = J\<lparr>Job_Status := StatusDead, Job_LastError := Error e,
     Job_UpdatedAt := t, Job_FailedAt := Some t',
     Job_RetryPolicy := IncrementAttempts t'' (Job_RetryPolicy J)\<rparr>)"

lemma retried_asI:
  assumes "J' = (MarkAsFailed e a t' t'' J)\<lparr>Job_Status := StatusScheduled,
    Job_ScheduledAt := Job_NextRetryAt cvt 0 (MarkAsFailed e a t' t'' J), Job_UpdatedAt := t\<rparr>"
  shows "retried_as cvt e J J'"
  unfolding retried_as_def assms
  by (intro exI [of _ t] exI [of _ t'] exI [of _ t''])
    (simp add: MarkAsFailed_def Job_NextRetryAt_def)

lemma died_asI:
  assumes "J' = (MarkAsDead b (MarkAsFailed e a t' t'' J))\<lparr>Job_UpdatedAt := t\<rparr>"
  shows "died_as e J J'"
  unfolding died_as_def assms
  by (intro exI [of _ t] exI [of _ t'] exI [of _ t'']) (simp add: MarkAsFailed_def MarkAsDead_def)

text \<open>Whether a failure of a job with this policy leaves an attempt.\<close>

definition attempt_left :: "RetryPolicy \<Rightarrow> bool" where
  "attempt_left rp \<longleftrightarrow> 0 < sint (MaxAttempts rp - (CurrentAttempts rp + 1))"

lemma CanRetry_MarkAsFailed:
  "CanRetry (MarkAsFailed e t1 t2 t3 J) \<longleftrightarrow> attempt_left (Job_RetryPolicy J)"
  by (simp add: CanRetry_def MarkAsFailed_def attempt_left_def AttemptsLeft_def IncrementAttempts_def)

lemma attempt_left_exact:
  "attempts_wf rp \<Longrightarrow> attempt_left rp \<longleftrightarrow> sint (CurrentAttempts rp) + 1 < sint (MaxAttempts rp)"
  using CanRetry_MarkAsFailed [of "GoErr []" 0 0 0 "example_job\<lparr>Job_RetryPolicy := rp\<rparr>"]
    CanRetry_failed [of "example_job\<lparr>Job_RetryPolicy := rp\<rparr>" "GoErr []" 0 0 0]
  by simp

text \<open>The history entry that an execution of a job leaves.\<close>

definition journal_entry :: "string \<Rightarrow> Job \<Rightarrow> go_error option \<Rightarrow> JobHistory \<Rightarrow> bool" where
  "journal_entry workerID J r h \<longleftrightarrow> Hist_JobID h = Job_ID J \<and> Hist_WorkerID h = workerID \<and>
     Hist_AttemptNumber h = CurrentAttempts (Job_RetryPolicy J) + 1 \<and> Hist_CompletedAt h \<noteq> None \<and>
     (case r of None \<Rightarrow> Hist_Status h = ''completed'' \<and> Hist_Error h = []
              | Some e \<Rightarrow> Hist_Status h = ''failed'' \<and> Hist_Error h = Error e)"

locale processor = backend S view norm hist Q lane stamp ready waiting dead inv M L
  for S :: "('st, 'q) StoragePort" and view and norm and hist
    and Q :: "('st, 'q) QueuePort" and lane :: "Priority \<Rightarrow> 'lane" and stamp and ready and waiting
    and dead and inv and M :: "('st, 'q) MetricsPort" and L :: "('st, 'q) LoggerPort" +
  fixes p :: "('st, 'q) ProcessorService"
  assumes p_ports [simp]: "Proc_storage p = S" "Proc_queue p = Q" "Proc_metrics p = M" "Proc_logger p = L"
begin

lemma only_job_write:
  "same_identity (heap w j) J \<Longrightarrow> only_job j w (w\<lparr>ticks := n, heap := (heap w)(j := J)\<rparr>)"
  by (simp add: only_job_def)

lemma handleJobSuccess_rule:
  assumes j: "j < next_ref w" and wf: "wf w"
    and known: "view (storage w) (heap w) (Job_ID (heap w j)) \<noteq> None"
  shows "wp (handleJobSuccess p c j h) (\<lambda>h' w'. h' = h\<lparr>Hist_Status := ''completed''\<rparr> \<and>
    only_job j w w' \<and> wf w' \<and> queue w' = queue w \<and> uuids w' = uuids w \<and>
    hist (storage w') = hist (storage w) \<and> completed_as (heap w j) (heap w' j) \<and>
    view (storage w') (heap w') (Job_ID (heap w j)) = Some (norm (heap w' j))) w"
proof -
  let ?t = "clock (rt w) (ticks w)" and ?t' = "clock (rt w) (Suc (ticks w))"
  let ?J = "MarkAsCompleted ?t ?t' (heap w j)"
  let ?w1 = "w\<lparr>ticks := Suc (Suc (ticks w)), heap := (heap w)(j := ?J)\<rparr>"
  have known1: "view (storage ?w1) (heap ?w1) (Job_ID (heap ?w1 j)) \<noteq> None"
    using known_heap [OF known] by (simp add: MarkAsCompleted_def)
  have step1: "only_job j w ?w1"
    by (simp add: only_job_def same_identity_def MarkAsCompleted_def)
  show ?thesis unfolding handleJobSuccess_def
  proof (simp add: wp_simps Let_def, rule update_rule, goal_cases)
    case 1 show ?case using j by simp
  next
    case 2 show ?case using known1 by simp
  next
    case (3 w' t)
    then have "only_job j w w'" using only_job_trans [OF step1] by simp
    moreover have "queue w' = queue w" "heap w' j = ?J\<lparr>Job_UpdatedAt := t\<rparr>" using 3 by simp_all
    moreover have "wf w'" using wf_only_job [OF wf] calculation by blast
    moreover have "completed_as (heap w j) (heap w' j)"
      unfolding completed_as_def
      by (intro exI [of _ t] exI [of _ ?t']) (simp add: calculation MarkAsCompleted_def)
    ultimately show ?case using 3
      by (auto simp: wp_simps only_job_def MarkAsCompleted_def intro!: wp_rules)
  qed
qed

text \<open>Both branches of a failure, from the job as \<open>MarkAsFailed\<close> leaves it.\<close>

lemma schedule_retry_rule:
  assumes j: "j < next_ref w" and wf: "wf w"
    and attempted: "LastAttemptAt (Job_RetryPolicy (heap w j)) \<noteq> None"
  defines "t \<equiv> Job_NextRetryAt (cvt_overflow (rt w)) 0 (heap w j)"
  shows "wp (schedule_retry p c j e) (\<lambda>_ w'. only_job j w w' \<and> wf w' \<and> uuids w' = uuids w \<and>
    storage w' = storage w \<and>
    heap w' j = (heap w j)\<lparr>Job_Status := StatusScheduled, Job_ScheduledAt := t\<rparr> \<and>
    ready (queue w') = ready (queue w) \<and> dead (queue w') = dead (queue w) \<and>
    waiting (queue w') = (waiting (queue w))(Job_ID (heap w j) \<mapsto> stamp t)) w"
proof -
  let ?J = "(heap w j)\<lparr>Job_Status := StatusScheduled, Job_ScheduledAt := t\<rparr>"
  let ?w1 = "w\<lparr>heap := (heap w)(j := ?J)\<rparr>"
  have step1: "only_job j w ?w1" by (simp add: only_job_def same_identity_def)
  have wf1: "wf ?w1" using wf_only_job [OF wf step1] by simp
  have due: "Job_NextRetryAt (cvt_overflow (rt w)) 0 ((heap w j)\<lparr>Job_Status := s\<rparr>) = t" for s
    by (simp add: t_def Job_NextRetryAt_def)
  show ?thesis unfolding schedule_retry_def
  proof (simp add: wp_simps next_retry_at_def attempted due, rule delay_rule, goal_cases)
    case 1 show ?case using wf1 by simp
  next
    case 2 show ?case using j by simp
  next
    case (3 w')
    then have "only_job j w w'" using only_job_trans [OF step1] by simp
    then show ?case using 3
      by (auto simp: wp_simps only_job_def intro!: wp_rules)
  qed
qed

lemma bury_rule:
  assumes j: "j < next_ref w" and wf: "wf w"
  shows "wp (bury p c j e) (\<lambda>_ w'. only_job j w w' \<and> wf w' \<and> uuids w' = uuids w \<and>
    storage w' = storage w \<and> (\<exists>t. heap w' j = MarkAsDead t (heap w j)) \<and>
    ready (queue w') = ready (queue w) \<and> waiting (queue w') = waiting (queue w) \<and>
    mset (dead (queue w')) = mset (dead (queue w)) + {#Job_ID (heap w j)#}) w"
proof -
  let ?J = "MarkAsDead (clock (rt w) (ticks w)) (heap w j)"
  let ?w1 = "w\<lparr>ticks := Suc (ticks w), heap := (heap w)(j := ?J)\<rparr>"
  have step1: "only_job j w ?w1" by (simp add: only_job_def same_identity_def MarkAsDead_def)
  have wf1: "wf ?w1" using wf_only_job [OF wf step1] by simp
  show ?thesis unfolding bury_def
  proof (simp add: wp_simps, rule dead_letter_rule, goal_cases)
    case 1 show ?case using wf1 by simp
  next
    case 2 show ?case using j by simp
  next
    case (3 w')
    then have "only_job j w w'" using only_job_trans [OF step1] by simp
    then show ?case using 3
      by (auto simp: wp_simps only_job_def MarkAsDead_def intro!: wp_rules)
  qed
qed

text \<open>Where a failed job goes: back among the delayed jobs, or to the dead letters.\<close>

definition failed_to :: "go_error \<Rightarrow> job_ref \<Rightarrow> Job \<Rightarrow> ('st, 'q) world \<Rightarrow> ('st, 'q) world \<Rightarrow> bool" where
  "failed_to e j J w w' \<longleftrightarrow> ready (queue w') = ready (queue w) \<and>
     (if attempt_left (Job_RetryPolicy J)
      then retried_as (cvt_overflow (rt w)) e J (heap w' j) \<and> dead (queue w') = dead (queue w) \<and>
        waiting (queue w') = (waiting (queue w))(Job_ID J \<mapsto> stamp (Job_ScheduledAt (heap w' j)))
      else died_as e J (heap w' j) \<and> waiting (queue w') = waiting (queue w) \<and>
        mset (dead (queue w')) = mset (dead (queue w)) + {#Job_ID J#})"

text \<open>
  The state between the branch of \<open>handleJobFailure\<close> and its final \<open>UpdateJob\<close>: the job is where
  it belongs, whatever time stamp the storage still puts on it.
\<close>

definition moved :: "go_error \<Rightarrow> job_ref \<Rightarrow> ('st, 'q) world \<Rightarrow> ('st, 'q) world \<Rightarrow> bool" where
  "moved e j w w2 \<longleftrightarrow> only_job j w w2 \<and> wf w2 \<and> uuids w2 = uuids w \<and> storage w2 = storage w \<and>
    (\<forall>w' t. heap w' j = (heap w2 j)\<lparr>Job_UpdatedAt := t\<rparr> \<longrightarrow> queue w' = queue w2 \<longrightarrow>
      failed_to e j (heap w j) w w')"

lemma failure_branch:
  fixes w :: "('st, 'q) world" and e and t1 t2 t3
  assumes j: "j < next_ref w" and wf: "wf w"
  defines "J \<equiv> MarkAsFailed e t1 t2 t3 (heap w j)"
  shows "wp (if CanRetry J then schedule_retry p c j e else bury p c j e) (\<lambda>_. moved e j w)
    (w\<lparr>ticks := n, heap := (heap w)(j := J)\<rparr>)" (is "wp _ _ ?w1")
proof -
  have step1: "only_job j w ?w1" by (simp add: only_job_def same_identity_def MarkAsFailed_def J_def)
  have wf1: "wf ?w1" using wf_only_job [OF wf step1] by simp
  have attempted: "LastAttemptAt (Job_RetryPolicy (heap ?w1 j)) \<noteq> None"
    by (simp add: MarkAsFailed_def IncrementAttempts_def J_def)
  have retry: "wp (schedule_retry p c j e) (\<lambda>_. moved e j w) ?w1"
    if "attempt_left (Job_RetryPolicy (heap w j))"
  proof (rule wp_mono [OF schedule_retry_rule [OF _ wf1 attempted]], goal_cases)
    case 1 show ?case using j by simp
  next
    case (2 u w2)
    have "failed_to e j (heap w j) w w'"
      if "heap w' j = (heap w2 j)\<lparr>Job_UpdatedAt := t\<rparr>" "queue w' = queue w2" for w' t
      unfolding failed_to_def using 2 that \<open>attempt_left _\<close>
      by (auto simp: MarkAsFailed_def J_def intro!: retried_asI [where a = t1 and t' = t2 and t'' = t3 and t = t])
    then show ?case using 2 only_job_trans [OF step1, of w2] by (auto simp: moved_def)
  qed
  have dead: "wp (bury p c j e) (\<lambda>_. moved e j w) ?w1"
    if "\<not> attempt_left (Job_RetryPolicy (heap w j))"
  proof (rule wp_mono [OF bury_rule [OF _ wf1]], goal_cases)
    case 1 show ?case using j by simp
  next
    case (2 u w2)
    then obtain b where b: "heap w2 j = MarkAsDead b J" by auto
    have "failed_to e j (heap w j) w w'"
      if "heap w' j = (heap w2 j)\<lparr>Job_UpdatedAt := t\<rparr>" "queue w' = queue w2" for w' t
      unfolding failed_to_def using 2 that \<open>\<not> attempt_left _\<close> b
      by (auto simp: MarkAsFailed_def J_def
          intro!: died_asI [where b = b and a = t1 and t' = t2 and t'' = t3 and t = t])
    then show ?case using 2 only_job_trans [OF step1, of w2] by (auto simp: moved_def)
  qed
  show ?thesis using retry dead by (simp add: CanRetry_MarkAsFailed J_def)
qed

lemma handleJobFailure_rule:
  assumes j: "j < next_ref w" and wf: "wf w"
    and known: "view (storage w) (heap w) (Job_ID (heap w j)) \<noteq> None"
  shows "wp (handleJobFailure p c j h e) (\<lambda>h' w'.
    h' = h\<lparr>Hist_Status := ''failed'', Hist_Error := Error e\<rparr> \<and>
    only_job j w w' \<and> wf w' \<and> uuids w' = uuids w \<and> hist (storage w') = hist (storage w) \<and>
    failed_to e j (heap w j) w w' \<and>
    view (storage w') (heap w') (Job_ID (heap w j)) = Some (norm (heap w' j))) w"
  unfolding handleJobFailure_def
proof (simp add: wp_simps Let_def split del: if_split, rule wp_mono [OF failure_branch [OF j wf]], goal_cases)
  case (1 u w2)
  then have m: "only_job j w w2" "wf w2" "uuids w2 = uuids w" "storage w2 = storage w"
    and f: "heap w' j = (heap w2 j)\<lparr>Job_UpdatedAt := t\<rparr> \<Longrightarrow> queue w' = queue w2 \<Longrightarrow>
      failed_to e j (heap w j) w w'" for w' t
    unfolding moved_def by blast+
  show ?case
  proof (rule wp_prints [OF ob.failed], rule update_rule, goal_cases)
    case 1 show ?case using j m(1) by (simp add: only_job_def)
  next
    case 2 show ?case using known_heap [OF known] m(4) only_job_ID [OF m(1) j] by simp
  next
    case (3 out w' t)
    then have "only_job j w w'" using only_job_trans [OF m(1), of w'] by (simp add: only_job_def)
    moreover have "wf w'" using wf_only_job [OF m(2), of j w'] 3 by (simp add: only_job_def)
    moreover have "failed_to e j (heap w j) w w'" using f 3 by simp
    ultimately show ?case using 3 m only_job_ID [OF m(1) j] by (simp add: wp_simps)
  qed
qed

text \<open>What is known after a job that was in state \<open>J\<close> when it was started has been run.\<close>

definition job_run :: "string \<Rightarrow> job_ref \<Rightarrow> Job \<Rightarrow> ('st, 'q) world \<Rightarrow> go_error option \<Rightarrow> ('st, 'q) world \<Rightarrow> bool" where
  "job_run workerID j J w r w' \<longleftrightarrow> only_job j w w' \<and> wf w' \<and>
     view (storage w') (heap w') (Job_ID J) = Some (norm (heap w' j)) \<and>
     (case r of None \<Rightarrow> completed_as J (heap w' j) \<and> queue w' = queue w
              | Some e \<Rightarrow> failed_to e j J w w') \<and>
     (\<exists>h. journal_entry workerID J r h \<and> (\<forall>jid. mset (hist (storage w') jid) =
        mset (hist (storage w) jid) + (if jid = Job_ID J then {#h#} else {#}))) \<and>
     (\<exists>jc wx t k. r = fst (run_state (executeJob p jc j) wx) \<and> heap wx j = J \<and> rt wx = rt w \<and>
        deadline jc = Some t \<and> k < ticks wx \<and> t \<le> time_Add (clock (rt w) k) (30 * Minute))"

lemma settle_job_rule:
  assumes j: "j < next_ref w" and wf: "wf w"
    and known: "view (storage w) (heap w) (Job_ID (heap w j)) \<noteq> None"
    and h: "Hist_JobID h = Job_ID (heap w j)"
  shows "wp (settle_job p c j h err) (\<lambda>r w'. r = err \<and> only_job j w w' \<and> wf w' \<and>
    view (storage w') (heap w') (Job_ID (heap w j)) = Some (norm (heap w' j)) \<and>
    (case err of None \<Rightarrow> completed_as (heap w j) (heap w' j) \<and> queue w' = queue w
               | Some e \<Rightarrow> failed_to e j (heap w j) w w') \<and>
    (\<forall>jid. mset (hist (storage w') jid) = mset (hist (storage w) jid) +
       (if jid = Job_ID (heap w j)
        then {#case err of None \<Rightarrow> h\<lparr>Hist_Status := ''completed''\<rparr>
             | Some e \<Rightarrow> h\<lparr>Hist_Status := ''failed'', Hist_Error := Error e\<rparr>#} else {#}))) w"
    (is "wp _ ?post w")
proof -
  let ?h = "case err of None \<Rightarrow> h\<lparr>Hist_Status := ''completed''\<rparr>
             | Some e \<Rightarrow> h\<lparr>Hist_Status := ''failed'', Hist_Error := Error e\<rparr>"
  let ?mid = "\<lambda>h' w2. h' = ?h \<and> only_job j w w2 \<and> wf w2 \<and> hist (storage w2) = hist (storage w) \<and>
    view (storage w2) (heap w2) (Job_ID (heap w j)) = Some (norm (heap w2 j)) \<and>
    (case err of None \<Rightarrow> completed_as (heap w j) (heap w2 j) \<and> queue w2 = queue w
               | Some e \<Rightarrow> failed_to e j (heap w j) w w2)"
  have branch: "wp (case err of Some e \<Rightarrow> handleJobFailure p c j h e | None \<Rightarrow> handleJobSuccess p c j h) ?mid w"
  proof (cases err)
    case None
    have "wp (handleJobSuccess p c j h) ?mid w"
      by (rule wp_mono [OF handleJobSuccess_rule [OF j wf known]]) (use None in auto)
    then show ?thesis by (simp add: None)
  next
    case (Some e)
    have "wp (handleJobFailure p c j h e) ?mid w"
      by (rule wp_mono [OF handleJobFailure_rule [OF j wf known]]) (use Some in auto)
    then show ?thesis by (simp add: Some)
  qed
  show ?thesis unfolding settle_job_def wp_bind p_ports
  proof (rule wp_mono [OF branch], elim conjE, rule save_history_rule, goal_cases)
    case (1 h' w2 w')
    then have "only_job j w w'" "heap w' j = heap w2 j"
      using j by (auto simp: only_job_def same_run_def)
    moreover have "only_job j w2 w'"
      using 1 j by (auto simp: only_job_def same_run_def same_identity_def)
    then have "wf w'" using wf_only_job 1 by blast
    moreover have "Hist_JobID h' = Job_ID (heap w j)" using 1 h by (auto split: option.splits)
    ultimately show ?case using 1 by (auto simp: wp_simps failed_to_def split: option.splits)
  qed
qed

lemma run_job_rule:
  assumes j: "j < next_ref w" and wf: "wf w"
    and known: "view (storage w) (heap w) (Job_ID (heap w j)) \<noteq> None"
    and quiet: "\<And>jc. quiet (executeJob p jc j)"
  shows "wp (run_job p c j workerID) (job_run workerID j (heap w j) w) w"
proof -
  let ?J = "heap w j" and ?n = "ticks w"
  let ?t = "time_Add (clock (rt w) (Suc (Suc ?n))) (30 * Minute)"
  let ?wx = "w\<lparr>uuids := Suc (uuids w), ticks := Suc (Suc (Suc ?n))\<rparr>"
  let ?jc = "with_deadline c ?t"
  obtain r w1 where run: "run_state (executeJob p ?jc j) ?wx = (r, w1)" by fastforce
  have same: "rt w1 = rt w" "next_ref w1 = next_ref w" "exit_code w1 = exit_code w" "heap w1 = heap w"
      "storage w1 = storage w" "queue w1 = queue w"
    using quietD [OF quiet run] by simp_all
  have r: "r = fst (run_state (executeJob p ?jc j) ?wx)" by (simp only: run fst_conv)
  obtain t where t: "deadline ?jc = Some t" "t \<le> ?t"
    using with_deadline_le [of c ?t] by blast
  have exec: "\<exists>jc wx t k. r = fst (run_state (executeJob p jc j) wx) \<and> heap wx j = ?J \<and> rt wx = rt w \<and>
      deadline jc = Some t \<and> k < ticks wx \<and> t \<le> time_Add (clock (rt w) k) (30 * Minute)"
    by (intro exI [of _ ?jc] exI [of _ ?wx] exI [of _ t] exI [of _ "Suc (Suc ?n)"] conjI)
      (rule r, use t in simp_all)
  show ?thesis unfolding run_job_def
  proof (simp add: wp_simps Let_def wp_run [OF run] same, rule wp_mono [OF settle_job_rule], goal_cases)
    case (5 r' w')
    then show ?case using exec
      by (auto simp: job_run_def only_job_def same failed_to_def journal_entry_def split: option.splits)
  qed (use j wf known same in auto)
qed

lemma job_run_before:
  assumes "only_job j w w1" and "queue w1 = queue w" and "hist (storage w1) = hist (storage w)"
    and "job_run workerID j J w1 r w'"
  shows "job_run workerID j J w r w'"
proof -
  have "only_job j w w'" using only_job_trans [OF assms(1)] assms(4) by (simp add: job_run_def)
  moreover have "rt w1 = rt w" using assms(1) by (simp add: only_job_def)
  ultimately show ?thesis using assms(2-4)
    by (cases r) (auto simp: job_run_def failed_to_def)
qed

lemma ProcessJob_rule:
  assumes j: "j < next_ref w" and wf: "wf w"
    and known: "view (storage w) (heap w) (Job_ID (heap w j)) \<noteq> None"
    and quiet: "\<And>jc. quiet (executeJob p jc j)"
  shows "wp (ProcessJob p c j workerID) (\<lambda>r w'. \<exists>J. started_as workerID (heap w j) J \<and>
    job_run workerID j J w r w') w"
proof -
  let ?t = "clock (rt w) (ticks w)" and ?t' = "clock (rt w) (Suc (ticks w))"
  let ?J = "MarkAsProcessing workerID ?t ?t' (heap w j)"
  let ?w1 = "w\<lparr>ticks := Suc (Suc (ticks w)), heap := (heap w)(j := ?J)\<rparr>"
  have step1: "only_job j w ?w1"
    by (simp add: only_job_def same_identity_def MarkAsProcessing_def)
  show ?thesis unfolding ProcessJob_def
  proof (simp add: wp_simps, rule update_rule, goal_cases)
    case 1 show ?case using j by simp
  next
    case 2 show ?case using known_heap [OF known] by (simp add: MarkAsProcessing_def)
  next
    case (3 w2 t)
    then have o: "only_job j w w2" "queue w2 = queue w" using only_job_trans [OF step1] by simp_all
    have J: "started_as workerID (heap w j) (heap w2 j)"
      unfolding started_as_def using 3
      by (intro exI [of _ t] exI [of _ ?t']) (simp add: MarkAsProcessing_def)
    have "wp (run_job p c j workerID) (job_run workerID j (heap w2 j) w2) w2"
    proof (rule run_job_rule [OF _ _ _ quiet])
      show "j < next_ref w2" using j o(1) by (simp add: only_job_def)
      show "wf w2" using wf_only_job [OF wf o] .
      show "view (storage w2) (heap w2) (Job_ID (heap w2 j)) \<noteq> None"
        using 3 only_job_ID [OF o(1) j] by (simp add: MarkAsProcessing_def)
    qed
    then have "wp (run_job p c j workerID) (\<lambda>r w'. \<exists>J. started_as workerID (heap w j) J \<and>
        job_run workerID j J w r w') w2"
      by (rule wp_mono) (use J job_run_before [OF o] 3 in auto)
    then show ?case by simp
  qed
qed

text \<open>A poll that finds a job takes the first of the backlog and runs it.\<close>

lemma ProcessNextJob_rule:
  assumes wf: "wf w" and lanes: "distinct (map lane ps)"
    and b: "qu.backlog (queue w) ps = jid # rest"
    and known: "view (storage w) (heap w) jid \<noteq> None"
    and quiet: "\<And>jc i. quiet (executeJob p jc i)"
  shows "wp (ProcessNextJob p c workerID ps) (\<lambda>r w'. \<exists>j w1 J. queue_frame w w1 \<and>
    qu.backlog (queue w1) ps = rest \<and> waiting (queue w1) = waiting (queue w) \<and>
    dead (queue w1) = dead (queue w) \<and> j < next_ref w1 \<and> Job_ID (heap w1 j) = jid \<and>
    started_as workerID (heap w1 j) J \<and> job_run workerID j J w1 r w') w"
  unfolding ProcessNextJob_def wp_bind p_ports
proof (rule wp_mono [OF qu.dequeue_backlog [OF wf lanes b]], elim conjE exE, goal_cases)
  case (1 r w1 j)
  then have "view (storage w1) (heap w1) (Job_ID (heap w1 j)) \<noteq> None"
    using known_heap [OF known] by (simp add: queue_frame_def)
  then have "wp (ProcessJob p c j workerID) (\<lambda>r w'. \<exists>J. started_as workerID (heap w1 j) J \<and>
      job_run workerID j J w1 r w') w1"
    using 1 by (intro ProcessJob_rule quiet) auto
  then have "wp (ProcessJob p c j workerID) (\<lambda>r w'. \<exists>j w1 J. queue_frame w w1 \<and>
      qu.backlog (queue w1) ps = rest \<and> waiting (queue w1) = waiting (queue w) \<and>
      dead (queue w1) = dead (queue w) \<and> j < next_ref w1 \<and> Job_ID (heap w1 j) = jid \<and>
      started_as workerID (heap w1 j) J \<and> job_run workerID j J w1 r w') w1"
    by (rule wp_mono) (use 1 in blast)
  then show ?case using 1 by simp
qed

lemma ProcessNextJob_idle:
  assumes wf: "wf w" and b: "qu.backlog (queue w) ps = []"
  shows "wp (ProcessNextJob p c workerID ps) (\<lambda>r w'. r \<noteq> None \<and> queue_frame w w' \<and> wf w' \<and>
    ready (queue w') = ready (queue w) \<and> waiting (queue w') = waiting (queue w) \<and>
    dead (queue w') = dead (queue w)) w"
  unfolding ProcessNextJob_def wp_bind p_ports
proof (rule wp_mono [OF qu.dequeue_empty [OF wf b]], elim conjE, goal_cases)
  case (1 r w1)
  then show ?case by (auto simp: wp_simps split: sum.split option.split)
qed

end

end
