(* ===== verification/Scheduler.thy ===== *)
theory Scheduler
  imports Processor
begin

text \<open>
  What the scheduler service does with a request, proved for every adapter that satisfies the
  contracts.
\<close>

text \<open>When a request asks for a delay: its time lies after the clock reading taken for the test.\<close>

definition delayed_request :: "ScheduleJobRequest \<Rightarrow> time \<Rightarrow> time option" where
  "delayed_request req t = (case Req_ScheduleAt req of
     Some s \<Rightarrow> if time_After s t then Some s else None | None \<Rightarrow> None)"

text \<open>The job that a request describes, given the runtime and the clock reading of the test.\<close>

definition requested_job :: "runtime \<Rightarrow> time \<Rightarrow> uuid \<Rightarrow> ScheduleJobRequest \<Rightarrow> Job \<Rightarrow> bool" where
  "requested_job r t jid req J \<longleftrightarrow>
     Job_ID J = jid \<and> Job_Type J = Req_Type req \<and> Job_Payload J = Req_Payload req \<and>
     Job_Metadata J = Req_Metadata req \<and>
     Job_Priority J = (if Req_Priority req = 0 then PriorityMedium else Req_Priority req) \<and>
     Job_RetryPolicy J = (case Req_RetryPolicy req of
       Some rp \<Rightarrow> rp | None \<Rightarrow> NewRetryPolicy (frac_ns r) (os_Getenv r)) \<and>
     (case delayed_request req t of
        Some s \<Rightarrow> Job_Status J = StatusScheduled \<and> Job_ScheduledAt J = s
      | None \<Rightarrow> Job_Status J = StatusPending) \<and>
     Job_ProcessedAt J = None \<and> Job_CompletedAt J = None \<and> Job_FailedAt J = None"

lemma create_job_rule:
  fixes w :: "('st, 'q) world"
  shows "wp (create_job req) (\<lambda>j w'. j = next_ref w \<and> next_ref w' = Suc j \<and>
    (\<forall>i. i \<noteq> j \<longrightarrow> heap w' i = heap w i) \<and> requested_job (rt w) (clock (rt w) (ticks w + 3))
       (uuid_New (rt w) (uuids w)) req (heap w' j) \<and>
    rt w' = rt w \<and> storage w' = storage w \<and> queue w' = queue w \<and> uuids w' = Suc (uuids w) \<and>
    exit_code w' = exit_code w) w"
  by (simp add: create_job_def wp_simps requested_job_def delayed_request_def eval_nat_numeral
      split: option.split)

context backend
begin

lemma save_rule:
  assumes post: "\<And>w'. storage_frame w w' \<Longrightarrow> hist (storage w') = hist (storage w) \<Longrightarrow>
      view (storage w') (heap w') =
        (view (storage w) (heap w))(Job_ID (heap w j) \<mapsto> norm (heap w j)) \<Longrightarrow> P None w'"
  shows "wp (SaveJob S c j) P w"
proof (rule wpI)
  fix r w' assume run: "run_state (SaveJob S c j) w = (r, w')"
  have "r = None" using wpD [OF st.save_ok run] .
  then show "P r w'" using wpD [OF st.save [of c j w] run] post by simp
qed

lemma enqueue_rule:
  assumes "wf w" and "j < next_ref w"
    and post: "\<And>w'. queue_frame w w' \<Longrightarrow> heap w' = heap w \<Longrightarrow> wf w' \<Longrightarrow>
      waiting (queue w') = waiting (queue w) \<Longrightarrow> dead (queue w') = dead (queue w) \<Longrightarrow>
      ready (queue w') = (ready (queue w))(lane (Job_Priority (heap w j)) :=
        ready (queue w) (lane (Job_Priority (heap w j))) @ [Job_ID (heap w j)]) \<Longrightarrow> P None w'"
  shows "wp (Enqueue Q c j) P w"
proof (rule wpI)
  fix r w' assume run: "run_state (Enqueue Q c j) w = (r, w')"
  have r: "r = None" using wpD [OF qu.enqueue_ok run] .
  note e = wpD [OF qu.enqueue [OF assms(1,2), of c] run]
  show "P r w'" unfolding r using e r by (intro post) (auto simp: Let_def)
qed

text \<open>Where \<open>enqueueJob\<close> puts a job.\<close>

definition placed :: "Job \<Rightarrow> ('st, 'q) world \<Rightarrow> ('st, 'q) world \<Rightarrow> bool" where
  "placed J w w' \<longleftrightarrow> dead (queue w') = dead (queue w) \<and>
     (if Job_Status J = StatusScheduled
      then ready (queue w') = ready (queue w) \<and>
        waiting (queue w') = (waiting (queue w))(Job_ID J \<mapsto> stamp (Job_ScheduledAt J))
      else waiting (queue w') = waiting (queue w) \<and>
        ready (queue w') = (ready (queue w))(lane (Job_Priority J) :=
          ready (queue w) (lane (Job_Priority J)) @ [Job_ID J]))"

lemma enqueueJob_rule:
  assumes "wf w" and "j < next_ref w" and s: "Sched_queue s = Q"
  shows "wp (enqueueJob s c j) (\<lambda>r w'. r = None \<and> wf w' \<and> storage w' = storage w \<and>
    rt w' = rt w \<and> heap w' = heap w \<and> placed (heap w j) w w') w"
proof (cases "Job_Status (heap w j) = StatusScheduled")
  case True
  then show ?thesis unfolding enqueueJob_def
    by (simp add: wp_simps s) (rule delay_rule [OF assms(1,2)], simp add: only_job_def placed_def)
next
  case False
  then show ?thesis unfolding enqueueJob_def
    by (simp add: wp_simps s)
      (rule enqueue_rule [OF assms(1,2)], use assms(2) in \<open>simp add: queue_frame_def same_run_def placed_def\<close>)
qed

lemma ScheduleJob_rule:
  assumes wf: "wf w"
    and s: "Sched_storage s = S" "Sched_queue s = Q" "Sched_metrics s = M" "Sched_logger s = L"
  shows "wp (SchedulerService_ScheduleJob s c req) (\<lambda>r w'. \<exists>j J. r = Inr j \<and> wf w' \<and> heap w' j = J \<and>
    requested_job (rt w) (clock (rt w) (ticks w + 3)) (uuid_New (rt w) (uuids w)) req J \<and>
    view (storage w') (heap w') (Job_ID J) = Some (norm J) \<and> placed J w w') w"
  unfolding SchedulerService_ScheduleJob_def wp_bind s
proof (rule wp_mono [OF create_job_rule], elim conjE, rule save_rule, goal_cases)
  case (1 j w1 w2)
  let ?J = "heap w1 j"
  have w2: "heap w2 j = ?J" "j < next_ref w2" "queue w2 = queue w" "rt w2 = rt w"
    and stored: "view (storage w2) (heap w2) (Job_ID ?J) = Some (norm ?J)"
    using 1 by (auto simp: storage_frame_def same_run_def)
  have "wf w2"
    using qu.inv_heap [OF wf, of "heap w2" "next_ref w2"] 1
    by (simp add: storage_frame_def same_run_def)
  then have "wp (enqueueJob s c j) (\<lambda>r w'. r = None \<and> wf w' \<and> storage w' = storage w2 \<and>
      rt w' = rt w2 \<and> heap w' = heap w2 \<and> placed (heap w2 j) w2 w') w2"
    by (rule enqueueJob_rule [OF _ w2(2) s(2)])
  then show ?case
  proof (simp add: wp_simps s, elim wp_mono, elim conjE, goal_cases)
    case inner: (1 r3 w3)
    have "placed ?J w w3" using inner w2 by (simp add: placed_def)
    then show ?case using inner w2 1 stored
      by (auto simp: wp_simps s placed_def intro!: wp_rules)
  qed
qed

end

end
