(* ===== verification/Memory_Queue.thy ===== *)
theory Memory_Queue
  imports Contracts
begin

text \<open>
  \<^verbatim>\<open>internal/adapters/secondary/queue/memory.go\<close>: the in-memory queue. Each method holds the mutex from
  its first to its last statement, so a method is one atomic step. The priority queues hold
  identifiers; \<open>jobStorage\<close> maps them to the shared job objects.
\<close>

section \<open>State and operations\<close>

record MemoryQueue =
  queues :: "(Priority, uuid list) gomap"
  delayedJobs :: "(uuid, time) gomap"
  deadLetter :: "uuid list"
  jobStorage :: "(uuid, job_ref) gomap"

definition NewMemoryQueue :: MemoryQueue where
  "NewMemoryQueue = \<lparr>queues = [], delayedJobs = [], deadLetter = [], jobStorage = []\<rparr>"

definition modify_queue :: "('q \<Rightarrow> 'q) \<Rightarrow> ('st, 'q, unit) prog" where
  "modify_queue f = modify (\<lambda>w. w\<lparr>queue := f (queue w)\<rparr>)"

lemma wp_modify_queue [wp_simps]:
  "wp (modify_queue f) Q w \<longleftrightarrow> Q () (w\<lparr>queue := f (queue w)\<rparr>)"
  by (simp add: modify_queue_def wp_simps)

text \<open>\<^verbatim>\<open>m.queues[p] = append(m.queues[p], jid)\<close>\<close>

definition push_ready :: "Priority \<Rightarrow> uuid \<Rightarrow> MemoryQueue \<Rightarrow> MemoryQueue" where
  "push_ready p jid m = m\<lparr>queues := map_put (queues m) p (map_get_list (queues m) p @ [jid])\<rparr>"

definition MemoryQueue_Enqueue :: "ctx \<Rightarrow> job_ref \<Rightarrow> ('st, MemoryQueue, go_error option) prog" where
  "MemoryQueue_Enqueue c j = do {
     job \<leftarrow> read_job j;
     modify_queue (\<lambda>m. m\<lparr>jobStorage := map_put (jobStorage m) (Job_ID job) j\<rparr>);
     modify_queue (push_ready (Job_Priority job) (Job_ID job));
     printf ''[MEMORY_QUEUE] Job %s enqueued to %s queue''
       [FmtUuid (Job_ID job), FmtStr (Priority_String (Job_Priority job))];
     ret None }"

text \<open>The loop over the priorities: the job it returns, or nothing when it runs off the end.\<close>

fun dequeue_loop :: "Priority list \<Rightarrow> ('st, MemoryQueue, job_ref option) prog" where
  "dequeue_loop [] = ret None"
| "dequeue_loop (priority # ps) = do {
     q \<leftarrow> gets (\<lambda>w. map_get_list (queues (queue w)) priority);
     (case q of
        [] \<Rightarrow> dequeue_loop ps
      | jobID # rest \<Rightarrow> do {
          modify_queue (\<lambda>m. m\<lparr>queues := map_put (queues m) priority rest\<rparr>);
          job \<leftarrow> gets (\<lambda>w. map_get (jobStorage (queue w)) jobID);
          (case job of
             Some j \<Rightarrow> do {
               printf ''[MEMORY_QUEUE] Job %s dequeued from %s queue''
                 [FmtUuid jobID, FmtStr (Priority_String priority)];
               ret (Some j) }
           | None \<Rightarrow> dequeue_loop ps) }) }"

definition MemoryQueue_Dequeue ::
  "ctx \<Rightarrow> Priority list \<Rightarrow> ('st, MemoryQueue, go_error + job_ref option) prog" where
  "MemoryQueue_Dequeue c priorities = do {
     r \<leftarrow> dequeue_loop priorities;
     ret (case r of Some j \<Rightarrow> Inr (Some j) | None \<Rightarrow> Inl (GoErr ''no jobs available'')) }"

definition MemoryQueue_EnqueueDelayed ::
  "ctx \<Rightarrow> job_ref \<Rightarrow> time \<Rightarrow> ('st, MemoryQueue, go_error option) prog" where
  "MemoryQueue_EnqueueDelayed c j delayUntil = do {
     job \<leftarrow> read_job j;
     modify_queue (\<lambda>m. m\<lparr>jobStorage := map_put (jobStorage m) (Job_ID job) j\<rparr>);
     modify_queue (\<lambda>m. m\<lparr>delayedJobs := map_put (delayedJobs m) (Job_ID job) delayUntil\<rparr>);
     printf ''[MEMORY_QUEUE] Job %s scheduled for %v'' [FmtUuid (Job_ID job), FmtTime delayUntil];
     ret None }"

definition MemoryQueue_MoveToDeadLetter ::
  "ctx \<Rightarrow> job_ref \<Rightarrow> ('st, MemoryQueue, go_error option) prog" where
  "MemoryQueue_MoveToDeadLetter c j = do {
     job \<leftarrow> read_job j;
     modify_queue (\<lambda>m. m\<lparr>deadLetter := deadLetter m @ [Job_ID job]\<rparr>);
     printf ''[MEMORY_QUEUE] Job %s moved to dead letter queue'' [FmtUuid (Job_ID job)];
     ret None }"

definition MemoryQueue_GetQueueStats ::
  "ctx \<Rightarrow> ('st, MemoryQueue, QueueStats \<times> go_error option) prog" where
  "MemoryQueue_GetQueueStats c = do {
     m \<leftarrow> gets queue;
     ps \<leftarrow> range_map (queues m);
     ret (\<lparr>ActiveJobs = foldl (\<lambda>a p. map_put a p (of_nat (length (map_get_list (queues m) p)))) [] ps,
           DelayedJobs = of_nat (length (delayedJobs m)),
           DeadLetterJobs = of_nat (length (deadLetter m))\<rparr>, None) }"

definition is_due :: "time \<Rightarrow> (uuid, time) gomap \<Rightarrow> uuid \<Rightarrow> bool" where
  "is_due t delayed jid = (case map_get delayed jid of
      Some scheduledTime \<Rightarrow> time_Before scheduledTime t \<or> time_Equal scheduledTime t
    | None \<Rightarrow> False)"

fun promote_loop :: "uuid list \<Rightarrow> ('st, MemoryQueue, unit) prog" where
  "promote_loop [] = ret ()"
| "promote_loop (jobID # ids) = do {
     job \<leftarrow> gets (\<lambda>w. map_get (jobStorage (queue w)) jobID);
     (case job of
        None \<Rightarrow> ret ()
      | Some j \<Rightarrow> do {
          modify_queue (\<lambda>m. m\<lparr>delayedJobs := map_del (delayedJobs m) jobID\<rparr>);
          write_job j (\<lambda>J. J\<lparr>Job_Status := StatusPending\<rparr>);
          J \<leftarrow> read_job j;
          modify_queue (push_ready (Job_Priority J) jobID);
          printf ''[MEMORY_QUEUE] Delayed job %s moved to %s queue''
            [FmtUuid jobID, FmtStr (Priority_String (Job_Priority J))] });
     promote_loop ids }"

definition MemoryQueue_ProcessDelayedJobs :: "ctx \<Rightarrow> ('st, MemoryQueue, go_error option) prog" where
  "MemoryQueue_ProcessDelayedJobs c = do {
     t \<leftarrow> now;
     delayed \<leftarrow> gets (\<lambda>w. delayedJobs (queue w));
     ids \<leftarrow> range_map delayed;
     promote_loop (filter (is_due t delayed) ids);
     ret None }"

definition memory_queue :: "('st, MemoryQueue) QueuePort" where
  "memory_queue = \<lparr>Enqueue = MemoryQueue_Enqueue, Dequeue = MemoryQueue_Dequeue,
     EnqueueDelayed = MemoryQueue_EnqueueDelayed, MoveToDeadLetter = MemoryQueue_MoveToDeadLetter,
     GetQueueStats = MemoryQueue_GetQueueStats,
     ProcessDelayedJobs = MemoryQueue_ProcessDelayedJobs\<rparr>"

section \<open>Invariant\<close>

text \<open>
  Every identifier in a priority queue or among the delayed jobs has a job object, and the object
  recorded under an identifier is an allocated job with that identifier.
\<close>

definition mq_inv :: "MemoryQueue \<Rightarrow> (job_ref \<Rightarrow> Job) \<Rightarrow> job_ref \<Rightarrow> bool" where
  "mq_inv m h n \<longleftrightarrow>
     map_ok (queues m) \<and> map_ok (delayedJobs m) \<and> map_ok (jobStorage m) \<and>
     (\<forall>jid j. map_get (jobStorage m) jid = Some j \<longrightarrow> j < n \<and> Job_ID (h j) = jid) \<and>
     (\<forall>p. \<forall>jid \<in> set (map_get_list (queues m) p). map_get (jobStorage m) jid \<noteq> None) \<and>
     (\<forall>jid. map_get (delayedJobs m) jid \<noteq> None \<longrightarrow> map_get (jobStorage m) jid \<noteq> None)"

abbreviation mq_wf :: "('st, MemoryQueue) world \<Rightarrow> bool" where
  "mq_wf w \<equiv> mq_inv (queue w) (heap w) (next_ref w)"

lemma mq_inv_New: "mq_inv NewMemoryQueue h n"
  by (simp add: mq_inv_def NewMemoryQueue_def)

lemma mq_inv_heap:
  assumes "mq_inv m h n" and "\<And>j. j < n \<Longrightarrow> Job_ID (h' j) = Job_ID (h j)" and "n \<le> n'"
  shows "mq_inv m h' n'"
proof -
  have "j < n' \<and> Job_ID (h' j) = jid" if "map_get (jobStorage m) jid = Some j" for jid j
  proof -
    from assms(1) that have "j < n" "Job_ID (h j) = jid" by (simp_all add: mq_inv_def)
    then show ?thesis using assms(2,3) by simp
  qed
  then show ?thesis using assms(1) by (simp add: mq_inv_def)
qed

lemma mq_inv_store:
  "mq_inv m h n \<Longrightarrow> j < n \<Longrightarrow>
   mq_inv (m\<lparr>jobStorage := map_put (jobStorage m) (Job_ID (h j)) j\<rparr>) h n"
  by (auto simp: mq_inv_def)

lemma mq_inv_push:
  "mq_inv m h n \<Longrightarrow> map_get (jobStorage m) jid \<noteq> None \<Longrightarrow> mq_inv (push_ready p jid m) h n"
  by (auto simp: mq_inv_def push_ready_def)

lemma mq_inv_delay:
  "mq_inv m h n \<Longrightarrow> map_get (jobStorage m) jid \<noteq> None \<Longrightarrow>
   mq_inv (m\<lparr>delayedJobs := map_put (delayedJobs m) jid t\<rparr>) h n"
  by (auto simp: mq_inv_def)

lemma mq_inv_undelay:
  "mq_inv m h n \<Longrightarrow> mq_inv (m\<lparr>delayedJobs := map_del (delayedJobs m) jid\<rparr>) h n"
  by (auto simp: mq_inv_def)

lemma mq_inv_pop:
  assumes "mq_inv m h n" and "map_get_list (queues m) p = jid # rest"
  shows "mq_inv (m\<lparr>queues := map_put (queues m) p rest\<rparr>) h n"
  using assms unfolding mq_inv_def by (auto split: if_splits) (metis list.set_intros(2))+

lemma mq_inv_dead: "mq_inv (m\<lparr>deadLetter := ds\<rparr>) h n \<longleftrightarrow> mq_inv m h n"
  by (simp add: mq_inv_def)

lemmas mq_inv_rules = mq_inv_store mq_inv_push mq_inv_delay mq_inv_undelay mq_inv_pop

lemma mq_storedD: "mq_inv m h n \<Longrightarrow> map_get (jobStorage m) jid = Some j \<Longrightarrow> j < n \<and> Job_ID (h j) = jid"
  by (simp add: mq_inv_def)

lemma mq_ready_stored:
  "mq_inv m h n \<Longrightarrow> map_get_list (queues m) p = jid # rest \<Longrightarrow>
   \<exists>j. map_get (jobStorage m) jid = Some j \<and> j < n \<and> Job_ID (h j) = jid"
  unfolding mq_inv_def by (metis list.set_intros(1) not_None_eq)

lemma mq_delayed_stored:
  "mq_inv m h n \<Longrightarrow> map_get (delayedJobs m) jid = Some t \<Longrightarrow>
   \<exists>j. map_get (jobStorage m) jid = Some j \<and> j < n \<and> Job_ID (h j) = jid"
  unfolding mq_inv_def by (metis not_None_eq option.distinct(1))

lemma push_ready_fields [simp]:
  "delayedJobs (push_ready p jid m) = delayedJobs m"
  "deadLetter (push_ready p jid m) = deadLetter m"
  "jobStorage (push_ready p jid m) = jobStorage m"
  "map_get_list (queues (push_ready p jid m)) =
     (map_get_list (queues m))(p := map_get_list (queues m) p @ [jid])"
  by (auto simp: push_ready_def)

section \<open>Taking a job\<close>

text \<open>One step of the loop on a well-formed queue.\<close>

lemma dequeue_loop_empty [simp]:
  "map_get_list (queues (queue w)) p = [] \<Longrightarrow>
   run_state (dequeue_loop (p # ps)) w = run_state (dequeue_loop ps) w"
  by simp

lemma dequeue_loop_hit:
  assumes "mq_wf w" and "map_get_list (queues (queue w)) p = jid # rest"
    and "map_get (jobStorage (queue w)) jid = Some j"
  shows "run_state (dequeue_loop (p # ps)) w = (Some j,
    w\<lparr>queue := (queue w)\<lparr>queues := map_put (queues (queue w)) p rest\<rparr>,
      stdout := stdout w @ [(''[MEMORY_QUEUE] Job %s dequeued from %s queue'',
        [FmtUuid jid, FmtStr (Priority_String p)])]\<rparr>)"
  using assms by (simp add: modify_queue_def printf_def)

declare dequeue_loop.simps(2) [simp del]

lemma dequeue_loop_none:
  "(\<forall>p \<in> set ps. map_get_list (queues (queue w)) p = []) \<Longrightarrow> run_state (dequeue_loop ps) w = (None, w)"
  by (induction ps) simp_all

lemma dequeue_loop_skip:
  "(\<forall>p \<in> set pre. map_get_list (queues (queue w)) p = []) \<Longrightarrow>
   run_state (dequeue_loop (pre @ ps)) w = run_state (dequeue_loop ps) w"
  by (induction pre) simp_all

text \<open>Either every polled queue is empty, or there is a first one that is not.\<close>

lemma dequeue_cases:
  fixes w :: "('st, MemoryQueue) world"
  assumes "mq_wf w"
  obtains (none) "\<forall>p \<in> set ps. map_get_list (queues (queue w)) p = []"
      "run_state (dequeue_loop ps) w = (None, w)"
  | (some) pre p post jid rest j w' where "ps = pre @ p # post"
      "\<forall>p' \<in> set pre. map_get_list (queues (queue w)) p' = []"
      "map_get_list (queues (queue w)) p = jid # rest"
      "map_get (jobStorage (queue w)) jid = Some j" "j < next_ref w" "Job_ID (heap w j) = jid"
      "w' = w\<lparr>queue := (queue w)\<lparr>queues := map_put (queues (queue w)) p rest\<rparr>,
        stdout := stdout w @ [(''[MEMORY_QUEUE] Job %s dequeued from %s queue'',
          [FmtUuid jid, FmtStr (Priority_String p)])]\<rparr>"
      "run_state (dequeue_loop ps) w = (Some j, w')"
proof (cases "\<exists>p \<in> set ps. map_get_list (queues (queue w)) p \<noteq> []")
  case False
  then have "\<forall>p \<in> set ps. map_get_list (queues (queue w)) p = []" by simp
  then show ?thesis by (intro none dequeue_loop_none) auto
next
  case True
  then obtain pre p post where ps: "ps = pre @ p # post" "map_get_list (queues (queue w)) p \<noteq> []"
      "\<forall>p' \<in> set pre. map_get_list (queues (queue w)) p' = []"
    using split_list_first_prop [OF True] by auto
  then obtain jid rest where q: "map_get_list (queues (queue w)) p = jid # rest"
    by (cases "map_get_list (queues (queue w)) p") auto
  obtain j where "map_get (jobStorage (queue w)) jid = Some j" "j < next_ref w" "Job_ID (heap w j) = jid"
    using mq_ready_stored [OF assms q] by auto
  then show ?thesis
    using ps q dequeue_loop_skip [OF ps(3), of "p # post"] dequeue_loop_hit [OF assms q]
    by (intro some [of pre p post jid rest j]) auto
qed

section \<open>The contract\<close>

lemma mq_Enqueue_run [wp_simps]:
  "wp (MemoryQueue_Enqueue c j) Q w \<longleftrightarrow>
     Q None (w\<lparr>queue := push_ready (Job_Priority (heap w j)) (Job_ID (heap w j))
          ((queue w)\<lparr>jobStorage := map_put (jobStorage (queue w)) (Job_ID (heap w j)) j\<rparr>),
        stdout := stdout w @ [(''[MEMORY_QUEUE] Job %s enqueued to %s queue'',
          [FmtUuid (Job_ID (heap w j)), FmtStr (Priority_String (Job_Priority (heap w j)))])]\<rparr>)"
  by (simp add: MemoryQueue_Enqueue_def wp_simps)

lemma mq_EnqueueDelayed_run [wp_simps]:
  "wp (MemoryQueue_EnqueueDelayed c j t) Q w \<longleftrightarrow>
     Q None (w\<lparr>queue := (queue w)
          \<lparr>jobStorage := map_put (jobStorage (queue w)) (Job_ID (heap w j)) j,
           delayedJobs := map_put (delayedJobs (queue w)) (Job_ID (heap w j)) t\<rparr>,
        stdout := stdout w @ [(''[MEMORY_QUEUE] Job %s scheduled for %v'',
          [FmtUuid (Job_ID (heap w j)), FmtTime t])]\<rparr>)"
  by (simp add: MemoryQueue_EnqueueDelayed_def wp_simps)

lemma mq_MoveToDeadLetter_run [wp_simps]:
  "wp (MemoryQueue_MoveToDeadLetter c j) Q w \<longleftrightarrow>
     Q None (w\<lparr>queue := (queue w)\<lparr>deadLetter := deadLetter (queue w) @ [Job_ID (heap w j)]\<rparr>,
        stdout := stdout w @ [(''[MEMORY_QUEUE] Job %s moved to dead letter queue'',
          [FmtUuid (Job_ID (heap w j))])]\<rparr>)"
  by (simp add: MemoryQueue_MoveToDeadLetter_def wp_simps)

lemma mq_Dequeue_run:
  "wp (MemoryQueue_Dequeue c ps) Q w \<longleftrightarrow>
     (case run_state (dequeue_loop ps) w of
        (Some j, w') \<Rightarrow> Q (Inr (Some j)) w'
      | (None, w') \<Rightarrow> Q (Inl (GoErr ''no jobs available'')) w')"
  by (simp add: MemoryQueue_Dequeue_def wp_def split: prod.split option.split)

lemma memory_queue_sel [simp]:
  "Enqueue memory_queue = MemoryQueue_Enqueue"
  "Dequeue memory_queue = MemoryQueue_Dequeue"
  "EnqueueDelayed memory_queue = MemoryQueue_EnqueueDelayed"
  "MoveToDeadLetter memory_queue = MemoryQueue_MoveToDeadLetter"
  "GetQueueStats memory_queue = MemoryQueue_GetQueueStats"
  "ProcessDelayedJobs memory_queue = MemoryQueue_ProcessDelayedJobs"
  by (simp_all add: memory_queue_def)

lemmas frame_defs = same_run_def queue_frame_def storage_frame_def

lemma mq_dequeue_contract:
  fixes w :: "('st, MemoryQueue) world"
  assumes "mq_wf w"
  shows "wp (MemoryQueue_Dequeue c ps) (\<lambda>r w'. queue_frame w w' \<and> mq_wf w' \<and>
    map_get (delayedJobs (queue w')) = map_get (delayedJobs (queue w)) \<and>
    deadLetter (queue w') = deadLetter (queue w) \<and>
    (case r of Inr (Some j) \<Rightarrow> j < next_ref w' \<and>
       (\<exists>pre p post. ps = pre @ p # post \<and>
         (\<forall>p' \<in> set pre. map_get_list (queues (queue w)) p' = []) \<and>
         map_get_list (queues (queue w)) p = Job_ID (heap w' j) # map_get_list (queues (queue w')) p \<and>
         (\<forall>l. l \<noteq> p \<longrightarrow> map_get_list (queues (queue w')) l = map_get_list (queues (queue w)) l))
     | _ \<Rightarrow> map_get_list (queues (queue w')) = map_get_list (queues (queue w)))) w"
  using assms
proof (cases rule: dequeue_cases [of w ps])
  case none
  then show ?thesis using assms by (simp add: mq_Dequeue_run frame_defs)
next
  case (some pre p post jid rest j w')
  have "mq_wf w'" using mq_inv_pop [OF assms some(3)] some(7) by simp
  moreover have "\<exists>pre p post. ps = pre @ p # post \<and>
      (\<forall>p' \<in> set pre. map_get_list (queues (queue w)) p' = []) \<and>
      map_get_list (queues (queue w)) p = Job_ID (heap w' j) # map_get_list (queues (queue w')) p \<and>
      (\<forall>l. l \<noteq> p \<longrightarrow> map_get_list (queues (queue w')) l = map_get_list (queues (queue w)) l)"
    using some by (intro exI [of _ pre] exI [of _ p] exI [of _ post]) auto
  ultimately show ?thesis using some
    by (simp add: mq_Dequeue_run frame_defs)
qed

interpretation mq: reliable_queue memory_queue "\<lambda>p. p" "\<lambda>t. t" "\<lambda>m. map_get_list (queues m)"
  "\<lambda>m. map_get (delayedJobs m)" deadLetter mq_inv
proof
  fix w :: "('st, MemoryQueue) world" and c :: ctx and j :: job_ref and t :: time
  fix ps :: "Priority list" and p :: Priority
  show "mq_inv m h' n'"
    if "mq_inv m h n" "\<And>j. j < n \<Longrightarrow> Job_ID (h' j) = Job_ID (h j)" "n \<le> n'"
    for m h h' n n' using that by (rule mq_inv_heap)
  assume wf: "mq_wf w"
  show "wp (Dequeue memory_queue c ps) (\<lambda>r w'. queue_frame w w' \<and> mq_wf w' \<and>
      map_get (delayedJobs (queue w')) = map_get (delayedJobs (queue w)) \<and>
      deadLetter (queue w') = deadLetter (queue w) \<and>
      (case r of Inr (Some j) \<Rightarrow> j < next_ref w' \<and>
         (\<exists>pre p post. ps = pre @ p # post \<and>
           (\<forall>p' \<in> set pre. map_get_list (queues (queue w)) p' = []) \<and>
           map_get_list (queues (queue w)) p = Job_ID (heap w' j) # map_get_list (queues (queue w')) p \<and>
           (\<forall>l. l \<noteq> p \<longrightarrow> map_get_list (queues (queue w')) l = map_get_list (queues (queue w)) l))
       | _ \<Rightarrow> map_get_list (queues (queue w')) = map_get_list (queues (queue w)))) w"
    using mq_dequeue_contract [OF wf] by simp
  show "wp (Dequeue memory_queue c ps) (\<lambda>r w'. \<exists>j. r = Inr (Some j)) w"
    if "p \<in> set ps" "map_get_list (queues (queue w)) p \<noteq> []"
    using wf by (cases rule: dequeue_cases [of w ps]) (use that in \<open>auto simp: mq_Dequeue_run\<close>)
  assume j: "j < next_ref w"
  let ?jid = "Job_ID (heap w j)" and ?m = "queue w"
  have inv1: "mq_inv (?m\<lparr>jobStorage := map_put (jobStorage ?m) ?jid j\<rparr>) (heap w) (next_ref w)"
    using wf j by (rule mq_inv_store)
  have inv2: "mq_inv (push_ready (Job_Priority (heap w j)) ?jid
      (?m\<lparr>jobStorage := map_put (jobStorage ?m) ?jid j\<rparr>)) (heap w) (next_ref w)"
    using inv1 by (rule mq_inv_push) simp
  have inv3: "mq_inv (?m\<lparr>jobStorage := map_put (jobStorage ?m) ?jid j,
      delayedJobs := map_put (delayedJobs ?m) ?jid t\<rparr>) (heap w) (next_ref w)"
    using mq_inv_delay [OF inv1, of ?jid t] by simp
  show "wp (Enqueue memory_queue c j) (\<lambda>r w'. queue_frame w w' \<and> heap w' = heap w \<and> mq_wf w' \<and>
      map_get (delayedJobs (queue w')) = map_get (delayedJobs (queue w)) \<and>
      deadLetter (queue w') = deadLetter (queue w) \<and>
      map_get_list (queues (queue w')) = (if r = None
        then (let l = Job_Priority (heap w j)
              in (map_get_list (queues (queue w)))(l := map_get_list (queues (queue w)) l @ [?jid]))
        else map_get_list (queues (queue w)))) w"
    using inv2 by (simp add: wp_simps frame_defs Let_def)
  show "wp (EnqueueDelayed memory_queue c j t) (\<lambda>r w'. queue_frame w w' \<and> heap w' = heap w \<and> mq_wf w' \<and>
      map_get_list (queues (queue w')) = map_get_list (queues (queue w)) \<and>
      deadLetter (queue w') = deadLetter (queue w) \<and>
      map_get (delayedJobs (queue w')) = (if r = None
        then (map_get (delayedJobs (queue w)))(?jid \<mapsto> t) else map_get (delayedJobs (queue w)))) w"
    using inv3 by (auto simp: wp_simps frame_defs)
  show "wp (MoveToDeadLetter memory_queue c j) (\<lambda>r w'. queue_frame w w' \<and> heap w' = heap w \<and> mq_wf w' \<and>
      map_get_list (queues (queue w')) = map_get_list (queues (queue w)) \<and>
      map_get (delayedJobs (queue w')) = map_get (delayedJobs (queue w)) \<and>
      (r = None \<longrightarrow> mset (deadLetter (queue w')) = mset (deadLetter (queue w)) + {#?jid#}) \<and>
      (r \<noteq> None \<longrightarrow> deadLetter (queue w') = deadLetter (queue w))) w"
    using wf by (simp add: wp_simps frame_defs mq_inv_dead)
qed (simp_all add: wp_simps)

section \<open>Promoting delayed jobs\<close>

definition stored_priority :: "('st, MemoryQueue) world \<Rightarrow> uuid \<Rightarrow> Priority" where
  "stored_priority w jid = Job_Priority (heap w (the (map_get (jobStorage (queue w)) jid)))"

text \<open>
  The effect of promoting \<open>ids\<close>: each moves from the delayed jobs to the end of the queue of its
  priority, its job object becomes pending, and nothing else changes.
\<close>

definition promoted :: "uuid list \<Rightarrow> ('st, MemoryQueue) world \<Rightarrow> ('st, MemoryQueue) world \<Rightarrow> bool" where
  "promoted ids w w' \<longleftrightarrow>
     rt w' = rt w \<and> uuids w' = uuids w \<and> next_ref w' = next_ref w \<and> storage w' = storage w \<and>
     exit_code w' = exit_code w \<and>
     jobStorage (queue w') = jobStorage (queue w) \<and> deadLetter (queue w') = deadLetter (queue w) \<and>
     (\<forall>p. map_get_list (queues (queue w')) p =
        map_get_list (queues (queue w)) p @ filter (\<lambda>jid. stored_priority w jid = p) ids) \<and>
     (\<forall>jid. map_get (delayedJobs (queue w')) jid =
        (if jid \<in> set ids then None else map_get (delayedJobs (queue w)) jid)) \<and>
     (\<forall>j. heap w' j = (if \<exists>jid \<in> set ids. map_get (jobStorage (queue w)) jid = Some j
        then (heap w j)\<lparr>Job_Status := StatusPending\<rparr> else heap w j))"

lemma promoted_refl: "promoted [] w w"
  by (simp add: promoted_def)

lemma promoted_ready:
  "promoted ids w w' \<Longrightarrow> map_get_list (queues (queue w')) p =
     map_get_list (queues (queue w)) p @ filter (\<lambda>jid. stored_priority w jid = p) ids"
  by (simp add: promoted_def)

lemma promoted_delayed:
  "promoted ids w w' \<Longrightarrow> map_get (delayedJobs (queue w')) jid =
     (if jid \<in> set ids then None else map_get (delayedJobs (queue w)) jid)"
  by (simp add: promoted_def)

lemma promoted_counters: "promoted ids (w\<lparr>ticks := a, ranges := b\<rparr>) w' \<longleftrightarrow> promoted ids w w'"
  by (simp add: promoted_def stored_priority_def)

lemma promoted_trans:
  assumes "promoted ids w w'" and "promoted ids' w' w''"
  shows "promoted (ids @ ids') w w''"
proof -
  have "stored_priority w' jid = stored_priority w jid" for jid
    using assms(1) by (simp add: promoted_def stored_priority_def)
  then show ?thesis using assms by (auto simp: promoted_def)
qed

text \<open>One round of the loop, for an identifier whose job object is \<open>j\<close>.\<close>

definition promote1 :: "uuid \<Rightarrow> job_ref \<Rightarrow> ('st, MemoryQueue) world \<Rightarrow> ('st, MemoryQueue) world" where
  "promote1 jid j w = w\<lparr>
     heap := (heap w)(j := (heap w j)\<lparr>Job_Status := StatusPending\<rparr>),
     queue := push_ready (Job_Priority (heap w j)) jid
       ((queue w)\<lparr>delayedJobs := map_del (delayedJobs (queue w)) jid\<rparr>),
     stdout := stdout w @ [(''[MEMORY_QUEUE] Delayed job %s moved to %s queue'',
       [FmtUuid jid, FmtStr (Priority_String (Job_Priority (heap w j)))])]\<rparr>"

lemma promote_loop_step:
  assumes "map_get (jobStorage (queue w)) jid = Some j"
  shows "wp (promote_loop (jid # ids)) Q w \<longleftrightarrow> wp (promote_loop ids) Q (promote1 jid j w)"
  using assms by (simp add: wp_simps promote1_def)

lemma promote1_promoted:
  "map_get (jobStorage (queue w)) jid = Some j \<Longrightarrow> promoted [jid] w (promote1 jid j w)"
  by (auto simp: promoted_def promote1_def stored_priority_def)

lemma promote1_wf:
  assumes "mq_wf w" and "map_get (jobStorage (queue w)) jid = Some j"
  shows "mq_wf (promote1 jid j w)"
proof -
  have "mq_inv ((queue w)\<lparr>delayedJobs := map_del (delayedJobs (queue w)) jid\<rparr>)
      ((heap w)(j := (heap w j)\<lparr>Job_Status := StatusPending\<rparr>)) (next_ref w)"
    by (intro mq_inv_undelay) (rule mq_inv_heap [OF assms(1)], auto)
  then show ?thesis using assms(2) by (simp add: promote1_def mq_inv_push)
qed

declare promote_loop.simps(2) [simp del]

lemma promote_loop_promoted:
  assumes "mq_wf w" and "\<forall>jid \<in> set ids. map_get (jobStorage (queue w)) jid \<noteq> None"
  shows "wp (promote_loop ids) (\<lambda>_ w'. promoted ids w w' \<and> mq_wf w') w"
  using assms
proof (induction ids arbitrary: w)
  case Nil
  then show ?case by (simp add: wp_simps promoted_refl)
next
  case (Cons jid ids)
  then obtain j where j: "map_get (jobStorage (queue w)) jid = Some j" by auto
  let ?w1 = "promote1 jid j w"
  have p1: "promoted [jid] w ?w1" using j by (rule promote1_promoted)
  have "\<forall>jid \<in> set ids. map_get (jobStorage (queue ?w1)) jid \<noteq> None"
    using Cons.prems(2) p1 by (simp add: promoted_def)
  with promote1_wf [OF Cons.prems(1) j]
  have "wp (promote_loop ids) (\<lambda>_ w'. promoted ids ?w1 w' \<and> mq_wf w') ?w1"
    by (rule Cons.IH)
  then have "wp (promote_loop ids) (\<lambda>_ w'. promoted (jid # ids) w w' \<and> mq_wf w') ?w1"
    by (rule wp_mono) (use promoted_trans [OF p1] in auto)
  then show ?case by (simp add: promote_loop_step [OF j])
qed

lemma is_due_iff: "is_due t m jid \<longleftrightarrow> (\<exists>s. map_get m jid = Some s \<and> s \<le> t)"
  by (auto simp: is_due_def time_Before_def time_Equal_def split: option.splits)

lemma ProcessDelayedJobs_promoted:
  fixes w :: "('st, MemoryQueue) world"
  assumes "mq_wf w" and "fair_range (rt w)"
  shows "wp (MemoryQueue_ProcessDelayedJobs c) (\<lambda>r w'. r = None \<and> mq_wf w' \<and>
    (\<exists>ids. distinct ids \<and> promoted ids w w' \<and>
       set ids = {jid. \<exists>s. map_get (delayedJobs (queue w)) jid = Some s \<and> s \<le> clock (rt w) (ticks w)})) w"
proof -
  let ?d = "delayedJobs (queue w)" and ?t = "clock (rt w) (ticks w)"
  define ks where "ks = map (\<lambda>i. map_keys ?d ! i) (range_order (rt w) (ranges w) (length ?d))"
  let ?ids = "filter (is_due ?t ?d) ks"
  let ?w1 = "w\<lparr>ticks := Suc (ticks w), ranges := Suc (ranges w)\<rparr>"
  have ks: "mset ks = mset (map_keys ?d)" unfolding ks_def using assms(2) by (rule range_map_mset)
  have "distinct (map_keys ?d)"
    using assms(1) by (intro gm.keys_distinct) (simp add: mq_inv_def)
  with ks have "distinct ks" "set ks = set (map_keys ?d)"
    by (metis mset_eq_imp_distinct_iff, metis mset_eq_setD)
  then have ids: "distinct ?ids" "set ?ids = {jid. \<exists>s. map_get ?d jid = Some s \<and> s \<le> ?t}"
    by (auto simp: is_due_iff gm.keys_get)
  moreover have "\<forall>jid \<in> set ?ids. map_get (jobStorage (queue ?w1)) jid \<noteq> None"
    using assms(1) unfolding ids(2) by (auto simp: mq_inv_def)
  ultimately have "wp (promote_loop ?ids) (\<lambda>_ w'. promoted ?ids ?w1 w' \<and> mq_wf w') ?w1"
    using assms(1) by (intro promote_loop_promoted) simp_all
  then have "wp (promote_loop ?ids) (\<lambda>_ w'. mq_wf w' \<and>
      (\<exists>ids. distinct ids \<and> promoted ids w w' \<and> set ids = {jid. \<exists>s. map_get ?d jid = Some s \<and> s \<le> ?t})) ?w1"
  proof (rule wp_mono, elim conjE, intro conjI exI [of _ ?ids])
    fix w' assume "promoted ?ids ?w1 w'"
    then show "promoted ?ids w w'" by (simp only: promoted_counters)
  qed (use ids in auto)
  then show ?thesis by (simp add: MemoryQueue_ProcessDelayedJobs_def wp_simps ks_def)
qed

section \<open>Properties of the in-memory queue\<close>

text \<open>A small world to evaluate examples in.\<close>

definition demo_heap :: "job_ref \<Rightarrow> Job" where
  "demo_heap j = (if j = 0 then example_job\<lparr>Job_ID := 10, Job_Priority := 1\<rparr>
     else if j = 1 then example_job\<lparr>Job_ID := 11, Job_Priority := 4\<rparr>
     else if j = 2 then example_job\<lparr>Job_ID := 12, Job_Priority := 1\<rparr>
     else example_job\<lparr>Job_ID := 13, Job_Priority := 2\<rparr>)"

definition demo_queue :: MemoryQueue where
  "demo_queue = \<lparr>queues = [(1, [10, 12]), (4, [11])], delayedJobs = [(13, 0)], deadLetter = [],
     jobStorage = [(10, 0), (11, 1), (12, 2), (13, 3)]\<rparr>"

definition demo_world :: "(unit, MemoryQueue) world" where
  "demo_world = \<lparr>rt = demo_runtime, ticks = 0, uuids = 0, ranges = 0, heap = demo_heap,
     next_ref = 4, storage = (), queue = demo_queue, stdout = [], exit_code = None\<rparr>"

lemma demo_wf: "mq_wf demo_world"
  unfolding mq_inv_def
proof (intro conjI allI impI ballI)
  show "map_ok (queues (queue demo_world))" "map_ok (delayedJobs (queue demo_world))"
    "map_ok (jobStorage (queue demo_world))"
    by (simp_all add: map_ok_def map_keys_def demo_world_def demo_queue_def)
next
  fix jid j assume "map_get (jobStorage (queue demo_world)) jid = Some j"
  then show "j < next_ref demo_world" "Job_ID (heap demo_world j) = jid"
    by (auto simp: map_get_def demo_world_def demo_queue_def demo_heap_def split: if_splits)
next
  fix p jid assume "jid \<in> set (map_get_list (queues (queue demo_world)) p)"
  then show "map_get (jobStorage (queue demo_world)) jid \<noteq> None"
    by (auto simp: map_get_list_def map_get_def demo_world_def demo_queue_def split: if_splits)
next
  fix jid assume "map_get (delayedJobs (queue demo_world)) jid \<noteq> None"
  then show "map_get (jobStorage (queue demo_world)) jid \<noteq> None"
    by (auto simp: map_get_def demo_world_def demo_queue_def split: if_splits)
qed

text \<open>
  C7: priority order and first-in-first-out in one statement: a worker that polls the in-memory
  queue as often as there are jobs in the polled queues receives exactly those jobs, each once,
  the queues in the order of its polling list and every queue in order of arrival.
\<close>

theorem MemoryQueue_drain_order:
  fixes w :: "('st, MemoryQueue) world"
  assumes "mq_wf w" and "distinct ps"
  shows "fst (run_state (drain memory_queue c ps
      (length (concat (map (map_get_list (queues (queue w))) ps)))) w)
    = concat (map (map_get_list (queues (queue w))) ps)"
proof -
  let ?n = "length (concat (map (map_get_list (queues (queue w))) ps))"
  have "wp (drain memory_queue c ps ?n) (\<lambda>r w'. r = mq.backlog (queue w) ps) w"
    using mq.drain_take [OF assms(1), of ps c ?n] assms(2) by (simp add: mq.backlog_def)
  then show ?thesis by (simp add: wp_def mq.backlog_def split: prod.splits)
qed

theorem MemoryQueue_drain_order_witness:
  "fst (run_state (drain memory_queue \<lparr>deadline = None\<rparr> named_priorities 3) demo_world) = [11, 10, 12]"
  using MemoryQueue_drain_order [OF demo_wf distinct_named_priorities, of "\<lparr>deadline = None\<rparr>"]
  by (simp add: named_priorities_def priority_consts demo_world_def demo_queue_def map_get_list_def
      map_get_def numeral_3_eq_3)

text \<open>
  What one call of \<open>Dequeue\<close> does on every branch. When all polled queues are empty it fails
  with \<open>no jobs available\<close> and changes nothing; otherwise it returns the job object of the oldest
  entry of the first polled queue that is not empty, removes that entry, and leaves all other
  queues, the delayed jobs and the dead letters alone.
\<close>

theorem MemoryQueue_Dequeue_spec:
  fixes w :: "('st, MemoryQueue) world"
  assumes "mq_wf w" and "run_state (MemoryQueue_Dequeue c ps) w = (r, w')"
  shows "if \<forall>p \<in> set ps. map_get_list (queues (queue w)) p = []
    then r = Inl (GoErr ''no jobs available'') \<and> w' = w
    else \<exists>pre p post jid rest j. ps = pre @ p # post \<and>
      (\<forall>p' \<in> set pre. map_get_list (queues (queue w)) p' = []) \<and>
      map_get_list (queues (queue w)) p = jid # rest \<and>
      r = Inr (Some j) \<and> map_get (jobStorage (queue w)) jid = Some j \<and> Job_ID (heap w j) = jid \<and>
      queue w' = (queue w)\<lparr>queues := map_put (queues (queue w)) p rest\<rparr> \<and> heap w' = heap w"
  using assms(1)
proof (cases rule: dequeue_cases [of w ps])
  case none
  then show ?thesis using assms(2) by (simp add: MemoryQueue_Dequeue_def)
next
  case (some pre p post jid rest j w1)
  then have "r = Inr (Some j)" "w' = w1" using assms(2) by (simp_all add: MemoryQueue_Dequeue_def)
  moreover have "\<not> (\<forall>p \<in> set ps. map_get_list (queues (queue w)) p = [])" using some by auto
  ultimately show ?thesis using some by auto
qed

theorem MemoryQueue_Dequeue_spec_witness:
  "\<exists>pre p post jid rest j. [4] = pre @ p # post \<and>
     map_get_list (queues demo_queue) p = jid # rest \<and>
     fst (run_state (MemoryQueue_Dequeue \<lparr>deadline = None\<rparr> [4]) demo_world) = Inr (Some j)"
proof -
  have ne: "\<not> (\<forall>p \<in> set [4]. map_get_list (queues (queue demo_world)) p = [])"
    by (simp add: demo_world_def demo_queue_def map_get_list_def map_get_def)
  let ?run = "run_state (MemoryQueue_Dequeue \<lparr>deadline = None\<rparr> [4]) demo_world"
  have "?run = (fst ?run, snd ?run)" by simp
  from MemoryQueue_Dequeue_spec [OF demo_wf this] ne show ?thesis
    by (simp add: demo_world_def) blast
qed

text \<open>
  C14: promotion is exact: \<open>ProcessDelayedJobs\<close> moves precisely the delayed jobs whose time has come
  at the clock reading of the call, each once and to the end of the queue of its own priority,
  and marks them pending; jobs that are not due, and everything else, stay as they are. This
  holds for every order in which the runtime iterates over the delayed jobs.
\<close>

theorem MemoryQueue_ProcessDelayedJobs_exact:
  fixes w :: "('st, MemoryQueue) world"
  assumes "mq_wf w" and "fair_range (rt w)"
    and "run_state (MemoryQueue_ProcessDelayedJobs c) w = (r, w')"
  shows "r = None \<and> mq_wf w' \<and> (\<exists>ids. distinct ids \<and> promoted ids w w' \<and>
    set ids = {jid. \<exists>s. map_get (delayedJobs (queue w)) jid = Some s \<and> s \<le> clock (rt w) (ticks w)})"
  using wpD [OF ProcessDelayedJobs_promoted [OF assms(1,2)] assms(3)] .

theorem MemoryQueue_ProcessDelayedJobs_exact_witness:
  "let w' = snd (run_state (MemoryQueue_ProcessDelayedJobs \<lparr>deadline = None\<rparr>) demo_world)
   in map_get (delayedJobs (queue w')) 13 = None \<and> map_get_list (queues (queue w')) 2 = [13]"
proof -
  let ?w' = "snd (run_state (MemoryQueue_ProcessDelayedJobs \<lparr>deadline = None\<rparr>) demo_world)"
  have fair: "fair_range (rt demo_world)"
    using demo_runtime_laws by (simp add: demo_world_def)
  have due: "{jid. \<exists>s. map_get (delayedJobs (queue demo_world)) jid = Some s \<and>
      s \<le> clock (rt demo_world) (ticks demo_world)} = {13}"
    by (auto simp: demo_world_def demo_queue_def demo_runtime_def map_get_def split: if_splits)
  let ?run = "run_state (MemoryQueue_ProcessDelayedJobs \<lparr>deadline = None\<rparr>) demo_world"
  have "?run = (fst ?run, ?w')" by simp
  from MemoryQueue_ProcessDelayedJobs_exact [OF demo_wf fair this, unfolded due]
  obtain ids where ids: "distinct ids" "promoted ids demo_world ?w'" "set ids = {13}" by blast
  have "ids = [13]" using ids(1,3) by (rule distinct_set_single)
  then show ?thesis
    using promoted_delayed [OF ids(2), of 13] promoted_ready [OF ids(2), of 2]
    by (simp add: demo_world_def demo_queue_def stored_priority_def map_get_def map_get_list_def
        demo_heap_def example_job_def)
qed

lemma drain_untouched:
  fixes w :: "('st, MemoryQueue) world"
  assumes "mq_wf w" and "p \<notin> set ps"
  shows "wp (drain memory_queue c ps n) (\<lambda>r w'. mq_wf w' \<and>
    map_get_list (queues (queue w')) p = map_get_list (queues (queue w)) p) w"
  using assms(1)
proof (induction n arbitrary: w)
  case 0
  then show ?case by (simp add: wp_simps)
next
  case (Suc n)
  have "wp (MemoryQueue_Dequeue c ps) (\<lambda>r w'. mq_wf w' \<and>
      map_get_list (queues (queue w')) p = map_get_list (queues (queue w)) p) w"
    using mq_dequeue_contract [OF Suc.prems, of c ps]
    by (rule wp_mono) (use assms(2) in \<open>auto split: sum.splits option.splits\<close>)
  then show ?case unfolding drain.simps wp_bind memory_queue_sel
  proof (rule wp_mono, goal_cases)
    case (1 r w')
    then have IH: "wp (drain memory_queue c ps n) (\<lambda>r w''. mq_wf w'' \<and>
        map_get_list (queues (queue w'')) p = map_get_list (queues (queue w)) p) w'"
      using Suc.IH [of w'] by simp
    show ?case using 1 IH by (auto simp: wp_simps split: sum.split option.split)
  qed
qed

text \<open>
  C39: a job whose priority is not in the polling list is never handed out by the in-memory
  queue: however often a worker polls, what it is given are the first jobs of the four queues it polls, so never a job that
  waits in another queue only, and that queue stays as it is. The REST interface accepts any integer as priority
  and the workers poll the four named ones only.
\<close>

theorem MemoryQueue_unpolled_starves:
  fixes w :: "('st, MemoryQueue) world"
  assumes "mq_wf w" and "p \<notin> set named_priorities"
    and "run_state (drain memory_queue c named_priorities n) w = (given, w')"
  shows "given = take n (concat (map (map_get_list (queues (queue w))) named_priorities)) \<and>
    (\<forall>jid \<in> set (map_get_list (queues (queue w)) p).
       (\<forall>p' \<in> set named_priorities. jid \<notin> set (map_get_list (queues (queue w)) p')) \<longrightarrow> jid \<notin> set given) \<and>
    map_get_list (queues (queue w')) p = map_get_list (queues (queue w)) p"
proof -
  have "given = take n (concat (map (map_get_list (queues (queue w))) named_priorities))"
    using wpD [OF mq.drain_take [OF assms(1)] assms(3)] distinct_named_priorities by (simp add: mq.backlog_def)
  moreover from this have "\<exists>p' \<in> set named_priorities. jid \<in> set (map_get_list (queues (queue w)) p')" if "jid \<in> set given" for jid
    using that by (auto dest!: in_set_takeD)
  ultimately show ?thesis using wpD [OF drain_untouched [OF assms(1,2)] assms(3)] by blast
qed

definition starved_world :: "(unit, MemoryQueue) world" where
  "starved_world = snd (run_state (MemoryQueue_Enqueue \<lparr>deadline = None\<rparr> 0)
     (demo_world\<lparr>heap := (\<lambda>_. example_job\<lparr>Job_Priority := 99\<rparr>), queue := NewMemoryQueue\<rparr>))"

theorem MemoryQueue_unpolled_starves_witness:
  "case run_state (drain memory_queue \<lparr>deadline = None\<rparr> named_priorities 1000) starved_world of (given, w') \<Rightarrow>
     given = [] \<and> map_get_list (queues (queue w')) 99 = [7]"
proof -
  have state: "queue starved_world = \<lparr>queues = [(99, [7])], delayedJobs = [], deadLetter = [],
      jobStorage = [(7, 0)]\<rparr>" "heap starved_world = (\<lambda>_. example_job\<lparr>Job_Priority := 99\<rparr>)"
    "next_ref starved_world = 4"
    by (simp_all add: starved_world_def MemoryQueue_Enqueue_def read_job_def modify_queue_def
        push_ready_def printf_def demo_world_def NewMemoryQueue_def map_put_def example_job_def)
  have wf: "mq_wf starved_world"
    by (simp add: state mq_inv_def map_ok_def map_keys_def map_get_def map_get_list_def example_job_def
        split: if_splits option.splits)
  have unpolled: "(99 :: Priority) \<notin> set named_priorities"
    by (simp add: named_priorities_def priority_consts)
  let ?run = "run_state (drain memory_queue \<lparr>deadline = None\<rparr> named_priorities 1000) starved_world"
  have "?run = (fst ?run, snd ?run)" by simp
  from MemoryQueue_unpolled_starves [OF wf unpolled this] show ?thesis
    by (simp add: case_prod_beta state map_get_list_def map_get_def named_priorities_def priority_consts)
qed

text \<open>
  The statistics count what is there: for every priority that ever had a queue the number of
  jobs in it, and the numbers of delayed jobs and of dead letters, each as a 64-bit integer;
  asking for them changes neither the queue nor any job.
\<close>

theorem MemoryQueue_GetQueueStats_counts:
  fixes w :: "('st, MemoryQueue) world"
  assumes "fair_range (rt w)" and "run_state (MemoryQueue_GetQueueStats c) w = ((stats, err), w')"
  shows "err = None \<and> queue w' = queue w \<and> heap w' = heap w \<and>
    map_get (ActiveJobs stats) p = map_option (\<lambda>q. of_nat (length q)) (map_get (queues (queue w)) p) \<and>
    DelayedJobs stats = of_nat (length (delayedJobs (queue w))) \<and>
    DeadLetterJobs stats = of_nat (length (deadLetter (queue w)))"
proof -
  let ?m = "queues (queue w)"
  let ?ps = "map (\<lambda>i. map_keys ?m ! i) (range_order (rt w) (ranges w) (length ?m))"
  have "set ?ps = set (map_keys ?m)"
    using range_map_mset [OF assms(1), of ?m "ranges w"] by (metis mset_eq_setD)
  then have "p \<in> set ?ps \<longleftrightarrow> map_get ?m p \<noteq> None" by (simp add: gm.keys_get)
  moreover have "stats = \<lparr>ActiveJobs = foldl (\<lambda>a p. map_put a p (of_nat (length (map_get_list ?m p)))) [] ?ps,
      DelayedJobs = of_nat (length (delayedJobs (queue w))),
      DeadLetterJobs = of_nat (length (deadLetter (queue w)))\<rparr>"
    and "err = None" "w' = w\<lparr>ranges := Suc (ranges w)\<rparr>"
    using assms(2) by (auto simp: MemoryQueue_GetQueueStats_def range_map_def)
  ultimately show ?thesis
    by (auto simp del: set_map simp: map_get_foldl_put map_get_list_def split: option.split)
qed

theorem MemoryQueue_GetQueueStats_counts_witness:
  "map_get (ActiveJobs (fst (fst (run_state
     (MemoryQueue_GetQueueStats \<lparr>deadline = None\<rparr>) demo_world)))) 1 = Some 2"
proof -
  let ?run = "run_state (MemoryQueue_GetQueueStats \<lparr>deadline = None\<rparr>) demo_world"
  have "fair_range (rt demo_world)" using demo_runtime_laws by (simp add: demo_world_def)
  moreover have "?run = ((fst (fst ?run), snd (fst ?run)), snd ?run)" by simp
  ultimately have "map_get (ActiveJobs (fst (fst ?run))) 1
      = map_option (\<lambda>q. of_nat (length q)) (map_get (queues (queue demo_world)) 1)"
    by (blast dest: MemoryQueue_GetQueueStats_counts [where p = 1])
  then show ?thesis by (simp add: demo_world_def demo_queue_def map_get_def)
qed

text \<open>
  C18: the queue stays well formed: whatever operation is called, every identifier in a queue or among the
  delayed jobs has its job object, filed under its own identifier, and no key occurs twice in a map. So
  \<open>Dequeue\<close> never hands out a nil pointer: it returns an error or a job object that exists.
\<close>

theorem MemoryQueue_well_formed:
  fixes w :: "('st, MemoryQueue) world"
  assumes "mq_wf w" and "j < next_ref w" and "fair_range (rt w)"
  shows "wp (MemoryQueue_Enqueue c j) (\<lambda>_. mq_wf) w \<and> wp (MemoryQueue_EnqueueDelayed c j t) (\<lambda>_. mq_wf) w \<and>
    wp (MemoryQueue_MoveToDeadLetter c j) (\<lambda>_. mq_wf) w \<and>
    wp (MemoryQueue_Dequeue c ps) (\<lambda>r w'. mq_wf w' \<and> (\<forall>jo. r = Inr jo \<longrightarrow> (\<exists>i. jo = Some i \<and> i < next_ref w'))) w \<and>
    wp (MemoryQueue_ProcessDelayedJobs c) (\<lambda>_. mq_wf) w \<and> wp (MemoryQueue_GetQueueStats c) (\<lambda>_. mq_wf) w"
proof (intro conjI)
  show "wp (MemoryQueue_Enqueue c j) (\<lambda>_. mq_wf) w"
    using mq.enqueue [OF assms(1,2), of c] by (auto elim!: wp_mono)
  show "wp (MemoryQueue_EnqueueDelayed c j t) (\<lambda>_. mq_wf) w"
    using mq.enqueue_delayed [OF assms(1,2), of c t] by (auto elim!: wp_mono)
  show "wp (MemoryQueue_MoveToDeadLetter c j) (\<lambda>_. mq_wf) w"
    using mq.dead_letter [OF assms(1,2), of c] by (auto elim!: wp_mono)
  show "wp (MemoryQueue_ProcessDelayedJobs c) (\<lambda>_. mq_wf) w"
    using ProcessDelayedJobs_promoted [OF assms(1,3), of c] by (rule wp_mono) blast
  show "wp (MemoryQueue_GetQueueStats c) (\<lambda>_. mq_wf) w"
    using assms(1) by (simp add: MemoryQueue_GetQueueStats_def wp_simps range_map_def)
  show "wp (MemoryQueue_Dequeue c ps) (\<lambda>r w'. mq_wf w' \<and> (\<forall>jo. r = Inr jo \<longrightarrow> (\<exists>i. jo = Some i \<and> i < next_ref w'))) w"
    using assms(1)
  proof (cases rule: dequeue_cases [of w ps])
    case (some pre p post jid rest i w')
    have "mq_wf w'" using mq_inv_pop [OF assms(1) some(3)] some(7) by simp
    moreover have "i < next_ref w'" using mq_storedD [OF assms(1)] some by simp
    ultimately show ?thesis using some by (simp add: mq_Dequeue_run)
  qed (use assms(1) in \<open>simp add: mq_Dequeue_run\<close>)
qed

theorem MemoryQueue_well_formed_witness:
  "mq_wf (snd (run_state (MemoryQueue_Enqueue \<lparr>deadline = None\<rparr> 3) demo_world))"
proof -
  have "3 < next_ref demo_world" "fair_range (rt demo_world)"
    using demo_runtime_laws by (simp_all add: demo_world_def)
  from MemoryQueue_well_formed [OF demo_wf this, THEN conjunct1] show ?thesis
    by (rule wpD) (rule prod.collapse [symmetric])
qed

end
