(* ===== verification/Memory_Storage.thy ===== *)
theory Memory_Storage
  imports Contracts
begin

text \<open>
  \<^verbatim>\<open>internal/adapters/secondary/storage/memory.go\<close>: the in-memory storage. It keeps pointers to the job
  objects it is given, so later changes to an object are visible in the storage. History entries
  and workers are reached through the storage only and are kept by value.
\<close>

section \<open>State and operations\<close>

record MemoryStorage =
  jobs :: "(uuid, job_ref) gomap"
  history :: "(uuid, JobHistory list) gomap"
  workers :: "(string, Worker) gomap"

definition NewMemoryStorage :: MemoryStorage where
  "NewMemoryStorage = \<lparr>jobs = [], history = [], workers = []\<rparr>"

definition modify_storage :: "('st \<Rightarrow> 'st) \<Rightarrow> ('st, 'q, unit) prog" where
  "modify_storage f = modify (\<lambda>w. w\<lparr>storage := f (storage w)\<rparr>)"

lemma wp_modify_storage [wp_simps]:
  "wp (modify_storage f) Q w \<longleftrightarrow> Q () (w\<lparr>storage := f (storage w)\<rparr>)"
  by (simp add: modify_storage_def wp_simps)

definition MemoryStorage_SaveJob :: "ctx \<Rightarrow> job_ref \<Rightarrow> (MemoryStorage, 'q, go_error option) prog" where
  "MemoryStorage_SaveJob c j = do {
     job \<leftarrow> read_job j;
     modify_storage (\<lambda>m. m\<lparr>jobs := map_put (jobs m) (Job_ID job) j\<rparr>);
     printf ''[MEMORY_STORAGE] Job %s saved'' [FmtUuid (Job_ID job)];
     ret None }"

definition MemoryStorage_GetJob :: "ctx \<Rightarrow> uuid \<Rightarrow> (MemoryStorage, 'q, go_error + job_ref) prog" where
  "MemoryStorage_GetJob c jid = do {
     job \<leftarrow> gets (\<lambda>w. map_get (jobs (storage w)) jid);
     ret (case job of None \<Rightarrow> Inl (GoErr ''job not found'') | Some j \<Rightarrow> Inr j) }"

definition MemoryStorage_UpdateJob :: "ctx \<Rightarrow> job_ref \<Rightarrow> (MemoryStorage, 'q, go_error option) prog" where
  "MemoryStorage_UpdateJob c j = do {
     job \<leftarrow> read_job j;
     found \<leftarrow> gets (\<lambda>w. map_get (jobs (storage w)) (Job_ID job));
     (case found of
        None \<Rightarrow> ret (Some (GoErr ''job not found''))
      | Some _ \<Rightarrow> do {
          t \<leftarrow> now;
          write_job j (\<lambda>J. J\<lparr>Job_UpdatedAt := t\<rparr>);
          modify_storage (\<lambda>m. m\<lparr>jobs := map_put (jobs m) (Job_ID job) j\<rparr>);
          printf ''[MEMORY_STORAGE] Job %s updated (status: %s)''
            [FmtUuid (Job_ID job), FmtStr (Job_Status job)];
          ret None }) }"

definition job_matches :: "JobFilter \<Rightarrow> Job \<Rightarrow> bool" where
  "job_matches f J \<longleftrightarrow>
     \<not> (Filter_Status f \<noteq> None \<and> Some (Job_Status J) \<noteq> Filter_Status f) \<and>
     \<not> (Filter_JobType f \<noteq> None \<and> Some (Job_Type J) \<noteq> Filter_JobType f) \<and>
     \<not> (Filter_Priority f \<noteq> None \<and> Some (Job_Priority J) \<noteq> Filter_Priority f)"

text \<open>The loop of \<open>ListJobs\<close>, with its counters; they are bounded by the number of jobs.\<close>

fun list_loop :: "JobFilter \<Rightarrow> (job_ref \<Rightarrow> Job) \<Rightarrow> job_ref list \<Rightarrow> int \<Rightarrow> int \<Rightarrow> job_ref list" where
  "list_loop f h [] cnt skipped = []"
| "list_loop f h (j # js) cnt skipped =
     (if \<not> job_matches f (h j) then list_loop f h js cnt skipped
      else if skipped < sint (Filter_Offset f) then list_loop f h js cnt (skipped + 1)
      else if 0 < sint (Filter_Limit f) \<and> sint (Filter_Limit f) \<le> cnt then []
      else j # list_loop f h js (cnt + 1) skipped)"

definition MemoryStorage_ListJobs ::
  "ctx \<Rightarrow> JobFilter \<Rightarrow> (MemoryStorage, 'q, go_error + job_ref list) prog" where
  "MemoryStorage_ListJobs c f = do {
     m \<leftarrow> gets (\<lambda>w. jobs (storage w));
     ks \<leftarrow> range_map m;
     h \<leftarrow> gets heap;
     ret (Inr (list_loop f h (map (\<lambda>k. the (map_get m k)) ks) 0 0)) }"

definition MemoryStorage_SaveJobHistory ::
  "ctx \<Rightarrow> JobHistory \<Rightarrow> (MemoryStorage, 'q, go_error option) prog" where
  "MemoryStorage_SaveJobHistory c h = do {
     modify_storage (\<lambda>m. m\<lparr>history := map_put (history m) (Hist_JobID h)
       (map_get_list (history m) (Hist_JobID h) @ [h])\<rparr>);
     printf ''[MEMORY_STORAGE] Job history saved for job %s (attempt %d)''
       [FmtUuid (Hist_JobID h), FmtInt (sint (Hist_AttemptNumber h))];
     ret None }"

definition MemoryStorage_GetJobHistory ::
  "ctx \<Rightarrow> uuid \<Rightarrow> (MemoryStorage, 'q, go_error + JobHistory list) prog" where
  "MemoryStorage_GetJobHistory c jid = do {
     hs \<leftarrow> gets (\<lambda>w. map_get (history (storage w)) jid);
     ret (Inr (case hs of None \<Rightarrow> [] | Some xs \<Rightarrow> xs)) }"

definition MemoryStorage_RegisterWorker ::
  "ctx \<Rightarrow> Worker \<Rightarrow> (MemoryStorage, 'q, go_error option) prog" where
  "MemoryStorage_RegisterWorker c wk = do {
     modify_storage (\<lambda>m. m\<lparr>workers := map_put (workers m) (Worker_ID wk) wk\<rparr>);
     printf ''[MEMORY_STORAGE] Worker %s registered'' [FmtStr (Worker_ID wk)];
     ret None }"

definition MemoryStorage_UpdateWorkerHeartbeat ::
  "ctx \<Rightarrow> string \<Rightarrow> (MemoryStorage, 'q, go_error option) prog" where
  "MemoryStorage_UpdateWorkerHeartbeat c workerID = do {
     found \<leftarrow> gets (\<lambda>w. map_get (workers (storage w)) workerID);
     (case found of
        None \<Rightarrow> ret (Some (GoErr ''worker not found''))
      | Some wk \<Rightarrow> do {
          t \<leftarrow> now;
          modify_storage (\<lambda>m. m\<lparr>workers :=
            map_put (workers m) workerID (wk\<lparr>Worker_LastHeartbeat := t\<rparr>)\<rparr>);
          printf ''[MEMORY_STORAGE] Worker %s heartbeat updated'' [FmtStr workerID];
          ret None }) }"

definition MemoryStorage_GetActiveWorkers ::
  "ctx \<Rightarrow> (MemoryStorage, 'q, go_error + Worker list) prog" where
  "MemoryStorage_GetActiveWorkers c = do {
     m \<leftarrow> gets (\<lambda>w. workers (storage w));
     ks \<leftarrow> range_map m;
     ret (Inr (filter (\<lambda>wk. Worker_Status wk = ''active'') (map (\<lambda>k. the (map_get m k)) ks))) }"

definition is_stale :: "time \<Rightarrow> Worker \<Rightarrow> bool" where
  "is_stale cutoff wk \<longleftrightarrow>
     time_Before (Worker_LastHeartbeat wk) cutoff \<and> Worker_Status wk = ''active''"

fun deactivate_loop ::
  "time \<Rightarrow> string list \<Rightarrow> (string, Worker) gomap \<Rightarrow> int \<Rightarrow> (string, Worker) gomap \<times> int" where
  "deactivate_loop cutoff [] m deactivated = (m, deactivated)"
| "deactivate_loop cutoff (k # ks) m deactivated =
     (case map_get m k of
        Some wk \<Rightarrow>
          if is_stale cutoff wk
          then deactivate_loop cutoff ks (map_put m k (wk\<lparr>Worker_Status := ''inactive''\<rparr>)) (deactivated + 1)
          else deactivate_loop cutoff ks m deactivated
      | None \<Rightarrow> deactivate_loop cutoff ks m deactivated)"

definition MemoryStorage_DeactivateStaleWorkers ::
  "ctx \<Rightarrow> duration \<Rightarrow> (MemoryStorage, 'q, go_error option) prog" where
  "MemoryStorage_DeactivateStaleWorkers c timeout = do {
     t \<leftarrow> now;
     m \<leftarrow> gets (\<lambda>w. workers (storage w));
     ks \<leftarrow> range_map m;
     let cutoff = time_Add t (- timeout);
     let (m', deactivated) = deactivate_loop cutoff ks m 0;
     modify_storage (\<lambda>s. s\<lparr>workers := m'\<rparr>);
     (if 0 < deactivated
      then printf ''[MEMORY_STORAGE] Deactivated %d stale workers'' [FmtInt deactivated]
      else ret ());
     ret None }"

definition memory_storage :: "(MemoryStorage, 'q) StoragePort" where
  "memory_storage = \<lparr>SaveJob = MemoryStorage_SaveJob, GetJob = MemoryStorage_GetJob,
     UpdateJob = MemoryStorage_UpdateJob, ListJobs = MemoryStorage_ListJobs,
     SaveJobHistory = MemoryStorage_SaveJobHistory, GetJobHistory = MemoryStorage_GetJobHistory,
     RegisterWorker = MemoryStorage_RegisterWorker,
     UpdateWorkerHeartbeat = MemoryStorage_UpdateWorkerHeartbeat,
     GetActiveWorkers = MemoryStorage_GetActiveWorkers,
     DeactivateStaleWorkers = MemoryStorage_DeactivateStaleWorkers\<rparr>"

lemma memory_storage_sel [simp]:
  "SaveJob memory_storage = MemoryStorage_SaveJob"
  "GetJob memory_storage = MemoryStorage_GetJob"
  "UpdateJob memory_storage = MemoryStorage_UpdateJob"
  "ListJobs memory_storage = MemoryStorage_ListJobs"
  "SaveJobHistory memory_storage = MemoryStorage_SaveJobHistory"
  "GetJobHistory memory_storage = MemoryStorage_GetJobHistory"
  "RegisterWorker memory_storage = MemoryStorage_RegisterWorker"
  "UpdateWorkerHeartbeat memory_storage = MemoryStorage_UpdateWorkerHeartbeat"
  "GetActiveWorkers memory_storage = MemoryStorage_GetActiveWorkers"
  "DeactivateStaleWorkers memory_storage = MemoryStorage_DeactivateStaleWorkers"
  by (simp_all add: memory_storage_def)

section \<open>The contract\<close>

text \<open>The job that the storage shows under an identifier.\<close>

definition ms_view :: "MemoryStorage \<Rightarrow> (job_ref \<Rightarrow> Job) \<Rightarrow> uuid \<Rightarrow> Job option" where
  "ms_view m h jid = map_option h (map_get (jobs m) jid)"

definition ms_ok :: "MemoryStorage \<Rightarrow> bool" where
  "ms_ok m \<longleftrightarrow> map_ok (jobs m) \<and> map_ok (history m) \<and> map_ok (workers m)"

lemma ms_SaveJob_run [wp_simps]:
  "wp (MemoryStorage_SaveJob c j) Q w \<longleftrightarrow>
     Q None (w\<lparr>storage := (storage w)\<lparr>jobs := map_put (jobs (storage w)) (Job_ID (heap w j)) j\<rparr>,
       stdout := stdout w @ [(''[MEMORY_STORAGE] Job %s saved'', [FmtUuid (Job_ID (heap w j))])]\<rparr>)"
  by (simp add: MemoryStorage_SaveJob_def wp_simps)

lemma ms_UpdateJob_run [wp_simps]:
  "wp (MemoryStorage_UpdateJob c j) Q w \<longleftrightarrow>
     (if map_get (jobs (storage w)) (Job_ID (heap w j)) = None
      then Q (Some (GoErr ''job not found'')) w
      else Q None (w\<lparr>ticks := Suc (ticks w),
        heap := (heap w)(j := (heap w j)\<lparr>Job_UpdatedAt := clock (rt w) (ticks w)\<rparr>),
        storage := (storage w)\<lparr>jobs := map_put (jobs (storage w)) (Job_ID (heap w j)) j\<rparr>,
        stdout := stdout w @ [(''[MEMORY_STORAGE] Job %s updated (status: %s)'',
          [FmtUuid (Job_ID (heap w j)), FmtStr (Job_Status (heap w j))])]\<rparr>))"
  by (cases "map_get (jobs (storage w)) (Job_ID (heap w j))")
    (simp_all add: MemoryStorage_UpdateJob_def wp_simps)

lemma ms_SaveJobHistory_run [wp_simps]:
  "wp (MemoryStorage_SaveJobHistory c h) Q w \<longleftrightarrow>
     Q None (w\<lparr>storage := (storage w)\<lparr>history := map_put (history (storage w)) (Hist_JobID h)
         (map_get_list (history (storage w)) (Hist_JobID h) @ [h])\<rparr>,
       stdout := stdout w @ [(''[MEMORY_STORAGE] Job history saved for job %s (attempt %d)'',
         [FmtUuid (Hist_JobID h), FmtInt (sint (Hist_AttemptNumber h))])]\<rparr>)"
  by (simp add: MemoryStorage_SaveJobHistory_def wp_simps)

interpretation ms: reliable_storage memory_storage ms_view "\<lambda>J. J" "\<lambda>m. map_get_list (history m)"
proof
  fix w :: "(MemoryStorage, 'q) world" and c :: ctx and j :: job_ref and h :: JobHistory
  show "wp (SaveJob memory_storage c j) (\<lambda>r w'. storage_frame w w' \<and>
      map_get_list (history (storage w')) = map_get_list (history (storage w)) \<and>
      (r = None \<longrightarrow> ms_view (storage w') (heap w') =
         (ms_view (storage w) (heap w))(Job_ID (heap w j) \<mapsto> heap w j)) \<and>
      (r \<noteq> None \<longrightarrow> storage w' = storage w)) w"
    by (auto simp: wp_simps storage_frame_def same_run_def ms_view_def)
  show "wp (UpdateJob memory_storage c j) (\<lambda>r w'. same_run w w' \<and> queue w' = queue w \<and>
      map_get_list (history (storage w')) = map_get_list (history (storage w)) \<and>
      (\<exists>t. \<forall>i < next_ref w. heap w' i =
         (if i = j then (heap w j)\<lparr>Job_UpdatedAt := t\<rparr> else heap w i)) \<and>
      (r = None \<and> j < next_ref w \<longrightarrow>
         ms_view (storage w') (heap w') (Job_ID (heap w j)) = Some (heap w' j)) \<and>
      (r \<noteq> None \<longrightarrow> storage w' = storage w)) w"
    by (auto simp: wp_simps same_run_def ms_view_def intro: exI [of _ "Job_UpdatedAt (heap w j)"])
  show "wp (SaveJobHistory memory_storage c h) (\<lambda>r w'. storage_frame w w' \<and>
      ms_view (storage w') (heap w') = ms_view (storage w) (heap w) \<and>
      (r = None \<longrightarrow> (\<forall>jid. mset (map_get_list (history (storage w')) jid) =
         mset (map_get_list (history (storage w)) jid) + (if jid = Hist_JobID h then {#h#} else {#}))) \<and>
      (r \<noteq> None \<longrightarrow> storage w' = storage w)) w"
    by (simp add: wp_simps storage_frame_def same_run_def ms_view_def fun_eq_iff)
  show "wp (UpdateJob memory_storage c j) (\<lambda>r w'. r = None) w"
    if "ms_view (storage w) (heap w) (Job_ID (heap w j)) \<noteq> None"
    using that by (simp add: wp_simps ms_view_def)
qed (simp_all add: wp_simps ms_view_def)

section \<open>Listing\<close>

lemma list_loop_done:
  "0 < sint (Filter_Limit f) \<Longrightarrow> sint (Filter_Limit f) \<le> cnt \<Longrightarrow>
   sint (Filter_Offset f) \<le> skipped \<Longrightarrow> list_loop f h js cnt skipped = []"
  by (induction js) auto

lemma list_loop_page:
  assumes "0 \<le> skipped" and "0 < sint (Filter_Limit f) \<longrightarrow> cnt \<le> sint (Filter_Limit f)"
  shows "list_loop f h js cnt skipped =
    (let page = drop (nat (sint (Filter_Offset f) - skipped)) (filter (\<lambda>j. job_matches f (h j)) js)
     in if 0 < sint (Filter_Limit f) then take (nat (sint (Filter_Limit f) - cnt)) page else page)"
  using assms
proof (induction js arbitrary: cnt skipped)
  case Nil
  then show ?case by simp
next
  case (Cons j js)
  let ?l = "sint (Filter_Limit f)" and ?o = "sint (Filter_Offset f)"
  show ?case
  proof (cases "job_matches f (h j)")
    case False
    then show ?thesis using Cons by simp
  next
    case matches: True
    show ?thesis
    proof (cases "skipped < ?o")
      case True
      then have "nat (?o - skipped) = Suc (nat (?o - (skipped + 1)))" by simp
      then show ?thesis using True matches Cons.IH [of "skipped + 1" cnt] Cons.prems by simp
    next
      case False
      then have o: "nat (?o - skipped) = 0" by simp
      show ?thesis
      proof (cases "0 < ?l \<and> ?l \<le> cnt")
        case True
        then show ?thesis using False matches o by simp
      next
        case small: False
        then have next_count: "0 < ?l \<longrightarrow> cnt + 1 \<le> ?l" by auto
        then have "0 < ?l \<Longrightarrow> nat (?l - cnt) = Suc (nat (?l - (cnt + 1)))" by simp
        then show ?thesis
          using False small matches o Cons.IH [OF Cons.prems(1) next_count] by (simp add: Let_def)
      qed
    qed
  qed
qed

lemma range_values:
  assumes "map_ok m" and "mset ks = mset (map_keys m)"
  shows "mset (map (\<lambda>k. the (map_get m k)) ks) = mset (map snd m)"
proof -
  have "mset (map (\<lambda>k. the (map_get m k)) ks) = image_mset (\<lambda>k. the (map_get m k)) (mset (map_keys m))"
    using assms(2) by simp
  also have "\<dots> = mset (map (\<lambda>k. the (map_get m k)) (map fst m))"
    by (simp add: map_keys_def multiset.map_comp comp_def)
  also have "map (\<lambda>k. the (map_get m k)) (map fst m) = map snd m"
    using assms(1) by (auto simp: map_ok_def map_keys_def map_get_def)
  finally show ?thesis .
qed

lemma list_jobs_page:
  fixes w :: "(MemoryStorage, 'q) world"
  assumes "ms_ok (storage w)" and "fair_range (rt w)"
    and "run_state (MemoryStorage_ListJobs c f) w = (r, w')"
  shows "\<exists>js. mset js = mset (map snd (jobs (storage w))) \<and>
    r = Inr (let page = drop (nat (sint (Filter_Offset f))) (filter (\<lambda>j. job_matches f (heap w j)) js)
             in if 0 < sint (Filter_Limit f) then take (nat (sint (Filter_Limit f))) page else page) \<and>
    storage w' = storage w \<and> heap w' = heap w"
proof -
  let ?m = "jobs (storage w)"
  define ks where "ks = map (\<lambda>i. map_keys ?m ! i) (range_order (rt w) (ranges w) (length ?m))"
  define js where "js = map (\<lambda>k. the (map_get ?m k)) ks"
  have "mset js = mset (map snd ?m)"
    unfolding js_def ks_def using assms(1) range_map_mset [OF assms(2)]
    by (intro range_values) (simp_all add: ms_ok_def)
  moreover have "r = Inr (list_loop f (heap w) js 0 0)" "w' = w\<lparr>ranges := Suc (ranges w)\<rparr>"
    using assms(3) by (auto simp: MemoryStorage_ListJobs_def range_map_def js_def ks_def)
  ultimately show ?thesis
    using list_loop_page [of 0 f 0 "heap w" js] by (intro exI [of _ js]) (simp add: Let_def)
qed

text \<open>
  C16: listing is pagination over the matching jobs: whatever order the runtime visits the stored
  jobs in, the result is that order restricted to the jobs that match the filter, without the
  first \<open>Offset\<close> of them and, when \<open>Limit\<close> is positive, cut off after \<open>Limit\<close> jobs. A zero or
  negative limit means no limit, a negative offset no offset.
\<close>

theorem MemoryStorage_ListJobs_page:
  fixes w :: "(MemoryStorage, 'q) world"
  assumes "ms_ok (storage w)" and "fair_range (rt w)"
    and "run_state (MemoryStorage_ListJobs c f) w = (r, w')"
  shows "\<exists>js. mset js = mset (map snd (jobs (storage w))) \<and>
    r = Inr (let page = drop (nat (sint (Filter_Offset f))) (filter (\<lambda>j. job_matches f (heap w j)) js)
             in if 0 < sint (Filter_Limit f) then take (nat (sint (Filter_Limit f))) page else page) \<and>
    storage w' = storage w \<and> heap w' = heap w"
  by (rule list_jobs_page [OF assms])

definition demo_store :: MemoryStorage where
  "demo_store = \<lparr>jobs = [(10, 0), (11, 1), (12, 2)], history = [],
     workers = [(''w1'', \<lparr>Worker_ID = ''w1'', Worker_Hostname = ''h'', Worker_SupportedTypes = [],
        Worker_MaxConcurrent = 5, Worker_CurrentJobs = 0, Worker_Status = ''active'',
        Worker_LastHeartbeat = -10, Worker_RegisteredAt = -10\<rparr>)]\<rparr>"

definition store_world :: "(MemoryStorage, unit) world" where
  "store_world = \<lparr>rt = demo_runtime, ticks = 0, uuids = 0, ranges = 0,
     heap = (\<lambda>j. example_job\<lparr>Job_ID := 10 + of_nat j, Job_Priority := of_nat j\<rparr>),
     next_ref = 3, storage = demo_store, queue = (), stdout = [], exit_code = None\<rparr>"

lemma store_world_laws: "ms_ok (storage store_world)" "fair_range (rt store_world)"
  by (simp_all add: ms_ok_def map_ok_def map_keys_def store_world_def demo_store_def
      demo_runtime_laws)

theorem MemoryStorage_ListJobs_page_witness:
  "\<exists>js. mset js = {#0, 1, 2#} \<and>
     fst (run_state (MemoryStorage_ListJobs \<lparr>deadline = None\<rparr>
       \<lparr>Filter_Status = Some ''pending'', Filter_JobType = None, Filter_Priority = None,
        Filter_Limit = 1, Filter_Offset = 1\<rparr>) store_world) = Inr (take 1 (drop 1 js))"
proof -
  let ?f = "\<lparr>Filter_Status = Some ''pending'', Filter_JobType = None, Filter_Priority = None,
        Filter_Limit = 1, Filter_Offset = 1\<rparr>"
  let ?run = "run_state (MemoryStorage_ListJobs \<lparr>deadline = None\<rparr> ?f) store_world"
  have all: "job_matches ?f (heap store_world j)" for j
    by (simp add: job_matches_def store_world_def example_job_def)
  have "?run = (fst ?run, snd ?run)" by simp
  from MemoryStorage_ListJobs_page [OF store_world_laws this]
  obtain js where "mset js = mset (map snd (jobs (storage store_world)))"
      "fst ?run = Inr (take 1 (drop 1 js))"
    by (auto simp: all)
  moreover have "mset (map snd (jobs (storage store_world))) = {#0, 1, 2#}"
    by (simp add: store_world_def demo_store_def)
  ultimately show ?thesis by metis
qed

section \<open>Jobs and their history\<close>

text \<open>
  \<open>UpdateJob\<close> on both branches: an identifier the storage does not know is an error that
  changes nothing; otherwise the storage holds the given object from then on, stamped with the
  clock reading of the call, and nothing else is different.
\<close>

theorem MemoryStorage_UpdateJob_spec:
  fixes w :: "(MemoryStorage, 'q) world"
  assumes "run_state (MemoryStorage_UpdateJob c j) w = (r, w')"
  shows "if ms_view (storage w) (heap w) (Job_ID (heap w j)) = None
    then r = Some (GoErr ''job not found'') \<and> w' = w
    else r = None \<and> queue w' = queue w \<and>
      heap w' = (heap w)(j := (heap w j)\<lparr>Job_UpdatedAt := clock (rt w) (ticks w)\<rparr>) \<and>
      storage w' = (storage w)\<lparr>jobs := map_put (jobs (storage w)) (Job_ID (heap w j)) j\<rparr> \<and>
      ms_view (storage w') (heap w') (Job_ID (heap w j)) = Some (heap w' j)"
proof -
  have "wp (MemoryStorage_UpdateJob c j) (\<lambda>r w'.
      if ms_view (storage w) (heap w) (Job_ID (heap w j)) = None
      then r = Some (GoErr ''job not found'') \<and> w' = w
      else r = None \<and> queue w' = queue w \<and>
        heap w' = (heap w)(j := (heap w j)\<lparr>Job_UpdatedAt := clock (rt w) (ticks w)\<rparr>) \<and>
        storage w' = (storage w)\<lparr>jobs := map_put (jobs (storage w)) (Job_ID (heap w j)) j\<rparr> \<and>
        ms_view (storage w') (heap w') (Job_ID (heap w j)) = Some (heap w' j)) w"
    by (auto simp: wp_simps ms_view_def)
  then show ?thesis using assms by (rule wpD)
qed

theorem MemoryStorage_UpdateJob_spec_witness:
  "fst (run_state (MemoryStorage_UpdateJob \<lparr>deadline = None\<rparr> 7) store_world)
     = Some (GoErr ''job not found'')"
proof -
  let ?run = "run_state (MemoryStorage_UpdateJob \<lparr>deadline = None\<rparr> 7) store_world"
  have "?run = (fst ?run, snd ?run)" by simp
  moreover have "ms_view (storage store_world) (heap store_world) (Job_ID (heap store_world 7)) = None"
    by (simp add: store_world_def demo_store_def ms_view_def map_get_def)
  ultimately show ?thesis
    using MemoryStorage_UpdateJob_spec [of "\<lparr>deadline = None\<rparr>" 7 store_world "fst ?run" "snd ?run"]
    by simp
qed

text \<open>Saving a whole sequence of history entries.\<close>

fun save_histories :: "ctx \<Rightarrow> JobHistory list \<Rightarrow> (MemoryStorage, 'q, unit) prog" where
  "save_histories c [] = ret ()"
| "save_histories c (h # hs) = do { _ \<leftarrow> MemoryStorage_SaveJobHistory c h; save_histories c hs }"

lemma save_histories_run:
  "wp (save_histories c hs) (\<lambda>_ w'. (\<forall>jid. map_get_list (history (storage w')) jid =
     map_get_list (history (storage w)) jid @ filter (\<lambda>h. Hist_JobID h = jid) hs) \<and>
     jobs (storage w') = jobs (storage w)) w"
proof (induction hs arbitrary: w)
  case Nil
  then show ?case by (simp add: wp_simps)
next
  case (Cons h hs)
  show ?case unfolding save_histories.simps wp_bind ms_SaveJobHistory_run
    by (rule wp_mono [OF Cons.IH]) auto
qed

text \<open>
  C30: the history of a job is a faithful journal: after any sequence of \<open>SaveJobHistory\<close> calls,
  \<open>GetJobHistory\<close> returns the entries the job had before followed by exactly its own new entries,
  in the order in which they were saved.
\<close>

theorem MemoryStorage_history_roundtrip:
  fixes w :: "(MemoryStorage, 'q) world"
  shows "fst (run_state (do { _ \<leftarrow> save_histories c hs; MemoryStorage_GetJobHistory c jid }) w)
    = Inr (map_get_list (history (storage w)) jid @ filter (\<lambda>h. Hist_JobID h = jid) hs)"
proof -
  have "wp (do { _ \<leftarrow> save_histories c hs; MemoryStorage_GetJobHistory c jid })
      (\<lambda>r w'. r = Inr (map_get_list (history (storage w)) jid @ filter (\<lambda>h. Hist_JobID h = jid) hs)) w"
    unfolding wp_bind
    by (rule wp_mono [OF save_histories_run [of c hs w]])
      (simp add: MemoryStorage_GetJobHistory_def wp_simps flip: map_get_list_def)
  then show ?thesis by (simp add: wp_def split: prod.splits)
qed

section \<open>Workers\<close>

lemma deactivate_loop_get:
  assumes "distinct ks"
  shows "map_get (fst (deactivate_loop cutoff ks m n)) k =
    (if k \<in> set ks then map_option (\<lambda>wk. if is_stale cutoff wk
       then wk\<lparr>Worker_Status := ''inactive''\<rparr> else wk) (map_get m k) else map_get m k)"
  using assms by (induction ks arbitrary: m n) (auto split: option.splits)

lemma deactivate_loop_ok: "map_ok m \<Longrightarrow> map_ok (fst (deactivate_loop cutoff ks m n))"
  by (induction ks arbitrary: m n) (auto split: option.splits)

lemma deactivate_run:
  fixes w :: "(MemoryStorage, 'q) world"
  assumes "ms_ok (storage w)" and "fair_range (rt w)"
  shows "wp (MemoryStorage_DeactivateStaleWorkers c timeout) (\<lambda>r w'. r = None \<and>
    rt w' = rt w \<and> ms_ok (storage w') \<and> jobs (storage w') = jobs (storage w) \<and>
    history (storage w') = history (storage w) \<and>
    (\<forall>k. map_get (workers (storage w')) k = map_option (\<lambda>wk.
       if is_stale (time_Add (clock (rt w) (ticks w)) (- timeout)) wk
       then wk\<lparr>Worker_Status := ''inactive''\<rparr> else wk) (map_get (workers (storage w)) k))) w"
proof -
  let ?m = "workers (storage w)" and ?cut = "time_Add (clock (rt w) (ticks w)) (- timeout)"
  define ks where "ks = map (\<lambda>i. map_keys ?m ! i) (range_order (rt w) (ranges w) (length ?m))"
  have ks: "mset ks = mset (map_keys ?m)" unfolding ks_def using assms(2) by (rule range_map_mset)
  have ok: "map_ok ?m" using assms(1) by (simp add: ms_ok_def)
  then have "distinct ks" "set ks = set (map_keys ?m)"
    using ks gm.keys_distinct by (metis mset_eq_imp_distinct_iff, metis mset_eq_setD)
  then have "map_get (fst (deactivate_loop ?cut ks ?m 0)) k = map_option (\<lambda>wk.
      if is_stale ?cut wk then wk\<lparr>Worker_Status := ''inactive''\<rparr> else wk) (map_get ?m k)" for k
    by (auto simp: deactivate_loop_get gm.keys_get)
  moreover have "map_ok (fst (deactivate_loop ?cut ks ?m 0))" using ok by (rule deactivate_loop_ok)
  ultimately show ?thesis using assms(1)
    by (auto simp: MemoryStorage_DeactivateStaleWorkers_def wp_simps Let_def ms_ok_def
        simp flip: ks_def split: prod.split if_split)
qed

lemma active_run:
  fixes w :: "(MemoryStorage, 'q) world"
  assumes "ms_ok (storage w)" and "fair_range (rt w)"
  shows "wp (MemoryStorage_GetActiveWorkers c) (\<lambda>r w'. \<exists>ws. r = Inr ws \<and>
    set ws = {wk. \<exists>k. map_get (workers (storage w)) k = Some wk \<and> Worker_Status wk = ''active''}) w"
proof -
  let ?m = "workers (storage w)"
  define ks where "ks = map (\<lambda>i. map_keys ?m ! i) (range_order (rt w) (ranges w) (length ?m))"
  have "mset ks = mset (map_keys ?m)" unfolding ks_def using assms(2) by (rule range_map_mset)
  then have "set ks = set (map_keys ?m)" by (metis mset_eq_setD)
  then have "set (filter (\<lambda>wk. Worker_Status wk = ''active'') (map (\<lambda>k. the (map_get ?m k)) ks)) =
      {wk. \<exists>k. map_get ?m k = Some wk \<and> Worker_Status wk = ''active''}"
    by (force simp: gm.keys_get)
  then show ?thesis
    by (simp add: MemoryStorage_GetActiveWorkers_def wp_simps flip: ks_def)
qed

text \<open>
  C31: \<open>DeactivateStaleWorkers\<close> marks exactly the stale workers: a worker that is active and whose last heartbeat is
  older than the timeout at the clock reading of the call becomes inactive and keeps everything else; every other worker, whatever its
  status, keeps its record, and jobs and history stay as they are. Afterwards \<open>GetActiveWorkers\<close> returns
  exactly the workers that were active before and whose last heartbeat is not older than the timeout.
\<close>

theorem MemoryStorage_stale_workers:
  fixes w :: "(MemoryStorage, 'q) world"
  assumes "ms_ok (storage w)" and "fair_range (rt w)"
    and "run_state (MemoryStorage_DeactivateStaleWorkers c timeout) w = (r, w1)"
    and "run_state (MemoryStorage_GetActiveWorkers c) w1 = (res, w2)"
  shows "r = None \<and> jobs (storage w1) = jobs (storage w) \<and> history (storage w1) = history (storage w) \<and>
    (let cutoff = time_Add (clock (rt w) (ticks w)) (- timeout) in
     (\<forall>k. map_get (workers (storage w1)) k = (case map_get (workers (storage w)) k of
          None \<Rightarrow> None
        | Some wk \<Rightarrow> Some (if Worker_Status wk = ''active'' \<and> Worker_LastHeartbeat wk < cutoff
            then wk\<lparr>Worker_Status := ''inactive''\<rparr> else wk))) \<and>
     (\<exists>ws. res = Inr ws \<and> set ws = {wk. \<exists>k. map_get (workers (storage w)) k = Some wk \<and>
        Worker_Status wk = ''active'' \<and> cutoff \<le> Worker_LastHeartbeat wk}))"
proof -
  let ?cut = "time_Add (clock (rt w) (ticks w)) (- timeout)"
  note D = wpD [OF deactivate_run [OF assms(1,2)] assms(3)]
  then have rows: "map_get (workers (storage w1)) k = (case map_get (workers (storage w)) k of
      None \<Rightarrow> None
    | Some wk \<Rightarrow> Some (if Worker_Status wk = ''active'' \<and> Worker_LastHeartbeat wk < ?cut
        then wk\<lparr>Worker_Status := ''inactive''\<rparr> else wk))" for k
    by (auto simp: is_stale_def time_Before_def split: option.split)
  have "map_get (workers (storage w1)) k = Some wk \<and> Worker_Status wk = ''active'' \<longleftrightarrow>
      map_get (workers (storage w)) k = Some wk \<and> Worker_Status wk = ''active'' \<and>
      ?cut \<le> Worker_LastHeartbeat wk" for k wk
    unfolding rows by (auto split: option.splits if_splits)
  moreover have "\<exists>ws. res = Inr ws \<and>
      set ws = {wk. \<exists>k. map_get (workers (storage w1)) k = Some wk \<and> Worker_Status wk = ''active''}"
    using wpD [OF active_run assms(4)] D assms(2) by simp
  ultimately show ?thesis using D rows by (simp add: Let_def)
qed

text \<open>Two workers without a recent heartbeat, one of them active.\<close>

definition workers_world :: "(MemoryStorage, unit) world" where
  "workers_world = store_world\<lparr>storage := demo_store\<lparr>workers :=
     [(''w1'', \<lparr>Worker_ID = ''w1'', Worker_Hostname = ''h'', Worker_SupportedTypes = [],
        Worker_MaxConcurrent = 5, Worker_CurrentJobs = 0, Worker_Status = ''active'',
        Worker_LastHeartbeat = -10, Worker_RegisteredAt = -10\<rparr>),
      (''w2'', \<lparr>Worker_ID = ''w2'', Worker_Hostname = ''h'', Worker_SupportedTypes = [],
        Worker_MaxConcurrent = 5, Worker_CurrentJobs = 0, Worker_Status = ''draining'',
        Worker_LastHeartbeat = -10, Worker_RegisteredAt = -10\<rparr>)]\<rparr>\<rparr>"

theorem MemoryStorage_stale_workers_witness:
  "let w1 = snd (run_state (MemoryStorage_DeactivateStaleWorkers \<lparr>deadline = None\<rparr> 5) workers_world) in
   map_option Worker_Status (map_get (workers (storage w1)) ''w1'') = Some ''inactive'' \<and>
   map_option Worker_Status (map_get (workers (storage w1)) ''w2'') = Some ''draining''"
proof -
  let ?c = "\<lparr>deadline = None\<rparr> :: ctx"
  let ?run = "run_state (MemoryStorage_DeactivateStaleWorkers ?c 5) workers_world"
  let ?get = "run_state (MemoryStorage_GetActiveWorkers ?c) (snd ?run)"
  have run: "?run = (fst ?run, snd ?run)" "?get = (fst ?get, snd ?get)" by simp_all
  have laws: "ms_ok (storage workers_world)" "fair_range (rt workers_world)"
    by (simp_all add: ms_ok_def map_ok_def map_keys_def workers_world_def store_world_def demo_store_def demo_runtime_laws)
  have cutoff: "time_Add (clock (rt workers_world) (ticks workers_world)) (- 5) = - 5"
    by (simp add: workers_world_def store_world_def demo_runtime_def time_Add_def)
  have rows: "\<exists>wk. map_get (workers (storage workers_world)) ''w1'' = Some wk \<and> Worker_Status wk = ''active'' \<and> Worker_LastHeartbeat wk = - 10"
    "\<exists>wk. map_get (workers (storage workers_world)) ''w2'' = Some wk \<and> Worker_Status wk = ''draining''"
    by (simp_all add: workers_world_def store_world_def demo_store_def map_get_def)
  show ?thesis
    using MemoryStorage_stale_workers [OF laws run] rows unfolding Let_def cutoff by auto
qed

end
