(* ===== verification/Mocks.thy ===== *)
theory Mocks
  imports Contracts
begin

text \<open>
  \<^verbatim>\<open>internal/adapters/secondary/metric/mock_metrics.go\<close> and
  \<^verbatim>\<open>internal/adapters/secondary/logger/mock_logger.go\<close>: the metrics and logging adapters that both
  programs run with. They print one line per call.
\<close>

definition MockMetrics :: "('st, 'q) MetricsPort" where
  "MockMetrics = \<lparr>
     IncrementJobsScheduled = (\<lambda>ty p.
       printf ''[METRICS] Job scheduled: %s/%s'' [FmtStr ty, FmtStr (Priority_String p)]),
     IncrementJobsCompleted = (\<lambda>ty p d.
       printf ''[METRICS] Job completed: %s/%s in %v''
         [FmtStr ty, FmtStr (Priority_String p), FmtDur d]),
     IncrementJobsFailed = (\<lambda>ty p reason.
       printf ''[METRICS] Job failed: %s/%s - %s''
         [FmtStr ty, FmtStr (Priority_String p), FmtStr reason]),
     IncrementJobsRetried = (\<lambda>ty p.
       printf ''[METRICS] Job retried: %s/%s'' [FmtStr ty, FmtStr (Priority_String p)]),
     IncrementJobsDeadLettered = (\<lambda>ty p.
       printf ''[METRICS] Job dead lettered: %s/%s'' [FmtStr ty, FmtStr (Priority_String p)]),
     SetQueueLength = (\<lambda>p n.
       printf ''[METRICS] Queue length %s: %d'' [FmtStr (Priority_String p), FmtInt (sint n)]),
     SetDelayedQueueLength = (\<lambda>n.
       printf ''[METRICS] Delayed queue length: %d'' [FmtInt (sint n)]),
     SetDeadLetterQueueLength = (\<lambda>n.
       printf ''[METRICS] Dead letter queue length: %d'' [FmtInt (sint n)]),
     SetActiveWorkers = (\<lambda>n. printf ''[METRICS] Active workers: %d'' [FmtInt (sint n)]),
     IncrementWorkerHeartbeats = (\<lambda>workerID.
       printf ''[METRICS] Worker heartbeat: %s'' [FmtStr workerID])\<rparr>"

definition MockLogger :: "('st, 'q) LoggerPort" where
  "MockLogger = \<lparr>
     Log_Debug = (\<lambda>c msg fs. printf ''[DEBUG] %s %v'' [FmtStr msg, FmtFields fs]),
     Log_Info = (\<lambda>c msg fs. printf ''[INFO] %s %v'' [FmtStr msg, FmtFields fs]),
     Log_Warn = (\<lambda>c msg fs. printf ''[WARN] %s %v'' [FmtStr msg, FmtFields fs]),
     Log_Error = (\<lambda>c msg fs. printf ''[ERROR] %s %v'' [FmtStr msg, FmtFields fs]),
     Log_Fatal = (\<lambda>c msg fs. do {
       printf ''[FATAL] %s %v'' [FmtStr msg, FmtFields fs];
       modify (\<lambda>w. w\<lparr>exit_code := Some 1\<rparr>) })\<rparr>"

interpretation mock: observability MockMetrics MockLogger
  by unfold_locales (simp_all add: MockMetrics_def MockLogger_def)

end
