(* ===== verification/Memory_Backend.thy ===== *)
theory Memory_Backend
  imports Scheduler Memory_Queue Memory_Storage Mocks
begin

text \<open>
  The services on the in-memory adapters, with the mock metrics and logger: the contracts hold, so
  everything proved about the services over arbitrary adapters holds for this wiring.
\<close>

section \<open>The wiring\<close>

definition memory_scheduler :: "(MemoryStorage, MemoryQueue) SchedulerService" where
  "memory_scheduler = NewSchedulerService memory_storage memory_queue MockMetrics MockLogger"

definition memory_processor ::
  "(MemoryStorage, MemoryQueue) JobHandler list \<Rightarrow> (MemoryStorage, MemoryQueue) ProcessorService" where
  "memory_processor hs =
     foldl RegisterHandler (NewProcessorService memory_storage memory_queue MockMetrics MockLogger) hs"

lemma foldl_RegisterHandler:
  "Proc_storage (foldl RegisterHandler p hs) = Proc_storage p"
  "Proc_queue (foldl RegisterHandler p hs) = Proc_queue p"
  "Proc_metrics (foldl RegisterHandler p hs) = Proc_metrics p"
  "Proc_logger (foldl RegisterHandler p hs) = Proc_logger p"
  "map_get (Proc_handlers (foldl RegisterHandler p hs)) ty = (case find (\<lambda>h. GetType h = ty) (rev hs) of
     Some h \<Rightarrow> Some h | None \<Rightarrow> map_get (Proc_handlers p) ty)"
  by (induction hs arbitrary: p) (auto simp: RegisterHandler_def find_append split: option.split)

interpretation mb: backend memory_storage ms_view "\<lambda>J. J" "\<lambda>m. map_get_list (history m)"
  memory_queue "\<lambda>p. p" "\<lambda>t. t" "\<lambda>m. map_get_list (queues m)" "\<lambda>m. map_get (delayedJobs m)"
  deadLetter mq_inv MockMetrics MockLogger
  by unfold_locales

interpretation mp: processor memory_storage ms_view "\<lambda>J. J" "\<lambda>m. map_get_list (history m)"
  memory_queue "\<lambda>p. p" "\<lambda>t. t" "\<lambda>m. map_get_list (queues m)" "\<lambda>m. map_get (delayedJobs m)"
  deadLetter mq_inv MockMetrics MockLogger "memory_processor hs" for hs
  by unfold_locales
    (simp_all add: memory_processor_def foldl_RegisterHandler NewProcessorService_def)

text \<open>Every registered handler is quiet, and so is running whichever is registered for a job.\<close>

definition quiet_handlers :: "('st, 'q) JobHandler list \<Rightarrow> bool" where
  "quiet_handlers hs \<longleftrightarrow> (\<forall>h \<in> set hs. \<forall>c j. quiet (Handle h c j))"

lemma handler_lookup:
  "map_get (Proc_handlers (memory_processor hs)) ty = find (\<lambda>h. GetType h = ty) (rev hs)"
  by (simp add: memory_processor_def foldl_RegisterHandler NewProcessorService_def split: option.split)

lemma find_mem: "find P xs = Some x \<Longrightarrow> x \<in> set xs"
  by (induction xs) (auto split: if_splits)

lemma quiet_executeJob:
  assumes "quiet_handlers hs"
  shows "quiet (executeJob (memory_processor hs) c j)"
  unfolding quiet_def
proof (intro allI impI, goal_cases)
  case (1 w r w')
  show ?case
  proof (cases "find (\<lambda>h. GetType h = Job_Type (heap w j)) (rev hs)")
    case None
    then show ?thesis using 1 by (simp add: executeJob_def handler_lookup read_job_def)
  next
    case (Some h)
    then have "h \<in> set hs" using find_mem [OF Some] by simp
    then have "quiet (Handle h c j)" using assms by (simp add: quiet_handlers_def)
    moreover have "run_state (Handle h c j) w = (r, w')"
      using 1 Some by (simp add: executeJob_def handler_lookup read_job_def)
    ultimately show ?thesis using quietD by metis
  qed
qed

section \<open>Scheduling\<close>

text \<open>
  C4: a request is never lost and never misplaced: \<open>ScheduleJob\<close> returns a job that carries the
  request's type, payload, metadata, policy and priority (medium, and the environment's default
  policy, where the request has none), the storage holds that job under a fresh identifier, and
  the job is either delayed until the requested time, when that time is after the clock reading,
  or last in the queue of its priority; nothing else in the queue changes.
\<close>

theorem ScheduleJob_outcome:
  assumes "mq_wf w" and "run_state (SchedulerService_ScheduleJob memory_scheduler c req) w = (r, w')"
  defines "jid \<equiv> uuid_New (rt w) (uuids w)" and "t \<equiv> clock (rt w) (ticks w + 3)"
  shows "\<exists>j J. r = Inr j \<and> mq_wf w' \<and> heap w' j = J \<and> requested_job (rt w) t jid req J \<and>
    ms_view (storage w') (heap w') jid = Some J \<and> deadLetter (queue w') = deadLetter (queue w) \<and>
    (case delayed_request req t of
       Some s \<Rightarrow> map_get_list (queues (queue w')) = map_get_list (queues (queue w)) \<and>
         map_get (delayedJobs (queue w')) = (map_get (delayedJobs (queue w)))(jid \<mapsto> s)
     | None \<Rightarrow> map_get (delayedJobs (queue w')) = map_get (delayedJobs (queue w)) \<and>
         map_get_list (queues (queue w')) = (map_get_list (queues (queue w)))
           (Job_Priority J := map_get_list (queues (queue w)) (Job_Priority J) @ [jid]))"
proof -
  have "wp (SchedulerService_ScheduleJob memory_scheduler c req) (\<lambda>r w'. \<exists>j J. r = Inr j \<and> mq_wf w' \<and>
      heap w' j = J \<and> requested_job (rt w) t jid req J \<and>
      ms_view (storage w') (heap w') (Job_ID J) = Some J \<and> mb.placed J w w') w"
    unfolding jid_def t_def
    by (rule mb.ScheduleJob_rule [OF assms(1)])
      (simp_all add: memory_scheduler_def NewSchedulerService_def)
  from wpD [OF this assms(2)] obtain j J where J: "r = Inr j" "mq_wf w'" "heap w' j = J"
    "requested_job (rt w) t jid req J" "ms_view (storage w') (heap w') (Job_ID J) = Some J"
    "mb.placed J w w'" by blast
  then have "Job_ID J = jid" "Job_Status J = StatusScheduled \<longleftrightarrow> delayed_request req t \<noteq> None"
    "delayed_request req t = Some s \<Longrightarrow> Job_ScheduledAt J = s" for s
    by (auto simp: requested_job_def status_consts split: option.splits)
  then show ?thesis using J
    by (intro exI [of _ j] exI [of _ J]) (simp add: mb.placed_def split: option.split)
qed

definition empty_world :: "(MemoryStorage, MemoryQueue) world" where
  "empty_world = \<lparr>rt = demo_runtime, ticks = 0, uuids = 0, ranges = 0, heap = (\<lambda>_. example_job),
     next_ref = 0, storage = NewMemoryStorage, queue = NewMemoryQueue, stdout = [], exit_code = None\<rparr>"

definition example_request :: ScheduleJobRequest where
  "example_request = \<lparr>Req_Type = ''email'', Req_Priority = 0, Req_Payload = ''{}'', Req_Metadata = None,
     Req_RetryPolicy = None, Req_ScheduleAt = Some 1000000\<rparr>"

theorem ScheduleJob_outcome_witness:
  "map_get (delayedJobs (queue (snd (run_state (SchedulerService_ScheduleJob memory_scheduler
     \<lparr>deadline = None\<rparr> example_request) empty_world)))) 100 = Some 1000000"
proof -
  let ?run = "run_state (SchedulerService_ScheduleJob memory_scheduler \<lparr>deadline = None\<rparr> example_request)
    empty_world"
  have wf: "mq_wf empty_world" by (simp add: empty_world_def mq_inv_New)
  have run: "?run = (fst ?run, snd ?run)" by simp
  have req: "delayed_request example_request (clock (rt empty_world) (ticks empty_world + 3)) = Some 1000000"
    "uuid_New (rt empty_world) (uuids empty_world) = 100"
    by (simp_all add: delayed_request_def example_request_def empty_world_def demo_runtime_def time_After_def)
  have "map_get (delayedJobs (queue (snd ?run))) = (map_get (delayedJobs (queue empty_world)))(100 \<mapsto> 1000000)"
    using ScheduleJob_outcome [OF wf run] unfolding req option.case by (elim exE conjE)
  then show ?thesis by (simp only: fun_upd_same)
qed

section \<open>Processing one job\<close>

lemma ProcessJob_run:
  assumes "mq_wf w" and "j < next_ref w"
    and "map_get (jobs (storage w)) (Job_ID (heap w j)) \<noteq> None" and "quiet_handlers hs"
    and "run_state (ProcessJob (memory_processor hs) c j workerID) w = (r, w')"
  obtains J where "started_as workerID (heap w j) J" "mp.job_run hs workerID j J w r w'"
proof -
  have "wp (ProcessJob (memory_processor hs) c j workerID) (\<lambda>r w'. \<exists>J. started_as workerID (heap w j) J \<and>
      mp.job_run hs workerID j J w r w') w"
    using assms(1-4) by (intro mp.ProcessJob_rule quiet_executeJob) (simp_all add: ms_view_def)
  from wpD [OF this assms(5)] show ?thesis using that by blast
qed

lemma job_run_executed:
  assumes "mp.job_run hs workerID j J w r w'"
  shows "\<exists>jc wx t k. heap wx j = J \<and> deadline jc = Some t \<and> k < ticks wx \<and>
    t \<le> time_Add (clock (rt w) k) (30 * Minute) \<and>
    r = (case find (\<lambda>h. GetType h = Job_Type J) (rev hs) of
      None \<Rightarrow> Some (GoErr (''no handler registered for job type: '' @ Job_Type J))
    | Some h \<Rightarrow> fst (run_state (Handle h jc j) wx))"
proof -
  obtain jc wx t k where x: "r = fst (run_state (executeJob (memory_processor hs) jc j) wx)"
      "heap wx j = J" "deadline jc = Some t" "k < ticks wx" "t \<le> time_Add (clock (rt w) k) (30 * Minute)"
    using assms unfolding mp.job_run_def by blast
  then have "r = (case find (\<lambda>h. GetType h = Job_Type J) (rev hs) of
      None \<Rightarrow> Some (GoErr (''no handler registered for job type: '' @ Job_Type J))
    | Some h \<Rightarrow> fst (run_state (Handle h jc j) wx))"
    by (simp add: executeJob_def handler_lookup read_job_def split: option.split)
  with x show ?thesis by blast
qed

text \<open>
  C25: the outcome of \<open>ProcessJob\<close> is the outcome of the job's handler: the last handler registered
  for the job's type runs, on the job as it was marked when it was started and under a deadline at
  most thirty minutes after a clock reading, and its result is returned; a type without a handler
  fails with an error that names the type. No other job object changes.
\<close>

theorem ProcessJob_runs_handler:
  assumes "mq_wf w" and "j < next_ref w"
    and "map_get (jobs (storage w)) (Job_ID (heap w j)) \<noteq> None" and "quiet_handlers hs"
    and "run_state (ProcessJob (memory_processor hs) c j workerID) w = (r, w')"
  shows "(\<exists>J jc wx t k. started_as workerID (heap w j) J \<and> heap wx j = J \<and> deadline jc = Some t \<and>
      k < ticks wx \<and> t \<le> time_Add (clock (rt w) k) (30 * Minute) \<and>
      r = (case find (\<lambda>h. GetType h = Job_Type (heap w j)) (rev hs) of
        None \<Rightarrow> Some (GoErr (''no handler registered for job type: '' @ Job_Type (heap w j)))
      | Some h \<Rightarrow> fst (run_state (Handle h jc j) wx))) \<and>
    (\<forall>i < next_ref w. i \<noteq> j \<longrightarrow> heap w' i = heap w i)"
proof -
  from ProcessJob_run [OF assms] obtain J where J: "started_as workerID (heap w j) J"
      "mp.job_run hs workerID j J w r w'" .
  then have ty: "Job_Type J = Job_Type (heap w j)" by (auto simp: started_as_def)
  have "only_job j w w'" using J(2) by (simp add: mp.job_run_def)
  then have "\<forall>i < next_ref w. i \<noteq> j \<longrightarrow> heap w' i = heap w i" by (simp add: only_job_def)
  with J(1) job_run_executed [OF J(2), unfolded ty] show ?thesis by blast
qed

text \<open>A world with one stored job, and handlers for it, to evaluate examples in.\<close>

definition one_job_world :: "(MemoryStorage, MemoryQueue) world" where
  "one_job_world = empty_world\<lparr>next_ref := 1, storage := NewMemoryStorage\<lparr>jobs := [(7, 0)]\<rparr>,
     queue := NewMemoryQueue\<lparr>queues := [(3, [7])], jobStorage := [(7, 0)]\<rparr>\<rparr>"

definition constant_handler :: "go_error option \<Rightarrow> ('st, 'q) JobHandler" where
  "constant_handler r = \<lparr>Handle = (\<lambda>_ _. ret r), GetType = ''email''\<rparr>"

lemma one_job_world_laws:
  "mq_wf one_job_world" "0 < next_ref one_job_world"
  "map_get (jobs (storage one_job_world)) (Job_ID (heap one_job_world 0)) \<noteq> None"
  "attempts_wf (Job_RetryPolicy (heap one_job_world 0))"
  "quiet_handlers [constant_handler r]"
  by (auto simp: one_job_world_def empty_world_def NewMemoryStorage_def NewMemoryQueue_def mq_inv_def map_ok_def
      map_keys_def map_get_def map_get_list_def example_job_def attempts_wf_def
      quiet_handlers_def constant_handler_def split: if_splits)

definition one_job_run where
  "one_job_run r = run_state (ProcessJob (memory_processor [constant_handler r]) \<lparr>deadline = None\<rparr> 0 ''w1'')
     one_job_world"

lemma one_job_run_result: "fst (one_job_run r) = r"
proof -
  have run: "run_state (ProcessJob (memory_processor [constant_handler r]) \<lparr>deadline = None\<rparr> 0 ''w1'')
      one_job_world = (fst (one_job_run r), snd (one_job_run r))" by (simp add: one_job_run_def)
  from ProcessJob_run [OF one_job_world_laws(1-3,5) run] obtain J where
    J: "started_as ''w1'' (heap one_job_world 0) J"
    "mp.job_run [constant_handler r] ''w1'' 0 J one_job_world (fst (one_job_run r)) (snd (one_job_run r))" .
  then have "Job_Type J = ''email''"
    by (auto simp: started_as_def one_job_world_def empty_world_def example_job_def)
  then show ?thesis using job_run_executed [OF J(2)] by (auto simp: constant_handler_def)
qed

lemma one_job_run_eq:
  "run_state (ProcessJob (memory_processor [constant_handler r]) \<lparr>deadline = None\<rparr> 0 ''w1'')
     one_job_world = (r, snd (one_job_run r))"
  by (metis one_job_run_result one_job_run_def prod.collapse)

theorem ProcessJob_runs_handler_witness:
  "fst (run_state (ProcessJob (memory_processor []) \<lparr>deadline = None\<rparr> 0 ''w1'') one_job_world)
    = Some (GoErr ''no handler registered for job type: email'')"
proof -
  let ?run = "run_state (ProcessJob (memory_processor []) \<lparr>deadline = None\<rparr> 0 ''w1'') one_job_world"
  have quiet: "quiet_handlers ([] :: (MemoryStorage, MemoryQueue) JobHandler list)"
    by (simp add: quiet_handlers_def)
  have run: "?run = (fst ?run, snd ?run)" by simp
  have ty: "Job_Type (heap one_job_world 0) = ''email''"
    by (simp add: one_job_world_def empty_world_def example_job_def)
  show ?thesis
    using ProcessJob_runs_handler [OF one_job_world_laws(1-3) quiet run]
    unfolding ty rev.simps find.simps option.case append.simps by (elim exE conjE)
qed

text \<open>
  C20: success. The job is marked completed, the storage shows exactly that, the queue is as it was
  before (the job is in no queue), and the history of this job, and of no other, has one more entry,
  for this worker and this attempt, completed and without an error.
\<close>

theorem ProcessJob_success:
  assumes "mq_wf w" and "j < next_ref w"
    and "map_get (jobs (storage w)) (Job_ID (heap w j)) \<noteq> None" and "quiet_handlers hs"
    and "run_state (ProcessJob (memory_processor hs) c j workerID) w = (None, w')"
  shows "\<exists>J h. started_as workerID (heap w j) J \<and> completed_as J (heap w' j) \<and> queue w' = queue w \<and>
    ms_view (storage w') (heap w') (Job_ID (heap w j)) = Some (heap w' j) \<and>
    journal_entry workerID (heap w j) None h \<and>
    (\<forall>jid. mset (map_get_list (history (storage w')) jid) =
       mset (map_get_list (history (storage w)) jid) + (if jid = Job_ID (heap w j) then {#h#} else {#}))"
proof -
  from ProcessJob_run [OF assms] obtain J where J: "started_as workerID (heap w j) J"
      "mp.job_run hs workerID j J w None w'" .
  then have same: "Job_ID J = Job_ID (heap w j)" "Job_RetryPolicy J = Job_RetryPolicy (heap w j)"
    by (auto simp: started_as_def)
  obtain h where "journal_entry workerID J None h" "\<forall>jid. mset (map_get_list (history (storage w')) jid) =
       mset (map_get_list (history (storage w)) jid) + (if jid = Job_ID J then {#h#} else {#})"
    using J(2) unfolding mp.job_run_def by blast
  with J same show ?thesis
    by (intro exI [of _ J] exI [of _ h]) (simp add: mp.job_run_def journal_entry_def)
qed

theorem ProcessJob_success_witness:
  "Job_Status (heap (snd (one_job_run None)) 0) = StatusCompleted \<and>
   length (map_get_list (history (storage (snd (one_job_run None)))) 7) = 1"
proof -
  have "Job_ID (heap one_job_world 0) = 7" "map_get_list (history (storage one_job_world)) 7 = []"
    by (simp_all add: one_job_world_def empty_world_def NewMemoryStorage_def example_job_def map_get_list_def)
  with ProcessJob_success [OF one_job_world_laws(1-3,5) one_job_run_eq]
  obtain J h where "completed_as J (heap (snd (one_job_run None)) 0)"
    "mset (map_get_list (history (storage (snd (one_job_run None)))) 7) = {#h#}"
    by (auto dest!: spec [of _ 7])
  then show ?thesis by (auto simp: completed_as_def)
qed

text \<open>
  C3: failure. While the attempts are not used up the job is scheduled again, at the time its policy
  computes, and waits among the delayed jobs under that time; otherwise it is dead and joins the dead
  letters. In both cases the ready queues are untouched, the storage shows the job as it is now, and
  the history of this job has one more entry, failed and with the handler's error.
\<close>

theorem ProcessJob_failure:
  assumes "mq_wf w" and "j < next_ref w"
    and "map_get (jobs (storage w)) (Job_ID (heap w j)) \<noteq> None" and "quiet_handlers hs"
    and "run_state (ProcessJob (memory_processor hs) c j workerID) w = (Some e, w')"
    and "attempts_wf (Job_RetryPolicy (heap w j))"
  shows "\<exists>J h. started_as workerID (heap w j) J \<and>
    (if sint (CurrentAttempts (Job_RetryPolicy (heap w j))) + 1 < sint (MaxAttempts (Job_RetryPolicy (heap w j)))
     then retried_as (cvt_overflow (rt w)) e J (heap w' j) \<and> deadLetter (queue w') = deadLetter (queue w) \<and>
       map_get (delayedJobs (queue w')) = (map_get (delayedJobs (queue w)))
         (Job_ID (heap w j) \<mapsto> Job_ScheduledAt (heap w' j))
     else died_as e J (heap w' j) \<and> map_get (delayedJobs (queue w')) = map_get (delayedJobs (queue w)) \<and>
       mset (deadLetter (queue w')) = mset (deadLetter (queue w)) + {#Job_ID (heap w j)#}) \<and>
    map_get_list (queues (queue w')) = map_get_list (queues (queue w)) \<and>
    ms_view (storage w') (heap w') (Job_ID (heap w j)) = Some (heap w' j) \<and>
    journal_entry workerID (heap w j) (Some e) h \<and>
    (\<forall>jid. mset (map_get_list (history (storage w')) jid) =
       mset (map_get_list (history (storage w)) jid) + (if jid = Job_ID (heap w j) then {#h#} else {#}))"
proof -
  from ProcessJob_run [OF assms(1-5)] obtain J where J: "started_as workerID (heap w j) J"
      "mp.job_run hs workerID j J w (Some e) w'" .
  then have same: "Job_ID J = Job_ID (heap w j)" "Job_RetryPolicy J = Job_RetryPolicy (heap w j)"
    by (auto simp: started_as_def)
  obtain h where "journal_entry workerID J (Some e) h" "\<forall>jid. mset (map_get_list (history (storage w')) jid) =
       mset (map_get_list (history (storage w)) jid) + (if jid = Job_ID J then {#h#} else {#})"
    using J(2) unfolding mp.job_run_def by blast
  with J same show ?thesis
    by (intro exI [of _ J] exI [of _ h])
      (simp add: mp.job_run_def journal_entry_def mp.failed_to_def attempt_left_exact [OF assms(6)])
qed

theorem ProcessJob_failure_witness:
  "map_get (delayedJobs (queue (snd (one_job_run (Some (GoErr ''boom'')))))) 7 \<noteq> None"
proof -
  have "Job_ID (heap one_job_world 0) = 7" "CurrentAttempts (Job_RetryPolicy (heap one_job_world 0)) = 0"
    "MaxAttempts (Job_RetryPolicy (heap one_job_world 0)) = 3"
    by (simp_all add: one_job_world_def empty_world_def example_job_def)
  with ProcessJob_failure [OF one_job_world_laws(1-3,5) one_job_run_eq [of "Some (GoErr ''boom'')"]
      one_job_world_laws(4)]
  show ?thesis by auto
qed

lemma ProcessJob_unstored_run:
  assumes "map_get (jobs (storage w)) (Job_ID (heap w j)) = None"
  shows "wp (ProcessJob (memory_processor hs) c j workerID)
    (\<lambda>r w'. r = Some (Wrapped ''failed to update job status: '' (GoErr ''job not found'')) \<and>
       w' = w\<lparr>ticks := ticks w + 2, heap := (heap w)(j := MarkAsProcessing workerID
         (clock (rt w) (ticks w)) (clock (rt w) (ticks w + 1)) (heap w j))\<rparr>) w"
  using assms by (simp add: ProcessJob_def wp_simps MarkAsProcessing_def)

text \<open>
  C29: a job that the storage does not hold is not executed: \<open>ProcessJob\<close> fails with the storage's
  error. The job object stays marked as processing, and the job is put back into no queue: a caller
  that had dequeued it has dropped it.
\<close>

theorem ProcessJob_unstored:
  assumes "map_get (jobs (storage w)) (Job_ID (heap w j)) = None"
    and "run_state (ProcessJob (memory_processor hs) c j workerID) w = (r, w')"
  shows "r = Some (Wrapped ''failed to update job status: '' (GoErr ''job not found'')) \<and>
    w' = w\<lparr>ticks := ticks w + 2, heap := (heap w)(j := MarkAsProcessing workerID
      (clock (rt w) (ticks w)) (clock (rt w) (ticks w + 1)) (heap w j))\<rparr>"
  using wpD [OF ProcessJob_unstored_run [OF assms(1)] assms(2)] .

theorem ProcessJob_unstored_witness:
  "fst (run_state (ProcessJob (memory_processor []) \<lparr>deadline = None\<rparr> 0 ''w1'') empty_world)
    = Some (Wrapped ''failed to update job status: '' (GoErr ''job not found''))"
proof -
  let ?run = "run_state (ProcessJob (memory_processor []) \<lparr>deadline = None\<rparr> 0 ''w1'') empty_world"
  have none: "map_get (jobs (storage empty_world)) (Job_ID (heap empty_world 0)) = None"
    by (simp add: empty_world_def NewMemoryStorage_def)
  have run: "?run = (fst ?run, snd ?run)" by simp
  show ?thesis using ProcessJob_unstored [OF none run] by (rule conjunct1)
qed

section \<open>Polling\<close>

lemma ProcessNextJob_none:
  assumes "mq_wf w" and "\<forall>p \<in> set ps. map_get_list (queues (queue w)) p = []"
  shows "run_state (ProcessNextJob (memory_processor hs) c workerID ps) w =
    (Some (Wrapped ''failed to dequeue job: '' (GoErr ''no jobs available'')), w)"
  using assms dequeue_loop_none [OF assms(2)]
  by (simp add: ProcessNextJob_def MemoryQueue_Dequeue_def)

lemma ProcessNextJob_some:
  fixes w :: "(MemoryStorage, MemoryQueue) world"
  assumes "mq_wf w" and "p \<in> set ps" and "map_get_list (queues (queue w)) p \<noteq> []"
  obtains pre p post jid rest j w1 where "ps = pre @ p # post"
    "\<forall>p' \<in> set pre. map_get_list (queues (queue w)) p' = []"
    "map_get_list (queues (queue w)) p = jid # rest"
    "map_get (jobStorage (queue w)) jid = Some j" "j < next_ref w" "Job_ID (heap w j) = jid"
    "rt w1 = rt w" "heap w1 = heap w" "next_ref w1 = next_ref w" "storage w1 = storage w"
    "queue w1 = (queue w)\<lparr>queues := map_put (queues (queue w)) p rest\<rparr>" "mq_wf w1"
    "run_state (ProcessNextJob (memory_processor hs) c workerID ps) w =
       run_state (ProcessJob (memory_processor hs) c j workerID) w1"
  using assms(1)
proof (cases rule: dequeue_cases [of w ps])
  case none
  then show ?thesis using assms(2,3) by simp
next
  case (some pre p post jid rest j w1)
  have "mq_wf w1" using mq_inv_pop [OF assms(1) some(3)] some(7) by simp
  moreover have "run_state (ProcessNextJob (memory_processor hs) c workerID ps) w =
      run_state (ProcessJob (memory_processor hs) c j workerID) w1"
    using some(8) by (simp add: ProcessNextJob_def MemoryQueue_Dequeue_def)
  ultimately show ?thesis using some by (intro that [of pre p post jid rest j w1]) simp_all
qed

text \<open>
  C19: one round of a worker. When all polled queues are empty the round fails with the queue's error
  and changes nothing. Otherwise it takes the oldest job of the first non-empty queue, that job alone
  leaves the queue, and when the storage holds it the job is completed, scheduled again, or dead
  afterwards, as its handler and its policy say, and the storage shows it so.
\<close>

theorem ProcessNextJob_round:
  fixes w :: "(MemoryStorage, MemoryQueue) world"
  assumes "mq_wf w" and "quiet_handlers hs"
    and "run_state (ProcessNextJob (memory_processor hs) c workerID ps) w = (r, w')"
    and "\<And>jid. map_get (jobStorage (queue w)) jid \<noteq> None \<Longrightarrow> map_get (jobs (storage w)) jid \<noteq> None"
  shows "if \<forall>p \<in> set ps. map_get_list (queues (queue w)) p = []
    then r = Some (Wrapped ''failed to dequeue job: '' (GoErr ''no jobs available'')) \<and> w' = w
    else \<exists>pre p post jid rest j J. ps = pre @ p # post \<and>
      (\<forall>p' \<in> set pre. map_get_list (queues (queue w)) p' = []) \<and>
      map_get_list (queues (queue w)) p = jid # rest \<and>
      map_get (jobStorage (queue w)) jid = Some j \<and> started_as workerID (heap w j) J \<and>
      map_get_list (queues (queue w')) = (map_get_list (queues (queue w)))(p := rest) \<and>
      ms_view (storage w') (heap w') jid = Some (heap w' j) \<and>
      (case r of None \<Rightarrow> completed_as J (heap w' j)
       | Some e \<Rightarrow> if attempt_left (Job_RetryPolicy (heap w j))
           then retried_as (cvt_overflow (rt w)) e J (heap w' j) else died_as e J (heap w' j))"
proof (cases "\<forall>p \<in> set ps. map_get_list (queues (queue w)) p = []")
  case True
  then show ?thesis using ProcessNextJob_none [OF assms(1) True, of hs c workerID] assms(3) by simp
next
  case False
  then obtain p0 where "p0 \<in> set ps" "map_get_list (queues (queue w)) p0 \<noteq> []" by blast
  from ProcessNextJob_some [OF assms(1) this, of hs c workerID] obtain pre p post jid rest j w1 where
    d: "ps = pre @ p # post" "\<forall>p' \<in> set pre. map_get_list (queues (queue w)) p' = []"
    "map_get_list (queues (queue w)) p = jid # rest" "map_get (jobStorage (queue w)) jid = Some j"
    "j < next_ref w" "Job_ID (heap w j) = jid" "rt w1 = rt w" "heap w1 = heap w"
    "next_ref w1 = next_ref w" "storage w1 = storage w"
    "queue w1 = (queue w)\<lparr>queues := map_put (queues (queue w)) p rest\<rparr>" "mq_wf w1"
    and run: "run_state (ProcessJob (memory_processor hs) c j workerID) w1 = (r, w')"
    using assms(3) by metis
  have "map_get (jobs (storage w1)) (Job_ID (heap w1 j)) \<noteq> None" using assms(4) d by simp
  from ProcessJob_run [OF d(12) _ this assms(2) run] obtain J where J:
    "started_as workerID (heap w j) J" "mp.job_run hs workerID j J w1 r w'"
    using d by auto
  have same: "Job_ID J = jid" "Job_RetryPolicy J = Job_RetryPolicy (heap w j)"
    using J(1) d(6) by (auto simp: started_as_def)
  have "map_get_list (queues (queue w')) = (map_get_list (queues (queue w)))(p := rest)"
    using J(2) d(11) by (auto simp: mp.job_run_def mp.failed_to_def fun_eq_iff split: option.splits)
  moreover have "case r of None \<Rightarrow> completed_as J (heap w' j)
       | Some e \<Rightarrow> if attempt_left (Job_RetryPolicy (heap w j))
           then retried_as (cvt_overflow (rt w)) e J (heap w' j) else died_as e J (heap w' j)"
    using J(2) same(2) d(7) by (auto simp: mp.job_run_def mp.failed_to_def split: option.splits)
  moreover have "ms_view (storage w') (heap w') jid = Some (heap w' j)"
    using J(2) same(1) by (simp add: mp.job_run_def)
  ultimately show ?thesis unfolding if_not_P [OF False] using d(1-4) J(1) by blast
qed

theorem ProcessNextJob_round_witness:
  "map_get_list (queues (queue (snd (run_state (ProcessNextJob (memory_processor [constant_handler None])
     \<lparr>deadline = None\<rparr> ''w1'' named_priorities) one_job_world)))) 3 = []"
proof -
  let ?run = "run_state (ProcessNextJob (memory_processor [constant_handler None])
     \<lparr>deadline = None\<rparr> ''w1'' named_priorities) one_job_world"
  have run: "?run = (fst ?run, snd ?run)" by simp
  have state: "queue one_job_world = \<lparr>queues = [(3, [7])], delayedJobs = [], deadLetter = [],
      jobStorage = [(7, 0)]\<rparr>" "jobs (storage one_job_world) = [(7, 0)]"
    by (simp_all add: one_job_world_def NewMemoryQueue_def NewMemoryStorage_def)
  have ready: "map_get_list (queues (queue one_job_world)) p = (if p = 3 then [7] else [])" for p
    by (simp add: state map_get_list_def map_get_def)
  have "3 \<in> set named_priorities" by (simp add: named_priorities_def priority_consts)
  then have busy: "\<not> (\<forall>p \<in> set named_priorities. map_get_list (queues (queue one_job_world)) p = [])"
    by (auto simp: ready)
  have known: "map_get (jobStorage (queue one_job_world)) jid \<noteq> None \<Longrightarrow>
      map_get (jobs (storage one_job_world)) jid \<noteq> None" for jid by (simp add: state)
  obtain p jid rest where "map_get_list (queues (queue one_job_world)) p = jid # rest"
    "map_get_list (queues (queue (snd ?run))) = (map_get_list (queues (queue one_job_world)))(p := rest)"
    using ProcessNextJob_round [OF one_job_world_laws(1,5) run known] busy by (simp only: if_False) blast
  then show ?thesis by (simp add: ready split: if_splits)
qed

end
