(* ===== verification/System.thy ===== *)
theory System
  imports Memory_Backend
begin

text \<open>
  The running system on the in-memory adapters: clients schedule jobs, the scheduler's ticker
  promotes delayed jobs, workers take jobs and process them, and workers register and send
  heartbeats, in any order. A worker holds the job it has taken until it processes it, so that any
  number of workers can be between the two calls of \<open>ProcessNextJob\<close> at the same time. One call of a
  service or adapter method is one step.
\<close>

section \<open>Steps\<close>

type_synonym mem_world = "(MemoryStorage, MemoryQueue) world"

text \<open>A state is the process and the jobs that workers have taken and not yet processed.\<close>

type_synonym sys_state = "mem_world \<times> job_ref list"

inductive sys_step :: "(MemoryStorage, MemoryQueue) JobHandler list \<Rightarrow> (ScheduleJobRequest \<Rightarrow> bool) \<Rightarrow>
    sys_state \<Rightarrow> sys_state \<Rightarrow> bool" for hs ok where
  schedule: "ok req \<Longrightarrow> fresh_uuid w \<Longrightarrow> run_state (SchedulerService_ScheduleJob memory_scheduler c req) w = (r, w') \<Longrightarrow>
    sys_step hs ok (w, fl) (w', fl)"
| promote: "run_state (ProcessDelayedJobs memory_queue c) w = (r, w') \<Longrightarrow>
    sys_step hs ok (w, fl) (w', fl)"
| take: "run_state (Dequeue memory_queue c ps) w = (Inr (Some j), w') \<Longrightarrow>
    sys_step hs ok (w, fl) (w', j # fl)"
| work: "run_state (ProcessJob (memory_processor hs) c j workerID) w = (r, w') \<Longrightarrow>
    sys_step hs ok (w, pre @ j # post) (w', pre @ post)"
| register: "run_state (RegisterWorker memory_storage c wk) w = (r, w') \<Longrightarrow>
    sys_step hs ok (w, fl) (w', fl)"
| heartbeat: "run_state (UpdateWorkerHeartbeat memory_storage c workerID) w = (r, w') \<Longrightarrow>
    sys_step hs ok (w, fl) (w', fl)"
| deactivate: "run_state (DeactivateStaleWorkers memory_storage c d) w = (r, w') \<Longrightarrow>
    sys_step hs ok (w, fl) (w', fl)"

text \<open>A process that has just started, with a runtime that keeps its documented promises.\<close>

definition sys_init :: "sys_state \<Rightarrow> bool" where
  "sys_init s \<longleftrightarrow> snd s = [] \<and> storage (fst s) = NewMemoryStorage \<and> queue (fst s) = NewMemoryQueue \<and>
     fair_range (rt (fst s))"

inductive reachable for hs ok where
  start: "sys_init s \<Longrightarrow> reachable hs ok s"
| step: "reachable hs ok s \<Longrightarrow> sys_step hs ok s s' \<Longrightarrow> reachable hs ok s'"

section \<open>Where a job is\<close>

datatype place = Ready | InHand | Waiting | Done | Buried

fun status_at :: "place \<Rightarrow> Status" where
  "status_at Ready = StatusPending"
| "status_at InHand = StatusPending"
| "status_at Waiting = StatusScheduled"
| "status_at Done = StatusCompleted"
| "status_at Buried = StatusDead"

text \<open>
  All occurrences of an identifier: how often in each ready queue, whether among the delayed jobs,
  how often among the dead letters and among the jobs in the hands of workers.
\<close>

definition occurrences :: "sys_state \<Rightarrow> uuid \<Rightarrow> (Priority \<Rightarrow> nat) \<times> bool \<times> nat \<times> nat" where
  "occurrences s jid =
     (\<lambda>p. count (mset (map_get_list (queues (queue (fst s))) p)) jid,
      map_get (delayedJobs (queue (fst s))) jid \<noteq> None, count (mset (deadLetter (queue (fst s)))) jid,
      count (mset (map (\<lambda>j. Job_ID (heap (fst s) j)) (snd s))) jid)"

text \<open>The occurrences of a job of priority \<open>p\<close> that is at one place, once, and nowhere else.\<close>

fun only_at :: "place option \<Rightarrow> Priority \<Rightarrow> (Priority \<Rightarrow> nat) \<times> bool \<times> nat \<times> nat" where
  "only_at (Some Ready) p = ((\<lambda>_. 0)(p := 1), False, 0, 0)"
| "only_at (Some Waiting) p = ((\<lambda>_. 0), True, 0, 0)"
| "only_at (Some Buried) p = ((\<lambda>_. 0), False, 1, 0)"
| "only_at (Some InHand) p = ((\<lambda>_. 0), False, 0, 1)"
| "only_at _ p = ((\<lambda>_. 0), False, 0, 0)"

lemma only_at_inj: "only_at (Some pl) p = only_at (Some pl') p \<Longrightarrow> pl = pl'"
  by (cases pl; cases pl') (auto dest: fun_cong [where x = p])

definition job_at :: "sys_state \<Rightarrow> uuid \<Rightarrow> Job \<Rightarrow> place \<Rightarrow> bool" where
  "job_at s jid J pl \<longleftrightarrow>
     occurrences s jid = only_at (Some pl) (Job_Priority J) \<and> Job_Status J = status_at pl"

section \<open>The invariant\<close>

definition pointers_ok :: "mem_world \<Rightarrow> bool" where
  "pointers_ok w \<longleftrightarrow>
     (\<forall>jid j. map_get (jobs (storage w)) jid = Some j \<longrightarrow>
        j < next_ref w \<and> Job_ID (heap w j) = jid \<and> jid \<in> uuid_New (rt w) ` {..<uuids w}) \<and>
     (\<forall>jid j. map_get (jobStorage (queue w)) jid = Some j \<longrightarrow> map_get (jobs (storage w)) jid = Some j)"

definition hands_ok :: "sys_state \<Rightarrow> bool" where
  "hands_ok s \<longleftrightarrow> (\<forall>j \<in> set (snd s).
     map_get (jobs (storage (fst s))) (Job_ID (heap (fst s) j)) = Some j)"

definition places_ok :: "sys_state \<Rightarrow> bool" where
  "places_ok s \<longleftrightarrow>
     (\<forall>jid. map_get (jobs (storage (fst s))) jid = None \<longrightarrow> occurrences s jid = only_at None 0) \<and>
     (\<forall>jid j. map_get (jobs (storage (fst s))) jid = Some j \<longrightarrow> (\<exists>pl. job_at s jid (heap (fst s) j) pl))"

definition sys_inv :: "sys_state \<Rightarrow> bool" where
  "sys_inv s \<longleftrightarrow> mq_wf (fst s) \<and> fair_range (rt (fst s)) \<and>
     pointers_ok (fst s) \<and> hands_ok s \<and> places_ok s"

lemma sys_inv_init: "sys_init s \<Longrightarrow> sys_inv s"
  using mq_inv_New [of "heap (fst s)" "next_ref (fst s)"]
  by (auto simp: sys_init_def sys_inv_def pointers_ok_def hands_ok_def places_ok_def
      occurrences_def NewMemoryStorage_def NewMemoryQueue_def map_get_list_def)

text \<open>
  A step that moves one job \<open>jid\<close>, whose object is \<open>j\<close>, and leaves all others where and as they are.
\<close>

lemma places_move:
  assumes "places_ok s"
    and "\<And>x. x \<noteq> jid \<Longrightarrow> map_get (jobs (storage (fst s'))) x = map_get (jobs (storage (fst s))) x"
    and "\<And>x. x \<noteq> jid \<Longrightarrow> occurrences s' x = occurrences s x"
    and "\<And>x i. x \<noteq> jid \<Longrightarrow> map_get (jobs (storage (fst s))) x = Some i \<Longrightarrow>
      heap (fst s') i = heap (fst s) i"
    and "map_get (jobs (storage (fst s'))) jid = Some j" and "job_at s' jid (heap (fst s') j) pl"
  shows "places_ok s'"
  unfolding places_ok_def
proof (intro conjI allI impI, goal_cases)
  case (1 x)
  then have "x \<noteq> jid" using assms(5) by auto
  then show ?case using 1 assms(1) assms(2,3) [of x] by (simp add: places_ok_def)
next
  case (2 x i)
  show ?case
  proof (cases "x = jid")
    case True
    then show ?thesis using 2 assms(5,6) by auto
  next
    case False
    then have "map_get (jobs (storage (fst s))) x = Some i" using 2 assms(2) by simp
    then show ?thesis using assms(1) assms(3,4) [OF False]
      unfolding places_ok_def job_at_def by metis
  qed
qed

text \<open>A step that does not touch the jobs.\<close>

lemma sys_inv_cong:
  assumes "sys_inv (w, fl)" and "rt w' = rt w" "uuids w' = uuids w" "next_ref w' = next_ref w"
    "heap w' = heap w" "queue w' = queue w" "jobs (storage w') = jobs (storage w)"
  shows "sys_inv (w', fl)"
proof -
  have "occurrences (w', fl) jid = occurrences (w, fl) jid" for jid
    using assms by (simp add: occurrences_def)
  then have "job_at (w', fl) = job_at (w, fl)" "occurrences (w', fl) = occurrences (w, fl)"
    by (auto simp: job_at_def fun_eq_iff)
  then show ?thesis using assms
    by (simp add: sys_inv_def pointers_ok_def hands_ok_def places_ok_def)
qed

lemma place_of:
  assumes "sys_inv s" and "map_get (jobs (storage (fst s))) jid = Some j"
  obtains pl where "job_at s jid (heap (fst s) j) pl"
  using assms unfolding sys_inv_def places_ok_def by blast

text \<open>The places as numbers, for the steps that know which of them is not zero.\<close>

lemma job_at_Ready:
  assumes "job_at s jid J pl" and "jid \<in> set (map_get_list (queues (queue (fst s))) p)"
  shows "pl = Ready" and "p = Job_Priority J"
  using assms by (cases pl; force simp: job_at_def occurrences_def Let_def count_eq_zero_iff
      dest!: fun_cong [where x = p] split: if_splits)+

lemma job_at_Waiting:
  "job_at s jid J pl \<Longrightarrow> map_get (delayedJobs (queue (fst s))) jid \<noteq> None \<Longrightarrow> pl = Waiting"
  by (cases pl) (auto simp: job_at_def occurrences_def Let_def)

lemma job_at_InHand:
  "job_at s (Job_ID (heap (fst s) j)) J pl \<Longrightarrow> j \<in> set (snd s) \<Longrightarrow> pl = InHand"
  by (cases pl) (auto simp: job_at_def occurrences_def Let_def count_eq_zero_iff)

section \<open>Scheduling\<close>

lemma mock_prints [wp_simps]:
  "wp (Log_Info MockLogger c msg fs) Q w \<longleftrightarrow>
     Q () (w\<lparr>stdout := stdout w @ [(''[INFO] %s %v'', [FmtStr msg, FmtFields fs])]\<rparr>)"
  "wp (Log_Warn MockLogger c msg fs) Q w \<longleftrightarrow>
     Q () (w\<lparr>stdout := stdout w @ [(''[WARN] %s %v'', [FmtStr msg, FmtFields fs])]\<rparr>)"
  "wp (Log_Error MockLogger c msg fs) Q w \<longleftrightarrow>
     Q () (w\<lparr>stdout := stdout w @ [(''[ERROR] %s %v'', [FmtStr msg, FmtFields fs])]\<rparr>)"
  by (simp_all add: MockLogger_def wp_simps)

lemma mock_metrics_print [wp_simps]:
  "wp (IncrementJobsScheduled MockMetrics ty p) Q w \<longleftrightarrow> Q () (w\<lparr>stdout := stdout w @
     [(''[METRICS] Job scheduled: %s/%s'', [FmtStr ty, FmtStr (Priority_String p)])]\<rparr>)"
  "wp (IncrementJobsCompleted MockMetrics ty p d) Q w \<longleftrightarrow> Q () (w\<lparr>stdout := stdout w @
     [(''[METRICS] Job completed: %s/%s in %v'', [FmtStr ty, FmtStr (Priority_String p), FmtDur d])]\<rparr>)"
  "wp (IncrementJobsFailed MockMetrics ty p reason) Q w \<longleftrightarrow> Q () (w\<lparr>stdout := stdout w @
     [(''[METRICS] Job failed: %s/%s - %s'', [FmtStr ty, FmtStr (Priority_String p), FmtStr reason])]\<rparr>)"
  "wp (IncrementJobsRetried MockMetrics ty p) Q w \<longleftrightarrow> Q () (w\<lparr>stdout := stdout w @
     [(''[METRICS] Job retried: %s/%s'', [FmtStr ty, FmtStr (Priority_String p)])]\<rparr>)"
  "wp (IncrementJobsDeadLettered MockMetrics ty p) Q w \<longleftrightarrow> Q () (w\<lparr>stdout := stdout w @
     [(''[METRICS] Job dead lettered: %s/%s'', [FmtStr ty, FmtStr (Priority_String p)])]\<rparr>)"
  by (simp_all add: MockMetrics_def wp_simps)

lemma memory_scheduler_sel [simp]:
  "Sched_storage memory_scheduler = memory_storage" "Sched_queue memory_scheduler = memory_queue"
  "Sched_metrics memory_scheduler = MockMetrics" "Sched_logger memory_scheduler = MockLogger"
  by (simp_all add: memory_scheduler_def NewSchedulerService_def)

text \<open>What a job in state \<open>J\<close>, with object \<open>j\<close>, adds to the queue when it is scheduled.\<close>

definition put_job :: "Job \<Rightarrow> job_ref \<Rightarrow> MemoryQueue \<Rightarrow> MemoryQueue" where
  "put_job J j q = (let q' = q\<lparr>jobStorage := map_put (jobStorage q) (Job_ID J) j\<rparr> in
     if Job_Status J = StatusScheduled
     then q'\<lparr>delayedJobs := map_put (delayedJobs q) (Job_ID J) (Job_ScheduledAt J)\<rparr>
     else push_ready (Job_Priority J) (Job_ID J) q')"

lemma enqueueJob_effect:
  fixes w :: mem_world
  shows "wp (enqueueJob memory_scheduler c j) (\<lambda>r w'. r = None \<and> rt w' = rt w \<and> uuids w' = uuids w \<and>
    heap w' = heap w \<and> next_ref w' = next_ref w \<and> storage w' = storage w \<and>
    queue w' = put_job (heap w j) j (queue w)) w"
  by (auto simp: enqueueJob_def wp_simps put_job_def)

lemma schedule_effect:
  fixes w :: mem_world
  defines "jid \<equiv> uuid_New (rt w) (uuids w)" and "j \<equiv> next_ref w"
  shows "wp (SchedulerService_ScheduleJob memory_scheduler c req) (\<lambda>r w'.
    requested_job (rt w) (clock (rt w) (ticks w + 3)) jid req (heap w' j) \<and>
    (\<forall>i. i \<noteq> j \<longrightarrow> heap w' i = heap w i) \<and> next_ref w' = Suc j \<and> rt w' = rt w \<and>
    uuids w' = Suc (uuids w) \<and> jobs (storage w') = map_put (jobs (storage w)) jid j \<and>
    history (storage w') = history (storage w) \<and> queue w' = put_job (heap w' j) j (queue w)) w"
  unfolding SchedulerService_ScheduleJob_def wp_bind memory_scheduler_sel memory_storage_sel ms_SaveJob_run
    option.case
proof (rule wp_mono [OF create_job_rule], elim conjE, rule wp_mono [OF enqueueJob_effect], goal_cases)
  case (1 j' w1 r w2)
  moreover from this have "Job_ID (heap w1 j') = jid" by (simp add: requested_job_def jid_def)
  ultimately show ?case by (simp add: wp_simps j_def jid_def)
qed

lemma fresh_unstored:
  assumes "sys_inv (w, fl)" and "fresh_uuid w"
  shows "map_get (jobs (storage w)) (uuid_New (rt w) (uuids w)) = None"
  using assms unfolding sys_inv_def pointers_ok_def fst_conv fresh_uuid_def by (metis not_None_eq)

lemma occurrences_put_job:
  assumes "queue (fst s') = put_job J j (queue (fst s))" and "snd s' = snd s"
    and "\<And>i. i \<in> set (snd s) \<Longrightarrow> Job_ID (heap (fst s') i) = Job_ID (heap (fst s) i)"
  shows "x \<noteq> Job_ID J \<Longrightarrow> occurrences s' x = occurrences s x"
    and "occurrences s (Job_ID J) = only_at None 0 \<Longrightarrow> occurrences s' (Job_ID J) =
      only_at (Some (if Job_Status J = StatusScheduled then Waiting else Ready)) (Job_Priority J)"
proof -
  have "map (\<lambda>i. Job_ID (heap (fst s') i)) (snd s') = map (\<lambda>i. Job_ID (heap (fst s) i)) (snd s)"
    using assms(2,3) by simp
  then show "x \<noteq> Job_ID J \<Longrightarrow> occurrences s' x = occurrences s x"
    and "occurrences s (Job_ID J) = only_at None 0 \<Longrightarrow> occurrences s' (Job_ID J) =
      only_at (Some (if Job_Status J = StatusScheduled then Waiting else Ready)) (Job_Priority J)"
    using assms(1) by (auto simp: occurrences_def put_job_def Let_def fun_eq_iff simp del: mset_map)
qed

lemma sys_inv_schedule:
  assumes inv: "sys_inv (w, fl)" and fresh: "fresh_uuid w"
    and run: "run_state (SchedulerService_ScheduleJob memory_scheduler c req) w = (r, w')"
  shows "sys_inv (w', fl)"
proof -
  let ?jid = "uuid_New (rt w) (uuids w)" and ?j = "next_ref w"
  let ?J = "heap w' ?j"
  have wf: "mq_wf w" and ptr: "pointers_ok w" and hands: "hands_ok (w, fl)" and places: "places_ok (w, fl)"
    using inv by (simp_all add: sys_inv_def)
  note eff = wpD [OF schedule_effect run]
  have J: "requested_job (rt w) (clock (rt w) (ticks w + 3)) ?jid req ?J" using eff by blast
  then have jid: "Job_ID ?J = ?jid" and status: "Job_Status ?J \<in> {StatusPending, StatusScheduled}"
    by (auto simp: requested_job_def split: option.splits)
  have others: "heap w' i = heap w i" if "map_get (jobs (storage w)) x = Some i" for x i
  proof -
    have "i < next_ref w" using ptr that unfolding pointers_ok_def by blast
    then show ?thesis using eff by simp
  qed
  have hand: "heap w' i = heap w i" if "i \<in> set fl" for i
    using hands that unfolding hands_ok_def by (auto intro: others)
  have nowhere: "occurrences (w, fl) ?jid = only_at None 0"
    using fresh_unstored [OF inv fresh] places by (simp add: places_ok_def)
  note occ = occurrences_put_job [of "(w', fl)" ?J ?j "(w, fl)"]
  have "mq_wf w'"
    using wpD [OF mb.ScheduleJob_rule [OF wf] run] by auto
  moreover have "pointers_ok w'"
    using ptr eff jid others fresh_unstored [OF inv fresh]
    by (auto simp: pointers_ok_def put_job_def Let_def less_Suc_eq lessThan_Suc split: if_splits)
  moreover have "hands_ok (w', fl)"
    using hands hand eff fresh_unstored [OF inv fresh] by (auto simp: hands_ok_def)
  moreover have "places_ok (w', fl)"
  proof (rule places_move [OF places, of ?jid _ ?j "if Job_Status ?J = StatusScheduled then Waiting else Ready"],
      goal_cases)
    case (2 x)
    then show ?case using occ(1) eff hand jid by simp
  next
    case 5
    have "occurrences (w', fl) ?jid =
        only_at (Some (if Job_Status ?J = StatusScheduled then Waiting else Ready)) (Job_Priority ?J)"
      using occ(2) eff hand jid nowhere by simp
    then show ?case using status by (auto simp: job_at_def)
  qed (use eff others in auto)
  ultimately show ?thesis using inv eff by (simp add: sys_inv_def)
qed

section \<open>Promotion\<close>

lemma promoted_id: "promoted ids w w' \<Longrightarrow> Job_ID (heap w' j) = Job_ID (heap w j)"
  by (simp add: promoted_def)

lemma occurrences_promoted:
  assumes "promoted ids w w'" and "distinct ids"
  shows "occurrences (w', fl) jid =
    (\<lambda>p. count (mset (map_get_list (queues (queue w)) p)) jid +
       (if jid \<in> set ids \<and> stored_priority w jid = p then 1 else 0),
     jid \<notin> set ids \<and> map_get (delayedJobs (queue w)) jid \<noteq> None,
     count (mset (deadLetter (queue w))) jid, count (mset (map (\<lambda>j. Job_ID (heap w j)) fl)) jid)"
proof -
  have "count (mset ids) jid = (if jid \<in> set ids then 1 else 0)"
    using assms(2) by (simp add: distinct_count_atmost_1)
  then show ?thesis using assms(1) promoted_id [OF assms(1)]
    by (simp add: occurrences_def promoted_ready promoted_delayed fun_eq_iff) (simp add: promoted_def)
qed

text \<open>The object of a delayed job is the one that the storage shows.\<close>

lemma delayed_object:
  assumes "sys_inv (w, fl)" and "map_get (delayedJobs (queue w)) x \<noteq> None"
  obtains j where "map_get (jobStorage (queue w)) x = Some j" "map_get (jobs (storage w)) x = Some j"
proof -
  obtain j where "map_get (jobStorage (queue w)) x = Some j"
    using assms by (auto simp: sys_inv_def dest: mq_delayed_stored)
  moreover from this have "map_get (jobs (storage w)) x = Some j"
    using assms(1) by (simp add: sys_inv_def pointers_ok_def)
  ultimately show thesis by (rule that)
qed

lemma job_at_promoted:
  assumes inv: "sys_inv (w, fl)" and p: "promoted ids w w'" and d: "distinct ids"
    and due: "\<And>x. x \<in> set ids \<Longrightarrow> map_get (delayedJobs (queue w)) x \<noteq> None"
    and x: "map_get (jobs (storage w)) x = Some j"
  shows "\<exists>pl. job_at (w', fl) x (heap w' j) pl"
proof (cases "x \<in> set ids")
  case True
  obtain pl where at: "job_at (w, fl) x (heap w j) pl" using place_of [OF inv] x by auto
  then have "pl = Waiting" using due [OF True] job_at_Waiting [OF at] by simp
  have obj: "map_get (jobStorage (queue w)) x = Some j"
    using delayed_object [OF inv due [OF True]] x by auto
  then have "heap w' j = (heap w j)\<lparr>Job_Status := StatusPending\<rparr>"
    using p True by (auto simp: promoted_def)
  moreover have "occurrences (w', fl) x = only_at (Some Ready) (Job_Priority (heap w j))"
    using at True obj \<open>pl = Waiting\<close>
    by (auto simp: occurrences_promoted [OF p d] stored_priority_def job_at_def)
      (auto simp: occurrences_def fun_eq_iff Let_def)
  ultimately have "job_at (w', fl) x (heap w' j) Ready" by (simp add: job_at_def)
  then show ?thesis by blast
next
  case False
  obtain pl where at: "job_at (w, fl) x (heap w j) pl" using place_of [OF inv] x by auto
  have "map_get (jobStorage (queue w)) y \<noteq> Some j" if y: "y \<in> set ids" for y
    using inv x False y unfolding sys_inv_def pointers_ok_def fst_conv by metis
  then have "heap w' j = heap w j" using p by (auto simp: promoted_def)
  moreover have "occurrences (w', fl) x = occurrences (w, fl) x"
    using False by (simp add: occurrences_promoted [OF p d]) (simp add: occurrences_def)
  ultimately have "job_at (w', fl) x (heap w' j) pl" using at by (simp add: job_at_def)
  then show ?thesis by blast
qed

lemma sys_inv_promote:
  assumes inv: "sys_inv (w, fl)" and run: "run_state (ProcessDelayedJobs memory_queue c) w = (r, w')"
  shows "sys_inv (w', fl)"
proof -
  have wf: "mq_wf w" and ptr: "pointers_ok w" and hands: "hands_ok (w, fl)" and places: "places_ok (w, fl)"
    and fair: "fair_range (rt w)" using inv by (simp_all add: sys_inv_def)
  from wpD [OF ProcessDelayedJobs_promoted [OF wf fair]] run obtain ids where
    wf': "mq_wf w'" and d: "distinct ids" and p: "promoted ids w w'" and
    due: "\<And>x. x \<in> set ids \<Longrightarrow> map_get (delayedJobs (queue w)) x \<noteq> None"
    by fastforce
  have same: "rt w' = rt w" "uuids w' = uuids w" "next_ref w' = next_ref w" "storage w' = storage w"
    "jobStorage (queue w') = jobStorage (queue w)" using p by (simp_all add: promoted_def)
  have "occurrences (w', fl) x = only_at None 0" if none: "map_get (jobs (storage w)) x = None" for x
  proof -
    have "x \<notin> set ids"
    proof
      assume "x \<in> set ids"
      from delayed_object [OF inv due [OF this]] none show False by auto
    qed
    moreover have "occurrences (w, fl) x = only_at None 0" using places none by (simp add: places_ok_def)
    ultimately show ?thesis by (simp add: occurrences_promoted [OF p d]) (simp add: occurrences_def)
  qed
  then have "places_ok (w', fl)"
    unfolding places_ok_def fst_conv same
    by (intro conjI allI impI) (simp_all only: job_at_promoted [OF inv p d due])
  moreover have "pointers_ok w'" "hands_ok (w', fl)"
    using ptr hands promoted_id [OF p] by (simp_all add: pointers_ok_def hands_ok_def same)
  ultimately show ?thesis using inv wf' by (simp add: sys_inv_def same)
qed

section \<open>Taking a job\<close>

lemma sys_inv_take:
  assumes inv: "sys_inv (w, fl)" and run: "run_state (Dequeue memory_queue c ps) w = (Inr (Some j), w')"
  shows "sys_inv (w', j # fl)"
proof -
  have wf: "mq_wf w" and ptr: "pointers_ok w" and hands: "hands_ok (w, fl)" and places: "places_ok (w, fl)"
    using inv by (simp_all add: sys_inv_def)
  from wf show ?thesis
  proof (cases rule: dequeue_cases [of w ps])
    case none
    then show ?thesis using run by (simp add: MemoryQueue_Dequeue_def)
  next
    case (some pre p post jid rest j' w1)
    then have w': "j' = j" "w' = w1" using run by (simp_all add: MemoryQueue_Dequeue_def)
    have q: "queue w' = (queue w)\<lparr>queues := map_put (queues (queue w)) p rest\<rparr>" "heap w' = heap w"
      "storage w' = storage w" "rt w' = rt w" "uuids w' = uuids w" "next_ref w' = next_ref w"
      using some(7) by (simp_all add: w')
    have jid: "Job_ID (heap w j) = jid" using some(6) by (simp add: w'(1))
    have stored: "map_get (jobs (storage w)) jid = Some j"
      using ptr some(4) by (simp add: pointers_ok_def w')
    obtain pl where at: "job_at (w, fl) jid (heap w j) pl" using place_of [OF inv] stored by auto
    then have "pl = Ready" "p = Job_Priority (heap w j)"
      using job_at_Ready [OF at, of p] some(3) by simp_all
    then have "job_at (w', j # fl) jid (heap w' j) InHand"
      using at some(3) jid by (auto simp: job_at_def occurrences_def q fun_eq_iff split: if_splits)
    moreover have "occurrences (w', j # fl) x = occurrences (w, fl) x" if "x \<noteq> jid" for x
      using some(3) jid that by (auto simp: occurrences_def q fun_eq_iff)
    ultimately have "places_ok (w', j # fl)"
      by (intro places_move [OF places, of jid _ j InHand]) (simp_all add: q stored)
    moreover have "mq_wf w'" using mq_inv_pop [OF wf some(3)] by (simp add: q)
    ultimately show ?thesis using inv hands stored jid
      by (auto simp: sys_inv_def pointers_ok_def hands_ok_def q)
  qed
qed

section \<open>Processing a job\<close>

lemma wp_quiet:
  assumes "quiet m" and "\<And>r w'. rt w' = rt w \<Longrightarrow> uuids w' = uuids w \<Longrightarrow> next_ref w' = next_ref w \<Longrightarrow>
    heap w' = heap w \<Longrightarrow> storage w' = storage w \<Longrightarrow> queue w' = queue w \<Longrightarrow> Q r w'"
  shows "wp m Q w"
proof (rule wpI)
  fix r w' assume "run_state m w = (r, w')"
  from quietD [OF assms(1) this] show "Q r w'" by (intro assms(2)) simp_all
qed

text \<open>What processing does to the tables of the adapters: the job keeps its object in both.\<close>

definition kept_tables :: "job_ref \<Rightarrow> mem_world \<Rightarrow> mem_world \<Rightarrow> bool" where
  "kept_tables j w w' \<longleftrightarrow> next_ref w' = next_ref w \<and> uuids w \<le> uuids w' \<and>
     map_get (jobs (storage w')) = (map_get (jobs (storage w)))(Job_ID (heap w j) \<mapsto> j) \<and>
     (map_get (jobStorage (queue w')) = map_get (jobStorage (queue w)) \<or>
      map_get (jobStorage (queue w')) = (map_get (jobStorage (queue w)))(Job_ID (heap w j) \<mapsto> j))"

lemma kept_tables_trans:
  "kept_tables j w w1 \<Longrightarrow> Job_ID (heap w1 j) = Job_ID (heap w j) \<Longrightarrow> kept_tables j w1 w' \<Longrightarrow> kept_tables j w w'"
  by (auto simp: kept_tables_def)

lemma settle_job_tables:
  assumes "map_get (jobs (storage w)) (Job_ID (heap w j)) = Some j"
  shows "wp (settle_job (memory_processor hs) c j h err) (\<lambda>r w'. kept_tables j w w') w"
proof (cases err)
  case None
  then show ?thesis using assms
    by (simp add: settle_job_def handleJobSuccess_def wp_simps mark_defs Let_def kept_tables_def
        fun_eq_iff)
next
  case (Some e)
  then show ?thesis using assms
    by (simp add: settle_job_def handleJobFailure_def schedule_retry_def bury_def next_retry_at_def
        wp_simps mark_defs Let_def kept_tables_def fun_eq_iff)
qed

lemma ProcessJob_tables:
  fixes w :: mem_world
  assumes "map_get (jobs (storage w)) (Job_ID (heap w j)) = Some j" and "quiet_handlers hs"
  shows "wp (ProcessJob (memory_processor hs) c j workerID) (\<lambda>r w'. kept_tables j w w') w"
  unfolding ProcessJob_def run_job_def
proof (simp add: wp_simps mark_defs assms(1) Let_def, rule wp_quiet [OF quiet_executeJob [OF assms(2)]],
    unfold wp_now, rule wp_mono [OF settle_job_tables], goal_cases)
  case 1
  then show ?case by (simp add: assms(1))
next
  case 2
  then show ?case by (auto simp: kept_tables_def)
qed

text \<open>After \<open>ProcessJob\<close> a job that was in the hands of a worker is at the place of its status.\<close>

lemma processed_place:
  assumes at: "job_at (w, pre @ j # post) jid (heap w j) InHand" and jid: "Job_ID (heap w j) = jid"
    and J: "started_as workerID (heap w j) J" and run: "mp.job_run hs workerID j J w r w'"
    and hands: "\<And>i. i \<in> set (pre @ post) \<Longrightarrow> Job_ID (heap w' i) = Job_ID (heap w i)"
  shows "\<exists>pl. job_at (w', pre @ post) jid (heap w' j) pl"
    and "x \<noteq> jid \<Longrightarrow> occurrences (w', pre @ post) x = occurrences (w, pre @ j # post) x"
proof -
  have id: "Job_ID J = jid" "Job_Priority J = Job_Priority (heap w j)"
    using J jid by (auto simp: started_as_def)
  have map: "map (\<lambda>i. Job_ID (heap w' i)) (pre @ post) = map (\<lambda>i. Job_ID (heap w i)) (pre @ post)"
    using hands by simp
  have hand: "count (mset (map (\<lambda>i. Job_ID (heap w i)) (pre @ post))) jid = 0"
    using at jid by (simp add: job_at_def occurrences_def)
  have before: "\<And>p. jid \<notin> set (map_get_list (queues (queue w)) p)"
    "map_get (delayedJobs (queue w)) jid = None" "count (mset (deadLetter (queue w))) jid = 0"
    using at by (auto simp: job_at_def occurrences_def fun_eq_iff)
  let ?pl = "case r of None \<Rightarrow> Done | Some e \<Rightarrow> if attempt_left (Job_RetryPolicy J) then Waiting else Buried"
  have "Job_Status (heap w' j) = status_at ?pl" and "Job_Priority (heap w' j) = Job_Priority (heap w j)"
    using run id(2) by (auto simp: mp.job_run_def mp.failed_to_def completed_as_def retried_as_def
        died_as_def split: option.splits if_splits)
  moreover have "occurrences (w', pre @ post) jid = only_at (Some ?pl) (Job_Priority (heap w j))"
    unfolding occurrences_def fst_conv snd_conv map hand
    using run before id(1)
    by (auto simp: mp.job_run_def mp.failed_to_def fun_eq_iff split: option.splits if_splits)
  ultimately have "job_at (w', pre @ post) jid (heap w' j) ?pl" by (simp add: job_at_def)
  then show "\<exists>pl. job_at (w', pre @ post) jid (heap w' j) pl" by blast
  show "occurrences (w', pre @ post) x = occurrences (w, pre @ j # post) x" if "x \<noteq> jid"
    unfolding occurrences_def fst_conv snd_conv map
    using run that id(1) jid
    by (auto simp: mp.job_run_def mp.failed_to_def fun_eq_iff split: option.splits if_splits)
qed

lemma pointerD:
  assumes "pointers_ok w" and "map_get (jobs (storage w)) x = Some j"
  shows "j < next_ref w" and "Job_ID (heap w j) = x"
  using assms unfolding pointers_ok_def by blast+

lemma pointers_kept:
  assumes "pointers_ok w" and "kept_tables j w w'" and "only_job j w w'"
    and "map_get (jobs (storage w)) (Job_ID (heap w j)) = Some j"
  shows "map_get (jobs (storage w')) = map_get (jobs (storage w))" and "pointers_ok w'"
proof -
  show jobs: "map_get (jobs (storage w')) = map_get (jobs (storage w))"
    using assms(2,4) by (auto simp: kept_tables_def fun_eq_iff)
  have "{..<uuids w} \<subseteq> {..<uuids w'}" and rt: "rt w' = rt w"
    using assms(2,3) by (auto simp: kept_tables_def only_job_def)
  then have sub: "uuid_New (rt w) ` {..<uuids w} \<subseteq> uuid_New (rt w') ` {..<uuids w'}" by auto
  have "i < next_ref w' \<and> Job_ID (heap w' i) = x \<and> x \<in> uuid_New (rt w') ` {..<uuids w'}"
    if x: "map_get (jobs (storage w)) x = Some i" for x i
  proof (intro conjI)
    have i: "i < next_ref w" by (rule pointerD(1) [OF assms(1) x])
    then show "i < next_ref w'" using assms(2) by (simp add: kept_tables_def)
    show "Job_ID (heap w' i) = x" using only_job_ID [OF assms(3) i] pointerD(2) [OF assms(1) x] by simp
    show "x \<in> uuid_New (rt w') ` {..<uuids w'}" using assms(1) x sub unfolding pointers_ok_def by blast
  qed
  moreover have "map_get (jobs (storage w)) x = Some i" if x: "map_get (jobStorage (queue w')) x = Some i" for x i
  proof (cases "map_get (jobStorage (queue w)) x = Some i")
    case True
    then show ?thesis using assms(1) by (simp add: pointers_ok_def)
  next
    case False
    then have "x = Job_ID (heap w j)" "i = j"
      using assms(2) x by (auto simp: kept_tables_def split: if_splits)
    then show ?thesis using assms(4) by simp
  qed
  ultimately show "pointers_ok w'" unfolding pointers_ok_def jobs by blast
qed

lemma sys_inv_work:
  assumes inv: "sys_inv (w, pre @ j # post)" and quiet: "quiet_handlers hs"
    and run: "run_state (ProcessJob (memory_processor hs) c j workerID) w = (r, w')"
  shows "sys_inv (w', pre @ post)"
proof -
  let ?jid = "Job_ID (heap w j)"
  have wf: "mq_wf w" and ptr: "pointers_ok w" and hands: "hands_ok (w, pre @ j # post)"
    and places: "places_ok (w, pre @ j # post)" using inv by (simp_all add: sys_inv_def)
  have stored: "map_get (jobs (storage w)) ?jid = Some j" using hands by (simp add: hands_ok_def)
  have "j < next_ref w" by (rule pointerD(1) [OF ptr stored])
  then obtain J where J: "started_as workerID (heap w j) J" "mp.job_run hs workerID j J w r w'"
    using ProcessJob_run [OF wf _ _ quiet run] stored by auto
  then have only: "only_job j w w'" and wf': "mq_wf w'" by (simp_all add: mp.job_run_def)
  have tables: "kept_tables j w w'" using wpD [OF ProcessJob_tables [OF stored quiet] run] .
  note kept = pointers_kept [OF ptr tables only stored]
  have hand_id: "Job_ID (heap w' i) = Job_ID (heap w i)" if "i \<in> set (pre @ post)" for i
  proof -
    have "map_get (jobs (storage w)) (Job_ID (heap w i)) = Some i"
      using hands that by (auto simp: hands_ok_def)
    then show ?thesis by (intro only_job_ID [OF only] pointerD(1) [OF ptr])
  qed
  obtain pl0 where at: "job_at (w, pre @ j # post) ?jid (heap w j) pl0"
    using place_of [OF inv] stored by auto
  then have "pl0 = InHand" using job_at_InHand [of "(w, pre @ j # post)" j] by simp
  note moved = processed_place [OF at [unfolded this] refl J hand_id]
  obtain pl where pl: "job_at (w', pre @ post) ?jid (heap w' j) pl" using moved(1) by blast
  have "places_ok (w', pre @ post)"
  proof (rule places_move [OF places, of ?jid _ j pl], goal_cases)
    case (3 x i)
    then have i: "map_get (jobs (storage w)) x = Some i" by simp
    have "i \<noteq> j" using 3(1) pointerD(2) [OF ptr i] by auto
    then show ?case using only pointerD(1) [OF ptr i] by (simp add: only_job_def)
  qed (use kept(1) moved(2) stored pl in simp_all)
  moreover have "hands_ok (w', pre @ post)"
    using hands hand_id kept(1) by (auto simp: hands_ok_def)
  ultimately show ?thesis using inv wf' kept(2) only by (simp add: sys_inv_def only_job_def)
qed

section \<open>Conservation of jobs\<close>

lemma sys_inv_step:
  assumes "sys_step hs ok s s'" and "quiet_handlers hs" and "sys_inv s"
  shows "sys_inv s'"
  using assms
proof (induction rule: sys_step.induct)
  case (register c wk w r w' fl)
  then show ?case
    by (intro sys_inv_cong [of w fl w'])
      (auto simp: MemoryStorage_RegisterWorker_def modify_storage_def printf_def)
next
  case (heartbeat c workerID w r w' fl)
  then show ?case
    by (intro sys_inv_cong [of w fl w'])
      (auto simp: MemoryStorage_UpdateWorkerHeartbeat_def modify_storage_def printf_def now_def split: option.splits)
next
  case (deactivate c d w r w' fl)
  then show ?case
    by (intro sys_inv_cong [of w fl w'])
      (auto simp: MemoryStorage_DeactivateStaleWorkers_def modify_storage_def printf_def now_def
        range_map_def split: prod.splits if_splits)
qed (blast intro: sys_inv_schedule sys_inv_promote sys_inv_take sys_inv_work)+

lemma reachable_inv:
  assumes "reachable hs ok s" and "quiet_handlers hs"
  shows "sys_inv s"
  using assms by (induction rule: reachable.induct) (auto intro: sys_inv_init sys_inv_step)

text \<open>
  C1: no job is lost, duplicated or misplaced. In every state that the system can reach, by clients
  scheduling jobs, the ticker promoting them, and any number of workers taking and processing them in
  any order, every job of the storage is at exactly one place, and there once: in the ready queue of
  its priority, in the hands of one worker, among the delayed jobs, among the dead letters, or, when it
  is done, nowhere; its status says which; and no queue holds an identifier that the storage does not
  know.
\<close>

theorem jobs_conserved:
  assumes "quiet_handlers hs" and "reachable hs ok s"
  shows "case map_get (jobs (storage (fst s))) jid of
      None \<Rightarrow> occurrences s jid = only_at None 0
    | Some j \<Rightarrow> Job_ID (heap (fst s) j) = jid \<and> (\<exists>!pl. job_at s jid (heap (fst s) j) pl)"
proof (cases "map_get (jobs (storage (fst s))) jid")
  case None
  then show ?thesis using reachable_inv [OF assms(2,1)] by (simp add: sys_inv_def places_ok_def)
next
  case (Some j)
  have inv: "sys_inv s" by (rule reachable_inv [OF assms(2,1)])
  obtain pl where pl: "job_at s jid (heap (fst s) j) pl" by (rule place_of [OF inv Some])
  have "pl' = pl" if "job_at s jid (heap (fst s) j) pl'" for pl'
    by (rule only_at_inj [of _ "Job_Priority (heap (fst s) j)"]) (use that pl in \<open>simp add: job_at_def\<close>)
  then show ?thesis using pl Some inv pointerD(2) [OF _ Some] by (auto simp: sys_inv_def)
qed

text \<open>A first step, to evaluate examples with.\<close>

definition first_state :: sys_state where
  "first_state = (snd (run_state (SchedulerService_ScheduleJob memory_scheduler \<lparr>deadline = None\<rparr>
     example_request) empty_world), [])"

lemma first_state_laws:
  "ok example_request \<Longrightarrow> reachable hs ok first_state"
  "map_get (jobs (storage (fst first_state))) 100 = Some 0"
  "fst first_state = w' \<Longrightarrow> requested_job demo_runtime 3000 100 example_request (heap w' 0) \<and>
     rt w' = demo_runtime"
proof -
  let ?run = "run_state (SchedulerService_ScheduleJob memory_scheduler \<lparr>deadline = None\<rparr> example_request)
    empty_world"
  have "sys_init (empty_world, [])"
    using demo_runtime_laws by (simp add: sys_init_def empty_world_def)
  moreover have run: "?run = (fst ?run, fst first_state)" by (simp add: first_state_def)
  have fresh: "fresh_uuid empty_world" by (simp add: fresh_uuid_def empty_world_def)
  have "sys_step hs ok (empty_world, []) first_state" if "ok example_request"
    using sys_step.schedule [of ok, OF that fresh run, of hs "[]"] by (simp add: first_state_def)
  ultimately show "ok example_request \<Longrightarrow> reachable hs ok first_state" by (blast intro: reachable.intros)
  show "map_get (jobs (storage (fst first_state))) 100 = Some 0"
    using wpD [OF schedule_effect run] by (simp add: empty_world_def demo_runtime_def)
  show "requested_job demo_runtime 3000 100 example_request (heap w' 0) \<and> rt w' = demo_runtime"
    if "fst first_state = w'"
    using wpD [OF schedule_effect run] that by (simp add: empty_world_def demo_runtime_def)
qed

theorem jobs_conserved_witness:
  "\<exists>!pl. job_at first_state 100 (heap (fst first_state) 0) pl"
proof -
  have "quiet_handlers ([] :: (MemoryStorage, MemoryQueue) JobHandler list)"
    by (simp add: quiet_handlers_def)
  from jobs_conserved [OF this first_state_laws(1) [of "\<lambda>_. True", OF TrueI], of 100] first_state_laws(2)
  show ?thesis by simp
qed

section \<open>The retry budget\<close>

text \<open>
  \<open>n\<close> executions are what the policy of a job in this state allows: every execution is recorded,
  every failed one is counted by the policy, and a job is given up when they are used up. A limit of
  zero still allows the first execution.
\<close>

definition within_budget :: "Job \<Rightarrow> nat \<Rightarrow> bool" where
  "within_budget J n \<longleftrightarrow> (let rp = Job_RetryPolicy J; m = max 1 (sint (MaxAttempts rp)) in
     0 \<le> sint (MaxAttempts rp) \<and> 0 \<le> sint (CurrentAttempts rp) \<and>
     (if Job_Status J = StatusCompleted then int n = sint (CurrentAttempts rp) + 1 \<and> int n \<le> m
      else int n = sint (CurrentAttempts rp) \<and> (if Job_Status J = StatusDead then int n = m else int n < m)))"

definition sound_policy :: "RetryPolicy \<Rightarrow> bool" where
  "sound_policy rp \<longleftrightarrow> CurrentAttempts rp = 0 \<and> 0 \<le> sint (MaxAttempts rp)"

definition sound_request :: "ScheduleJobRequest \<Rightarrow> bool" where
  "sound_request req \<longleftrightarrow> (case Req_RetryPolicy req of Some rp \<Rightarrow> sound_policy rp | None \<Rightarrow> True)"

definition sound_default :: "runtime \<Rightarrow> bool" where
  "sound_default r \<longleftrightarrow> sound_policy (NewRetryPolicy (frac_ns r) (os_Getenv r))"

abbreviation executions :: "mem_world \<Rightarrow> uuid \<Rightarrow> nat" where
  "executions w jid \<equiv> length (map_get_list (history (storage w)) jid)"

definition budget_ok :: "mem_world \<Rightarrow> bool" where
  "budget_ok w \<longleftrightarrow>
     (\<forall>jid. map_get (jobs (storage w)) jid = None \<longrightarrow> executions w jid = 0) \<and>
     (\<forall>jid j. map_get (jobs (storage w)) jid = Some j \<longrightarrow> within_budget (heap w j) (executions w jid))"

lemma budget_okD:
  "budget_ok w \<Longrightarrow> map_get (jobs (storage w)) jid = None \<Longrightarrow> executions w jid = 0"
  "budget_ok w \<Longrightarrow> map_get (jobs (storage w)) jid = Some j \<Longrightarrow> within_budget (heap w j) (executions w jid)"
  by (simp_all add: budget_ok_def)

lemma within_budget_new:
  assumes "requested_job r t jid req J" and "sound_request req" and "sound_default r"
  shows "within_budget J 0"
proof -
  have "sound_policy (Job_RetryPolicy J)"
    using assms by (auto simp: requested_job_def sound_request_def sound_default_def split: option.splits)
  moreover have "Job_Status J \<in> {StatusPending, StatusScheduled}"
    using assms(1) by (auto simp: requested_job_def split: option.splits)
  ultimately show ?thesis by (auto simp: within_budget_def sound_policy_def status_consts Let_def)
qed

lemma within_budget_open:
  assumes "within_budget J n" and "Job_Status J \<in> {StatusPending, StatusScheduled}"
  shows "0 \<le> sint (MaxAttempts (Job_RetryPolicy J))" "int n = sint (CurrentAttempts (Job_RetryPolicy J))"
    "int n < max 1 (sint (MaxAttempts (Job_RetryPolicy J)))" "attempts_wf (Job_RetryPolicy J)"
proof -
  show a: "0 \<le> sint (MaxAttempts (Job_RetryPolicy J))" "int n = sint (CurrentAttempts (Job_RetryPolicy J))"
    "int n < max 1 (sint (MaxAttempts (Job_RetryPolicy J)))"
    using assms by (auto simp: within_budget_def status_consts Let_def split: if_splits)
  moreover have "sint (MaxAttempts (Job_RetryPolicy J)) < 2 ^ 63" by (rule sint64_bounds)
  ultimately show "attempts_wf (Job_RetryPolicy J)" by (auto simp: attempts_wf_def)
qed

lemma within_budget_run:
  assumes b: "within_budget J0 n" and pending: "Job_Status J0 = StatusPending"
    and J: "started_as workerID J0 J"
    and out: "case r of None \<Rightarrow> completed_as J J' | Some e \<Rightarrow> if attempt_left (Job_RetryPolicy J)
      then retried_as cvt e J J' else died_as e J J'"
  shows "within_budget J' (Suc n)"
proof -
  let ?rp = "Job_RetryPolicy J0"
  have same: "Job_RetryPolicy J = ?rp" using J by (auto simp: started_as_def)
  note o = within_budget_open [OF b] and inc = Increment_exact [of ?rp]
  show ?thesis
  proof (cases r)
    case None
    then have "Job_RetryPolicy J' = ?rp" "Job_Status J' = StatusCompleted"
      using out same by (auto simp: completed_as_def)
    then show ?thesis using o pending by (simp add: within_budget_def Let_def)
  next
    case (Some e)
    then obtain t where rp: "Job_RetryPolicy J' = IncrementAttempts t ?rp"
      and st: "Job_Status J' = (if attempt_left ?rp then StatusScheduled else StatusDead)"
      using out same by (auto simp: retried_as_def died_as_def split: if_splits)
    have "attempt_left ?rp \<longleftrightarrow> sint (CurrentAttempts ?rp) + 1 < sint (MaxAttempts ?rp)"
      using o pending by (intro attempt_left_exact) simp
    then show ?thesis using o inc [of t] pending rp st
      by (auto simp: within_budget_def Let_def status_consts)
  qed
qed

lemma budget_cong:
  assumes "budget_ok w" and "jobs (storage w') = jobs (storage w)" "heap w' = heap w"
    "history (storage w') = history (storage w)"
  shows "budget_ok w'"
  using assms by (simp add: budget_ok_def)

lemma budget_schedule:
  assumes inv: "sys_inv (w, fl)" and fresh: "fresh_uuid w" and ok: "sound_request req" "sound_default (rt w)"
    and b: "budget_ok w" and run: "run_state (SchedulerService_ScheduleJob memory_scheduler c req) w = (r, w')"
  shows "budget_ok w'"
  unfolding budget_ok_def
proof (intro conjI allI impI)
  note eff = wpD [OF schedule_effect run]
  let ?jid = "uuid_New (rt w) (uuids w)"
  have hist: "executions w' x = executions w x" for x using eff by simp
  fix x
  show "executions w' x = 0" if "map_get (jobs (storage w')) x = None"
    using that eff budget_okD(1) [OF b] hist by (auto split: if_splits)
  fix j assume j: "map_get (jobs (storage w')) x = Some j"
  show "within_budget (heap w' j) (executions w' x)"
  proof (cases "x = ?jid")
    case True
    then have "j = next_ref w" using j eff by simp
    moreover have "executions w x = 0"
      using True budget_okD(1) [OF b] fresh_unstored [OF inv fresh] by simp
    moreover have "within_budget (heap w' (next_ref w)) 0"
      using eff ok by (blast intro: within_budget_new)
    ultimately show ?thesis using hist by simp
  next
    case False
    then have x: "map_get (jobs (storage w)) x = Some j" using j eff by simp
    then have "j < next_ref w" using inv by (auto simp: sys_inv_def dest: pointerD(1))
    then show ?thesis using eff hist budget_okD(2) [OF b x] by simp
  qed
qed

lemma budget_promote:
  assumes inv: "sys_inv (w, fl)" and b: "budget_ok w"
    and run: "run_state (ProcessDelayedJobs memory_queue c) w = (r, w')"
  shows "budget_ok w'"
proof -
  have "mq_wf w" "fair_range (rt w)" using inv by (simp_all add: sys_inv_def)
  from wpD [OF ProcessDelayedJobs_promoted [OF this]] run obtain ids where p: "promoted ids w w'" and
    due: "\<And>x. x \<in> set ids \<Longrightarrow> map_get (delayedJobs (queue w)) x \<noteq> None"
    by fastforce
  have same: "storage w' = storage w" using p by (simp add: promoted_def)
  have "within_budget (heap w' j) (executions w x)" if x: "map_get (jobs (storage w)) x = Some j" for x j
  proof (cases "heap w' j = heap w j")
    case True
    then show ?thesis using budget_okD(2) [OF b x] by simp
  next
    case False
    then obtain y where y: "y \<in> set ids" "map_get (jobStorage (queue w)) y = Some j"
      and h: "heap w' j = (heap w j)\<lparr>Job_Status := StatusPending\<rparr>"
      using p by (auto simp: promoted_def split: if_splits)
    then have "map_get (jobs (storage w)) y = Some j" using inv by (simp add: sys_inv_def pointers_ok_def)
    then have "y = x" using x inv by (auto simp: sys_inv_def dest: pointerD(2))
    obtain pl where at: "job_at (w, fl) x (heap w j) pl" using place_of [OF inv] x by auto
    then have "Job_Status (heap w j) = StatusScheduled"
      using job_at_Waiting [OF at] due [OF y(1)] \<open>y = x\<close> by (simp add: job_at_def)
    then show ?thesis using budget_okD(2) [OF b x] h
      by (simp add: within_budget_def Let_def status_consts)
  qed
  then show ?thesis using b by (simp add: budget_ok_def same)
qed

lemma budget_work:
  assumes inv: "sys_inv (w, pre @ j # post)" and quiet: "quiet_handlers hs" and b: "budget_ok w"
    and run: "run_state (ProcessJob (memory_processor hs) c j workerID) w = (r, w')"
  shows "budget_ok w'"
proof -
  let ?jid = "Job_ID (heap w j)"
  have wf: "mq_wf w" and ptr: "pointers_ok w" using inv by (simp_all add: sys_inv_def)
  have stored: "map_get (jobs (storage w)) ?jid = Some j" using inv by (simp add: sys_inv_def hands_ok_def)
  have "j < next_ref w" by (rule pointerD(1) [OF ptr stored])
  then obtain J where J: "started_as workerID (heap w j) J" "mp.job_run hs workerID j J w r w'"
    using ProcessJob_run [OF wf _ _ quiet run] stored by auto
  have tables: "kept_tables j w w'" using wpD [OF ProcessJob_tables [OF stored quiet] run] .
  have only: "only_job j w w'" using J(2) by (simp add: mp.job_run_def)
  note kept = pointers_kept(1) [OF ptr tables only stored]
  obtain pl where at: "job_at (w, pre @ j # post) ?jid (heap w j) pl" using place_of [OF inv] stored by auto
  then have "pl = InHand" using job_at_InHand [of "(w, pre @ j # post)" j] by simp
  with at have pending: "Job_Status (heap w j) = StatusPending" by (simp add: job_at_def)
  have "Job_ID J = ?jid" using J(1) by (auto simp: started_as_def)
  with J(2) obtain h where "\<And>x. mset (map_get_list (history (storage w')) x) =
      mset (map_get_list (history (storage w)) x) + (if x = ?jid then {#h#} else {#})"
    unfolding mp.job_run_def by metis
  from arg_cong [OF this, of size]
  have hist: "executions w' x = executions w x + (if x = ?jid then 1 else 0)" for x by (simp split: if_splits)
  have "within_budget (heap w' j) (Suc (executions w ?jid))"
    by (rule within_budget_run [OF budget_okD(2) [OF b stored] pending J(1), where r = r and cvt = "cvt_overflow (rt w)"])
      (use J(2) in \<open>auto simp: mp.job_run_def mp.failed_to_def split: option.splits\<close>)
  moreover have "within_budget (heap w' i) (executions w x)"
    if x: "map_get (jobs (storage w)) x = Some i" "x \<noteq> ?jid" for x i
  proof -
    have "i \<noteq> j" "i < next_ref w" using pointerD [OF ptr x(1)] x(2) by auto
    then show ?thesis using only budget_okD(2) [OF b x(1)] by (simp add: only_job_def)
  qed
  ultimately show ?thesis unfolding budget_ok_def kept hist
    using stored budget_okD(1) [OF b] by auto
qed

lemma dequeue_keeps:
  fixes w :: mem_world
  assumes "mq_wf w" and "run_state (MemoryQueue_Dequeue c ps) w = (r, w')"
  shows "heap w' = heap w" and "storage w' = storage w"
  using assms(1) by (cases rule: dequeue_cases [of w ps]; use assms(2) in \<open>auto simp: MemoryQueue_Dequeue_def\<close>)+

lemma sys_step_rt:
  assumes "sys_step hs ok s s'" and "quiet_handlers hs" and "sys_inv s"
  shows "rt (fst s') = rt (fst s)"
  using assms
proof (induction rule: sys_step.induct)
  case (schedule req w c r w' fl)
  then show ?case using wpD [OF schedule_effect schedule(3)] by simp
next
  case (promote c w r w' fl)
  then show ?case
    using wpD [OF ProcessDelayedJobs_promoted, of w c r w'] by (auto simp: sys_inv_def promoted_def)
next
  case (take c ps w j w' fl)
  then show ?case using wpD [OF mq_dequeue_contract, of w c ps] by (auto simp: sys_inv_def frame_defs)
next
  case (work c j workerID w r w' pre post)
  have "map_get (jobs (storage w)) (Job_ID (heap w j)) = Some j" and "mq_wf w" and "j < next_ref w"
    using work(3) by (auto simp: sys_inv_def hands_ok_def dest: pointerD(1))
  then obtain J where "mp.job_run hs workerID j J w r w'"
    using ProcessJob_run [OF _ _ _ work(2,1)] by auto
  then show ?case by (simp add: mp.job_run_def only_job_def)
qed (auto simp: MemoryStorage_RegisterWorker_def MemoryStorage_UpdateWorkerHeartbeat_def
    MemoryStorage_DeactivateStaleWorkers_def modify_storage_def printf_def now_def range_map_def
    split: option.splits prod.splits if_splits)

lemma budget_step:
  assumes "sys_step hs sound_request s s'" and "quiet_handlers hs" and "sys_inv s"
    and "sound_default (rt (fst s))" and "budget_ok (fst s)"
  shows "budget_ok (fst s')"
  using assms
proof (induction rule: sys_step.induct)
  case (take c ps w j w' fl)
  then have "heap w' = heap w" "storage w' = storage w"
    using dequeue_keeps [of w c ps] by (simp_all add: sys_inv_def)
  then show ?case using take by (auto intro: budget_cong)
next
  case (register c wk w r w' fl)
  then show ?case
    by (auto simp: MemoryStorage_RegisterWorker_def modify_storage_def printf_def intro: budget_cong)
next
  case (heartbeat c workerID w r w' fl)
  then show ?case
    by (auto simp: MemoryStorage_UpdateWorkerHeartbeat_def modify_storage_def printf_def now_def
        intro: budget_cong split: option.splits)
next
  case (deactivate c d w r w' fl)
  then show ?case
    by (auto simp: MemoryStorage_DeactivateStaleWorkers_def modify_storage_def printf_def now_def
        range_map_def intro: budget_cong split: prod.splits if_splits)
qed (auto intro: budget_schedule budget_promote budget_work)

lemma reachable_budget:
  assumes "reachable hs sound_request s" and "quiet_handlers hs"
  shows "sound_default (rt (fst s)) \<longrightarrow> budget_ok (fst s)"
  using assms
proof (induction rule: reachable.induct)
  case (start s)
  then show ?case by (simp add: sys_init_def budget_ok_def NewMemoryStorage_def map_get_list_def)
next
  case (step s s')
  then have "sys_inv s" by (intro reachable_inv)
  then show ?case using step sys_step_rt [OF step(2,4)] budget_step [OF step(2,4)] by simp
qed

text \<open>
  C2: in every reachable state the number of executions that the history of a job records is bounded
  by its retry policy: a job is executed at most \<open>MaxAttempts\<close> times (once, when that is zero), it is
  dead exactly when it has failed that many times and no execution is left, and a job that waits, is
  ready or is in the hands of a worker has an execution left. Requests must not bring their own
  attempt counter or a negative limit.
\<close>

theorem executions_bounded:
  assumes "quiet_handlers hs" and "reachable hs sound_request s" and "sound_default (rt (fst s))"
    and "map_get (jobs (storage (fst s))) jid = Some j"
  shows "let J = heap (fst s) j; n = int (length (map_get_list (history (storage (fst s))) jid));
      m = max 1 (sint (MaxAttempts (Job_RetryPolicy J)))
    in n \<le> m \<and> (Job_Status J = StatusDead \<longrightarrow> n = m) \<and>
      (Job_Status J \<in> {StatusPending, StatusScheduled} \<longrightarrow> n < m)"
proof -
  have "within_budget (heap (fst s) j) (executions (fst s) jid)"
    using reachable_budget [OF assms(2,1)] assms(3) budget_okD(2) [OF _ assms(4)] by simp
  then show ?thesis by (auto simp: within_budget_def Let_def status_consts split: if_splits)
qed

theorem executions_bounded_witness:
  "length (map_get_list (history (storage (fst first_state))) 100) < 3"
proof -
  have quiet: "quiet_handlers ([] :: (MemoryStorage, MemoryQueue) JobHandler list)"
    by (simp add: quiet_handlers_def)
  have job: "requested_job demo_runtime 3000 100 example_request (heap (fst first_state) 0)"
    "rt (fst first_state) = demo_runtime" using first_state_laws(3) [OF refl] by simp_all
  have policy: "MaxAttempts (NewRetryPolicy (frac_ns demo_runtime) (os_Getenv demo_runtime)) = 3"
    "CurrentAttempts (NewRetryPolicy (frac_ns demo_runtime) (os_Getenv demo_runtime)) = 0"
    by (simp_all add: NewRetryPolicy_def demo_runtime_def LoadConfig_retry_defaults)
  then have "sound_default (rt (fst first_state))"
    by (simp add: job(2) sound_default_def sound_policy_def)
  moreover have "reachable [] sound_request first_state"
    by (rule first_state_laws(1)) (simp add: sound_request_def example_request_def)
  moreover have "MaxAttempts (Job_RetryPolicy (heap (fst first_state) 0)) = 3"
    "Job_Status (heap (fst first_state) 0) \<in> {StatusPending, StatusScheduled}"
    using job(1) policy by (auto simp: requested_job_def example_request_def split: option.splits)
  ultimately show ?thesis
    using executions_bounded [OF quiet _ _ first_state_laws(2)] by (auto simp: Let_def)
qed

end
