(* ===== verification/Json.thy ===== *)
theory Json
  imports GoStd
begin

text \<open>
  Package \<^verbatim>\<open>encoding/json\<close> as far as the service uses it, on byte strings: the grammar of JSON texts
  and their compact form, quoting and unquoting of strings, and decoding an object into the fields of
  a struct. A text is read in two steps, as the library does for \<^verbatim>\<open>json.RawMessage\<close>: first into a tree
  that keeps the spelling of its numbers and strings, then into values.
\<close>

section \<open>Texts\<close>

datatype jtext = TNull | TBool bool | TNum string | TStr string | TArr "jtext list"
  | TObj "(string \<times> jtext) list"

fun commas :: "string list \<Rightarrow> string" where
  "commas [] = []"
| "commas [x] = x"
| "commas (x # xs) = x @ '','' @ commas xs"

text \<open>The compact text of a tree.\<close>

fun render :: "jtext \<Rightarrow> string" where
  "render TNull = ''null''"
| "render (TBool True) = ''true''"
| "render (TBool False) = ''false''"
| "render (TNum l) = l"
| "render (TStr r) = [CHR 0x22] @ r @ [CHR 0x22]"
| "render (TArr ts) = ''['' @ commas (map render ts) @ '']''"
| "render (TObj ms) = ''{'' @ commas (map (\<lambda>(k, v). [CHR 0x22] @ k @ [CHR 0x22] @ '':'' @ render v) ms) @ ''}''"

definition is_ws :: "char \<Rightarrow> bool" where
  "is_ws c \<longleftrightarrow> c = CHR 0x20 \<or> c = CHR 0x09 \<or> c = CHR 0x0A \<or> c = CHR 0x0D"

definition skip_ws :: "string \<Rightarrow> string" where
  "skip_ws s = dropWhile is_ws s"

definition is_hex :: "char \<Rightarrow> bool" where
  "is_hex c \<longleftrightarrow> is_digit c \<or> c \<in> set ''abcdefABCDEF''"

definition is_escape :: "char \<Rightarrow> bool" where
  "is_escape c \<longleftrightarrow> c \<in> set (CHR 0x22 # CHR 0x5C # ''/bfnrt'')"

text \<open>One character of a string literal, or one escape sequence, and what follows.\<close>

definition lex_unit :: "string \<Rightarrow> (string \<times> string) option" where
  "lex_unit s = (case s of
     [] \<Rightarrow> None
   | c # cs \<Rightarrow>
       if c = CHR 0x5C then
         (case cs of
            [] \<Rightarrow> None
          | e # cs' \<Rightarrow>
              if e = CHR ''u''
              then (if 4 \<le> length cs' \<and> list_all is_hex (take 4 cs')
                    then Some (c # e # take 4 cs', drop 4 cs') else None)
              else if is_escape e then Some ([c, e], cs') else None)
       else if of_char c < (0x20 :: nat) then None
       else Some ([c], cs))"

lemma lex_unit_Nil [simp]: "lex_unit [] = None"
  by (simp add: lex_unit_def)

lemma lex_unit_shorter: "lex_unit s = Some (x, t) \<Longrightarrow> length t < length s"
  by (auto simp: lex_unit_def split: list.splits if_splits)

text \<open>The rest of a string literal after its opening quote: its spelling and what follows.\<close>

function lex_string :: "string \<Rightarrow> (string \<times> string) option" where
  "lex_string s =
     (if s \<noteq> [] \<and> hd s = CHR 0x22 then Some ([], tl s)
      else case lex_unit s of
        None \<Rightarrow> None
      | Some (x, t) \<Rightarrow> map_option (\<lambda>(r, u). (x @ r, u)) (lex_string t))"
  by pat_completeness auto

termination
  by (relation "measure length") (use lex_unit_shorter in auto)

declare lex_string.simps [simp del]

text \<open>A number: an optional sign, an integer without leading zeros, a fraction, an exponent.\<close>

definition lex_digits :: "string \<Rightarrow> (string \<times> string) option" where
  "lex_digits s = (if takeWhile is_digit s = [] then None else Some (takeWhile is_digit s, dropWhile is_digit s))"

definition lex_int :: "string \<Rightarrow> (string \<times> string) option" where
  "lex_int s = (case s of
     c # cs \<Rightarrow> if c = CHR ''0'' then Some ([c], cs) else lex_digits s
   | [] \<Rightarrow> None)"

definition lex_frac :: "string \<Rightarrow> (string \<times> string) option" where
  "lex_frac s = (case s of
     c # cs \<Rightarrow> if c = CHR ''.'' then map_option (\<lambda>(d, t). (c # d, t)) (lex_digits cs) else Some ([], s)
   | [] \<Rightarrow> Some ([], s))"

definition lex_exp :: "string \<Rightarrow> (string \<times> string) option" where
  "lex_exp s = (case s of
     c # cs \<Rightarrow>
       if c = CHR ''e'' \<or> c = CHR ''E'' then
         (case cs of
            g # cs' \<Rightarrow>
              if g = CHR ''+'' \<or> g = CHR ''-''
              then map_option (\<lambda>(d, t). (c # g # d, t)) (lex_digits cs')
              else map_option (\<lambda>(d, t). (c # d, t)) (lex_digits cs)
          | [] \<Rightarrow> None)
       else Some ([], s)
   | [] \<Rightarrow> Some ([], s))"

definition lex_number :: "string \<Rightarrow> (string \<times> string) option" where
  "lex_number s =
     (let (sg, s0) = (case s of c # cs \<Rightarrow> if c = CHR ''-'' then ([c], cs) else ([], s) | [] \<Rightarrow> ([], s))
      in case lex_int s0 of
           None \<Rightarrow> None
         | Some (i, s1) \<Rightarrow>
             (case lex_frac s1 of
                None \<Rightarrow> None
              | Some (f, s2) \<Rightarrow> map_option (\<lambda>(e, t). (sg @ i @ f @ e, t)) (lex_exp s2)))"

text \<open>
  The parser. The first argument is fuel: every call consumes a character or returns, so the length
  of the text is enough. The second is the nesting that is still allowed; the library refuses more
  than 10000 levels.
\<close>

fun parse_value :: "nat \<Rightarrow> nat \<Rightarrow> string \<Rightarrow> (jtext \<times> string) option"
  and parse_elems :: "nat \<Rightarrow> nat \<Rightarrow> string \<Rightarrow> (jtext list \<times> string) option"
  and parse_members :: "nat \<Rightarrow> nat \<Rightarrow> string \<Rightarrow> ((string \<times> jtext) list \<times> string) option" where
  "parse_value 0 d s = None"
| "parse_value (Suc n) d s = (case skip_ws s of
     [] \<Rightarrow> None
   | c # cs \<Rightarrow>
       if c = CHR 0x22 then map_option (\<lambda>(r, t). (TStr r, t)) (lex_string cs)
       else if c = CHR ''{'' then
         (if d = 0 then None
          else case skip_ws cs of
            [] \<Rightarrow> None
          | c' # cs' \<Rightarrow> if c' = CHR ''}'' then Some (TObj [], cs')
              else map_option (\<lambda>(ms, t). (TObj ms, t)) (parse_members n (d - 1) (c' # cs')))
       else if c = CHR ''['' then
         (if d = 0 then None
          else case skip_ws cs of
            [] \<Rightarrow> None
          | c' # cs' \<Rightarrow> if c' = CHR '']'' then Some (TArr [], cs')
              else map_option (\<lambda>(ts, t). (TArr ts, t)) (parse_elems n (d - 1) (c' # cs')))
       else if take 4 (c # cs) = ''null'' then Some (TNull, drop 4 (c # cs))
       else if take 4 (c # cs) = ''true'' then Some (TBool True, drop 4 (c # cs))
       else if take 5 (c # cs) = ''false'' then Some (TBool False, drop 5 (c # cs))
       else map_option (\<lambda>(l, t). (TNum l, t)) (lex_number (c # cs)))"
| "parse_elems 0 d s = None"
| "parse_elems (Suc n) d s = (case parse_value n d s of
     None \<Rightarrow> None
   | Some (v, r) \<Rightarrow> (case skip_ws r of
       [] \<Rightarrow> None
     | c # cs \<Rightarrow>
         if c = CHR '']'' then Some ([v], cs)
         else if c = CHR '','' then map_option (\<lambda>(vs, t). (v # vs, t)) (parse_elems n d cs)
         else None))"
| "parse_members 0 d s = None"
| "parse_members (Suc n) d s = (case skip_ws s of
     [] \<Rightarrow> None
   | q # s1 \<Rightarrow>
     if q \<noteq> CHR 0x22 then None
     else case lex_string s1 of
       None \<Rightarrow> None
     | Some (k, s2) \<Rightarrow> (case skip_ws s2 of
         [] \<Rightarrow> None
       | co # s3 \<Rightarrow>
         if co \<noteq> CHR '':'' then None
         else case parse_value n d s3 of
           None \<Rightarrow> None
         | Some (v, r) \<Rightarrow> (case skip_ws r of
             [] \<Rightarrow> None
           | c # cs \<Rightarrow>
               if c = CHR ''}'' then Some ([(k, v)], cs)
               else if c = CHR '','' then map_option (\<lambda>(ms, t). ((k, v) # ms, t)) (parse_members n d cs)
               else None)))"

definition json_parse :: "string \<Rightarrow> jtext option" where
  "json_parse s = (case parse_value (Suc (2 * length s)) 10000 s of
     Some (t, r) \<Rightarrow> if skip_ws r = [] then Some t else None
   | None \<Rightarrow> None)"

section \<open>Reading back what was written\<close>

text \<open>Trees whose numbers and strings are spelled correctly.\<close>

fun well_spelled :: "jtext \<Rightarrow> bool" where
  "well_spelled (TNum l) \<longleftrightarrow> lex_number l = Some (l, [])"
| "well_spelled (TStr r) \<longleftrightarrow> lex_string (r @ [CHR 0x22]) = Some (r, [])"
| "well_spelled (TArr ts) \<longleftrightarrow> list_all well_spelled ts"
| "well_spelled (TObj ms) \<longleftrightarrow>
     list_all (\<lambda>(k, v). lex_string (k @ [CHR 0x22]) = Some (k, []) \<and> well_spelled v) ms"
| "well_spelled _ \<longleftrightarrow> True"

fun nesting :: "jtext \<Rightarrow> nat" where
  "nesting (TArr ts) = Suc (foldr max (map nesting ts) 0)"
| "nesting (TObj ms) = Suc (foldr max (map (\<lambda>(k, v). nesting v) ms) 0)"
| "nesting _ = 0"

fun fuel_for :: "jtext \<Rightarrow> nat" where
  "fuel_for (TArr ts) = Suc (sum_list (map (\<lambda>t. Suc (fuel_for t)) ts))"
| "fuel_for (TObj ms) = Suc (sum_list (map (\<lambda>(k, v). Suc (fuel_for v)) ms))"
| "fuel_for _ = 1"

text \<open>What may follow a value.\<close>

definition stops :: "string \<Rightarrow> bool" where
  "stops u \<longleftrightarrow> u = [] \<or> hd u \<in> {CHR '','', CHR '']'', CHR ''}''}"

lemma stops_simps [simp]: "stops []" "stops (CHR '','' # u)" "stops (CHR '']'' # u)" "stops (CHR ''}'' # u)"
  by (simp_all add: stops_def)

lemma lex_unit_append: "lex_unit s = Some (x, t) \<Longrightarrow> lex_unit (s @ u) = Some (x, t @ u)"
  by (cases s; cases "tl s") (auto simp: lex_unit_def split: if_splits)

lemma lex_string_append: "lex_string s = Some (r, t) \<Longrightarrow> lex_string (s @ u) = Some (r, t @ u)"
proof (induction s arbitrary: r t rule: lex_string.induct)
  case (1 s)
  show ?case
  proof (cases "s \<noteq> [] \<and> hd s = CHR 0x22")
    case True
    then show ?thesis using 1(2) by (simp add: lex_string.simps [of s] lex_string.simps [of "s @ u"])
  next
    case False
    then obtain x s' r' where x: "lex_unit s = Some (x, s')" and s': "lex_string s' = Some (r', t)" "r = x @ r'"
      using 1(2) by (auto simp: lex_string.simps [of s] split: option.splits)
    have "s \<noteq> []" using x by (auto simp: lex_unit_def)
    then show ?thesis using False lex_unit_append [OF x] 1(1) [OF False x refl s'(1)] s'(2)
      by (simp add: lex_string.simps [of "s @ u"])
  qed
qed

text \<open>The parts of a number end before a text that does not continue them.\<close>

definition ends_before :: "(char \<Rightarrow> bool) \<Rightarrow> string \<Rightarrow> bool" where
  "ends_before P u \<longleftrightarrow> u = [] \<or> \<not> is_digit (hd u) \<and> \<not> P (hd u)"

lemma stops_ends: "stops u \<Longrightarrow> ends_before (\<lambda>c. c \<in> set ''.eE'') u"
  by (auto simp: stops_def ends_before_def is_digit_def)

lemma ends_mono: "ends_before P u \<Longrightarrow> (\<And>c. Q c \<Longrightarrow> P c) \<Longrightarrow> ends_before Q u"
  by (auto simp: ends_before_def)

lemma lex_digits_append:
  assumes "lex_digits s = Some (d, t)" and "ends_before P u"
  shows "lex_digits (s @ u) = Some (d, t @ u)"
proof -
  have s: "takeWhile is_digit s = d" "dropWhile is_digit s = t" "d \<noteq> []"
    using assms(1) by (auto simp: lex_digits_def split: if_splits)
  have u: "takeWhile is_digit u = []" "dropWhile is_digit u = u"
    using assms(2) by (cases u; auto simp: ends_before_def)+
  have "takeWhile is_digit (s @ u) = d \<and> dropWhile is_digit (s @ u) = t @ u"
  proof (cases "\<forall>x \<in> set s. is_digit x")
    case True
    then have "takeWhile is_digit s = s" "dropWhile is_digit s = []" by (simp_all add: takeWhile_eq_all_conv)
    then have "d = s" "t = []" using s(1,2) by simp_all
    then show ?thesis using True u by (simp add: takeWhile_append2 dropWhile_append2)
  next
    case False
    then obtain x where "x \<in> set s" "\<not> is_digit x" by blast
    then show ?thesis using s by (simp add: takeWhile_append1 dropWhile_append1)
  qed
  then show ?thesis using s(3) by (simp add: lex_digits_def)
qed

lemma lex_int_append:
  "lex_int s = Some (d, t) \<Longrightarrow> ends_before P u \<Longrightarrow> lex_int (s @ u) = Some (d, t @ u)"
  using lex_digits_append [of s d t P u] by (cases s) (auto simp: lex_int_def split: if_splits)

lemma lex_frac_append:
  assumes "lex_frac s = Some (d, t)" and "ends_before (\<lambda>c. c = CHR ''.'') u"
  shows "lex_frac (s @ u) = Some (d, t @ u)"
proof (cases s)
  case Nil
  then show ?thesis using assms by (cases u) (auto simp: lex_frac_def ends_before_def)
next
  case (Cons c cs)
  then show ?thesis using assms lex_digits_append [of cs _ t _ u] by (auto simp: lex_frac_def split: if_splits)
qed

lemma lex_exp_append:
  assumes "lex_exp s = Some (d, t)" and "ends_before (\<lambda>c. c = CHR ''e'' \<or> c = CHR ''E'') u"
  shows "lex_exp (s @ u) = Some (d, t @ u)"
proof (cases s)
  case Nil
  then show ?thesis using assms by (cases u) (auto simp: lex_exp_def ends_before_def)
next
  case (Cons c cs)
  then show ?thesis using assms lex_digits_append [of cs _ t _ u] lex_digits_append [of "tl cs" _ t _ u]
    by (cases cs) (auto simp: lex_exp_def split: if_splits)
qed

definition negative :: "string \<Rightarrow> bool" where
  "negative s \<longleftrightarrow> s \<noteq> [] \<and> hd s = CHR ''-''"

lemma lex_number_eq:
  "lex_number s = (case lex_int (if negative s then tl s else s) of None \<Rightarrow> None
    | Some (i, s1) \<Rightarrow> (case lex_frac s1 of None \<Rightarrow> None
      | Some (f, s2) \<Rightarrow> map_option (\<lambda>(e, t). ((if negative s then ''-'' else []) @ i @ f @ e, t)) (lex_exp s2)))"
  by (cases s) (auto simp: lex_number_def negative_def)

lemma lex_number_parts:
  assumes "lex_number s = Some (l, t)"
  obtains i s1 f s2 e where "lex_int (if negative s then tl s else s) = Some (i, s1)"
    "lex_frac s1 = Some (f, s2)" "lex_exp s2 = Some (e, t)" "l = (if negative s then ''-'' else []) @ i @ f @ e"
  using assms by (auto simp: lex_number_eq split: option.splits)

lemma lex_number_append:
  assumes "lex_number s = Some (l, t)" and "stops u"
  shows "lex_number (s @ u) = Some (l, t @ u)"
proof -
  obtain i s1 f s2 e where parts: "lex_int (if negative s then tl s else s) = Some (i, s1)"
      "lex_frac s1 = Some (f, s2)" "lex_exp s2 = Some (e, t)" "l = (if negative s then ''-'' else []) @ i @ f @ e"
    using lex_number_parts [OF assms(1)] .
  have "s \<noteq> []" using parts(1) by (auto simp: lex_int_def negative_def)
  then have "negative (s @ u) \<longleftrightarrow> negative s" and
    "(if negative s then tl (s @ u) else s @ u) = (if negative s then tl s else s) @ u"
    by (auto simp: negative_def)
  moreover have "lex_int ((if negative s then tl s else s) @ u) = Some (i, s1 @ u)"
    "lex_frac (s1 @ u) = Some (f, s2 @ u)" "lex_exp (s2 @ u) = Some (e, t @ u)"
    using stops_ends [OF assms(2)] parts
    by (auto intro: lex_int_append lex_frac_append lex_exp_append elim: ends_mono)
  ultimately show ?thesis using parts(4) by (simp add: lex_number_eq [of "s @ u"] split del: if_split)
qed

lemma skip_ws_Cons: "skip_ws (c # cs) = (if is_ws c then skip_ws cs else c # cs)"
  by (simp add: skip_ws_def)

lemma skip_ws_marks [simp]:
  "skip_ws (CHR '']'' # u) = CHR '']'' # u" "skip_ws (CHR ''}'' # u) = CHR ''}'' # u"
  "skip_ws (CHR '','' # u) = CHR '','' # u" "skip_ws (CHR '':'' # u) = CHR '':'' # u"
  "skip_ws (CHR 0x22 # u) = CHR 0x22 # u" "skip_ws (CHR ''['' # u) = CHR ''['' # u"
  "skip_ws (CHR ''{'' # u) = CHR ''{'' # u" "skip_ws (CHR ''n'' # u) = CHR ''n'' # u"
  "skip_ws (CHR ''t'' # u) = CHR ''t'' # u" "skip_ws (CHR ''f'' # u) = CHR ''f'' # u"
  by (simp_all add: skip_ws_Cons is_ws_def)

lemma lex_number_hd:
  assumes "lex_number l = Some (x, t)"
  obtains c cs where "l = c # cs" "c = CHR ''-'' \<or> is_digit c"
proof (cases l)
  case Nil
  then show ?thesis using assms by (simp add: lex_number_def lex_int_def)
next
  case (Cons c cs)
  then have "c = CHR ''-'' \<or> is_digit c"
    using assms by (auto simp: lex_number_def lex_int_def lex_digits_def is_digit_def split: if_splits option.splits)
  then show ?thesis using that Cons by blast
qed

lemma number_start:
  assumes "c = CHR ''-'' \<or> is_digit c"
  shows "\<not> is_ws c" "c \<noteq> CHR 0x22" "c \<noteq> CHR ''{''" "c \<noteq> CHR ''[''" "c \<noteq> CHR ''n''" "c \<noteq> CHR ''t''"
    "c \<noteq> CHR ''f''" "c \<noteq> CHR '']''" "c \<noteq> CHR ''}''"
  using assms by (auto simp: is_digit_def is_ws_def)

lemma render_start:
  assumes "well_spelled t"
  obtains c cs where "render t = c # cs" "\<not> is_ws c" "c \<noteq> CHR '']''" "c \<noteq> CHR ''}''"
proof (cases t)
  case (TNum l)
  then have "lex_number l = Some (l, [])" using assms by simp
  then show ?thesis by (rule lex_number_hd) (use TNum that number_start in auto)
next
  case (TBool b)
  then show ?thesis using that by (cases b) (auto simp: is_ws_def)
qed (use that in \<open>auto simp: is_ws_def\<close>)

lemma skip_ws_render: "well_spelled t \<Longrightarrow> skip_ws (render t @ u) = render t @ u"
  by (metis append_Cons render_start skip_ws_Cons)

lemma commas_Cons: "commas (x # xs) = x @ (if xs = [] then [] else '','' @ commas xs)"
  by (cases xs) simp_all

lemma parse_elems_render:
  assumes "\<And>t n u. t \<in> set ts \<Longrightarrow> fuel_for t \<le> n \<Longrightarrow> stops u \<Longrightarrow>
      parse_value n d (render t @ u) = Some (t, u)"
    and "ts \<noteq> []" and "sum_list (map (\<lambda>t. Suc (fuel_for t)) ts) \<le> n"
  shows "parse_elems n d (commas (map render ts) @ CHR '']'' # u) = Some (ts, u)"
  using assms
proof (induction ts arbitrary: n)
  case (Cons t ts)
  then obtain m where m: "n = Suc m" "fuel_for t \<le> m" by (cases n) auto
  show ?case
  proof (cases "ts = []")
    case True
    then show ?thesis using m Cons.prems(1) [of t m] by (simp add: commas_Cons)
  next
    case False
    have "parse_value m d (render t @ CHR '','' # commas (map render ts) @ CHR '']'' # u) =
        Some (t, CHR '','' # commas (map render ts) @ CHR '']'' # u)"
      using m Cons.prems(1) [of t m] by simp
    moreover have "parse_elems m d (commas (map render ts) @ CHR '']'' # u) = Some (ts, u)"
      using False Cons.prems m(1) by (intro Cons.IH) auto
    ultimately show ?thesis using m(1) False by (simp add: commas_Cons)
  qed
qed simp

definition render_member :: "string \<times> jtext \<Rightarrow> string" where
  "render_member = (\<lambda>(k, v). [CHR 0x22] @ k @ [CHR 0x22] @ '':'' @ render v)"

lemma render_TObj: "render (TObj ms) = ''{'' @ commas (map render_member ms) @ ''}''"
  by (simp add: render_member_def)

lemma parse_members_render:
  assumes "\<And>k v n u. (k, v) \<in> set ms \<Longrightarrow> fuel_for v \<le> n \<Longrightarrow> stops u \<Longrightarrow>
      parse_value n d (render v @ u) = Some (v, u)"
    and "\<And>k v. (k, v) \<in> set ms \<Longrightarrow> lex_string (k @ [CHR 0x22]) = Some (k, [])"
    and "ms \<noteq> []" and "sum_list (map (\<lambda>(k, v). Suc (fuel_for v)) ms) \<le> n"
  shows "parse_members n d (commas (map render_member ms) @ CHR ''}'' # u) = Some (ms, u)"
  using assms
proof (induction ms arbitrary: n)
  case (Cons km ms)
  obtain k v where km: "km = (k, v)" by (cases km)
  from Cons.prems(4) obtain m where m: "n = Suc m" "fuel_for v \<le> m" by (cases n) (auto simp: km)
  have key: "lex_string (k @ CHR 0x22 # s) = Some (k, s)" for s
    using lex_string_append [OF Cons.prems(2) [of k v], of s] by (simp add: km)
  show ?case
  proof (cases "ms = []")
    case True
    then show ?thesis using m Cons.prems(1) [of k v m] by (simp add: km commas_Cons render_member_def key)
  next
    case False
    have "parse_value m d (render v @ CHR '','' # commas (map render_member ms) @ CHR ''}'' # u) =
        Some (v, CHR '','' # commas (map render_member ms) @ CHR ''}'' # u)"
      using m Cons.prems(1) [of k v m] by (simp add: km)
    moreover have "parse_members m d (commas (map render_member ms) @ CHR ''}'' # u) = Some (ms, u)"
    proof (rule Cons.IH [OF _ _ False], goal_cases)
      case (1 k' v' n' u')
      then show ?case by (intro Cons.prems(1) [of k']) simp_all
    next
      case (2 k' v')
      then show ?case by (intro Cons.prems(2) [of k' v']) simp
    next
      case 3
      then show ?case using Cons.prems(4) m(1) by (simp add: km)
    qed
    ultimately show ?thesis using m(1) False by (simp add: km commas_Cons render_member_def key)
  qed
qed simp

lemma nesting_le:
  "foldr max (map f xs) 0 \<le> (d :: nat) \<Longrightarrow> x \<in> set xs \<Longrightarrow> f x \<le> d"
  by (induction xs) auto

lemma parse_render:
  "well_spelled t \<Longrightarrow> nesting t \<le> d \<Longrightarrow> fuel_for t \<le> n \<Longrightarrow> stops u \<Longrightarrow>
   parse_value n d (render t @ u) = Some (t, u)"
proof (induction t arbitrary: n d u)
  case (TNum l)
  then have l: "lex_number (l @ u) = Some (l, u)" using lex_number_append [of l l "[]" u] by simp
  from TNum obtain c cs where "l = c # cs" "c = CHR ''-'' \<or> is_digit c"
    using lex_number_hd [of l l "[]"] by auto
  then show ?case using TNum(3) l number_start [of c] by (cases n) (auto simp: skip_ws_Cons)
next
  case (TStr r)
  then have "lex_string (r @ CHR 0x22 # u) = Some (r, u)"
    using lex_string_append [of "r @ [CHR 0x22]" r "[]" u] by simp
  then show ?case using TStr by (cases n) auto
next
  case (TArr ts)
  then obtain m k where m: "n = Suc m" "d = Suc k" by (cases n; cases d) auto
  show ?case
  proof (cases "ts = []")
    case True
    then show ?thesis by (simp add: m)
  next
    case False
    have "parse_elems m k (commas (map render ts) @ CHR '']'' # u) = Some (ts, u)"
    proof (rule parse_elems_render [OF _ False])
      fix t n' u' assume t: "t \<in> set ts" and n: "fuel_for t \<le> n'" "stops u'"
      have "nesting t \<le> k" using TArr.prems(2) t by (auto simp: m dest: nesting_le)
      then show "parse_value n' k (render t @ u') = Some (t, u')"
        using TArr t n by (simp add: list_all_iff)
    qed (use TArr.prems(3) in \<open>simp add: m\<close>)
    moreover obtain t0 ts0 where "ts = t0 # ts0" using False by (cases ts) auto
    then obtain c cs where "commas (map render ts) = c # cs" "\<not> is_ws c" "c \<noteq> CHR '']''"
      using TArr.prems(1) by (auto simp: commas_Cons elim!: render_start)
    then have "skip_ws (commas (map render ts) @ CHR '']'' # u) = c # cs @ CHR '']'' # u" "c \<noteq> CHR '']''"
      "commas (map render ts) = c # cs" by (simp_all add: skip_ws_Cons)
    ultimately show ?thesis by (simp add: m)
  qed
next
  case (TObj ms)
  then obtain m k where m: "n = Suc m" "d = Suc k" by (cases n; cases d) auto
  show ?case
  proof (cases "ms = []")
    case True
    then show ?thesis by (simp add: m)
  next
    case False
    have "parse_members m k (commas (map render_member ms) @ CHR ''}'' # u) = Some (ms, u)"
    proof (rule parse_members_render [OF _ _ False])
      fix x v n' u' assume v: "(x, v) \<in> set ms" and n: "fuel_for v \<le> n'" "stops u'"
      have "nesting v \<le> k" using TObj.prems(2) v nesting_le [of "\<lambda>(k, v). nesting v" ms k "(x, v)"] by (simp add: m)
      then show "parse_value n' k (render v @ u') = Some (v, u')"
        using TObj v n by (fastforce simp: list_all_iff)
    next
      show "lex_string (x @ [CHR 0x22]) = Some (x, [])" if "(x, v) \<in> set ms" for x v
        using TObj.prems(1) that by (auto simp: list_all_iff)
    qed (use TObj.prems(3) in \<open>simp add: m\<close>)
    moreover obtain c cs where "commas (map render_member ms) = CHR 0x22 # cs"
      using False by (cases ms) (auto simp: commas_Cons render_member_def)
    ultimately show ?thesis by (simp add: m render_TObj del: render.simps)
  qed
next
  case (TBool b)
  then show ?case by (cases n; cases b) auto
next
  case TNull
  then show ?case by (cases n) auto
qed

lemma length_commas: "xs \<noteq> [] \<Longrightarrow> length (commas xs) + 1 = sum_list (map (\<lambda>x. Suc (length x)) xs)"
  by (induction xs) (auto simp: commas_Cons)

lemma sum_list_le: "(\<And>x. x \<in> set xs \<Longrightarrow> f x \<le> g x) \<Longrightarrow> sum_list (map f xs) \<le> (sum_list (map g xs) :: nat)"
  by (induction xs) (auto intro: add_mono)

lemma fuel_enough: "well_spelled t \<Longrightarrow> fuel_for t \<le> 2 * length (render t)"
proof (induction t)
  case (TNum l)
  then show ?case by (cases l) (auto simp: lex_number_def lex_int_def)
next
  case (TBool b)
  then show ?case by (cases b) auto
next
  case (TArr ts)
  have "sum_list (map (\<lambda>t. Suc (fuel_for t)) ts) \<le> sum_list (map (\<lambda>t. 2 * Suc (length (render t))) ts)"
    using TArr by (intro sum_list_le) (auto simp: list_all_iff intro!: le_SucI)
  also have "\<dots> = 2 * sum_list (map (\<lambda>x. Suc (length x)) (map render ts))"
    by (simp add: sum_list_const_mult comp_def del: mult_Suc_right)
  also have "\<dots> \<le> 2 * (length (commas (map render ts)) + 1)"
    using length_commas [of "map render ts"] by (cases "ts = []") auto
  finally show ?case by simp
next
  case (TObj ms)
  have "sum_list (map (\<lambda>(k, v). Suc (fuel_for v)) ms) \<le> sum_list (map (\<lambda>m. 2 * Suc (length (render_member m))) ms)"
    using TObj by (intro sum_list_le) (fastforce simp: list_all_iff render_member_def)
  also have "\<dots> = 2 * sum_list (map (\<lambda>x. Suc (length x)) (map render_member ms))"
    by (simp add: sum_list_const_mult comp_def del: mult_Suc_right)
  also have "\<dots> \<le> 2 * (length (commas (map render_member ms)) + 1)"
    using length_commas [of "map render_member ms"] by (cases "ms = []") auto
  finally show ?case by (simp add: render_TObj del: render.simps)
qed auto

lemma json_parse_render:
  assumes "well_spelled t" and "nesting t \<le> 10000"
  shows "json_parse (render t) = Some t"
proof -
  have "fuel_for t \<le> Suc (2 * length (render t))" using fuel_enough [OF assms(1)] by simp
  then have "parse_value (Suc (2 * length (render t))) 10000 (render t @ []) = Some (t, [])"
    by (intro parse_render assms stops_simps)
  then show ?thesis by (simp add: json_parse_def skip_ws_def del: parse_value.simps)
qed

section \<open>What the parser accepts is spelled correctly\<close>

lemma lex_digits_idem: "lex_digits s = Some (d, t) \<Longrightarrow> lex_digits d = Some (d, [])"
proof -
  assume "lex_digits s = Some (d, t)"
  then have "d = takeWhile is_digit s" "d \<noteq> []" by (auto simp: lex_digits_def split: if_splits)
  moreover from this have "takeWhile is_digit d = d" "dropWhile is_digit d = []"
    by (auto simp: takeWhile_eq_all_conv dest: set_takeWhileD)
  ultimately show ?thesis by (simp add: lex_digits_def)
qed

lemma lex_int_idem:
  assumes "lex_int s = Some (i, t)"
  shows "lex_int i = Some (i, [])" and "i \<noteq> []" and "is_digit (hd i)"
proof -
  obtain c cs where s: "s = c # cs" using assms by (cases s) (auto simp: lex_int_def)
  show "lex_int i = Some (i, [])"
  proof (cases "c = CHR ''0''")
    case True
    then show ?thesis using assms s by (auto simp: lex_int_def)
  next
    case False
    then have d: "lex_digits (c # cs) = Some (i, t)" using assms s by (simp add: lex_int_def)
    then have "\<exists>ds. i = c # ds" by (auto simp: lex_digits_def split: if_splits)
    then show ?thesis using False lex_digits_idem [OF d] by (auto simp: lex_int_def)
  qed
  show "i \<noteq> []" "is_digit (hd i)"
    using assms s by (auto simp: lex_int_def lex_digits_def is_digit_def split: if_splits)
qed

lemma lex_frac_idem:
  assumes "lex_frac s = Some (f, t)"
  shows "lex_frac f = Some (f, [])" and "f \<noteq> [] \<Longrightarrow> hd f = CHR ''.''"
  using assms by (cases s; force simp: lex_frac_def split: if_splits dest: lex_digits_idem)+

lemma lex_exp_idem:
  assumes "lex_exp s = Some (e, t)"
  shows "lex_exp e = Some (e, [])" and "e \<noteq> [] \<Longrightarrow> hd e = CHR ''e'' \<or> hd e = CHR ''E''"
proof -
  have sign: "d \<noteq> [] \<and> hd d \<noteq> CHR ''+'' \<and> hd d \<noteq> CHR ''-''" if "lex_digits cs = Some (d, t)" for cs d
    using that by (cases cs) (auto simp: lex_digits_def is_digit_def split: if_splits)
  show "lex_exp e = Some (e, [])"
  proof (cases s)
    case Nil
    then show ?thesis using assms by (simp add: lex_exp_def)
  next
    case (Cons c cs)
    then show ?thesis using assms
      by (cases cs) (auto simp: lex_exp_def split: if_splits list.splits dest: lex_digits_idem sign)
  qed
  show "e \<noteq> [] \<Longrightarrow> hd e = CHR ''e'' \<or> hd e = CHR ''E''"
    using assms by (cases s; cases "tl s") (auto simp: lex_exp_def split: if_splits)
qed

lemma lex_number_sound:
  assumes "lex_number s = Some (l, t)"
  shows "lex_number l = Some (l, [])"
proof -
  obtain i s1 f s2 e where parts: "lex_int (if negative s then tl s else s) = Some (i, s1)"
      "lex_frac s1 = Some (f, s2)" "lex_exp s2 = Some (e, t)" "l = (if negative s then ''-'' else []) @ i @ f @ e"
    using lex_number_parts [OF assms] .
  note i = lex_int_idem [OF parts(1)] and f = lex_frac_idem [OF parts(2)] and e = lex_exp_idem [OF parts(3)]
  have "ends_before (\<lambda>_. False) (f @ e)" "ends_before (\<lambda>c. c = CHR ''.'') e"
    using f(2) e(2) by (auto simp: ends_before_def is_digit_def hd_append)
  then have "lex_int (i @ f @ e) = Some (i, f @ e)" "lex_frac (f @ e) = Some (f, e)"
    using lex_int_append [OF i(1)] lex_frac_append [OF f(1)] by simp_all
  moreover have "negative l \<longleftrightarrow> negative s" using i(2,3) by (auto simp: parts(4) negative_def is_digit_def)
  ultimately show ?thesis using e(1) by (simp add: lex_number_eq [of l]) (simp add: parts(4))
qed

lemma lex_unit_self:
  assumes "lex_unit s = Some (x, t)"
  shows "lex_unit (x @ y) = Some (x, y)" and "x \<noteq> []" and "hd x = hd s"
  using assms by (cases s; cases "tl s"; auto simp: lex_unit_def split: if_splits)+

lemma lex_string_sound: "lex_string s = Some (r, t) \<Longrightarrow> lex_string (r @ [CHR 0x22]) = Some (r, [])"
proof (induction s arbitrary: r t rule: lex_string.induct)
  case (1 s)
  show ?case
  proof (cases "s \<noteq> [] \<and> hd s = CHR 0x22")
    case True
    then show ?thesis using 1(2) by (simp add: lex_string.simps [of s] lex_string.simps [of "[CHR 0x22]"])
  next
    case False
    then obtain x s' r' where x: "lex_unit s = Some (x, s')" and s': "lex_string s' = Some (r', t)" "r = x @ r'"
      using 1(2) by (auto simp: lex_string.simps [of s] split: option.splits)
    have "s \<noteq> []" using x by auto
    then have "hd (x @ r' @ [CHR 0x22]) \<noteq> CHR 0x22" using False lex_unit_self(2,3) [OF x] by auto
    then show ?thesis using lex_unit_self(1) [OF x, of "r' @ [CHR 0x22]"] 1(1) [OF False x refl s'(1)] s'(2)
      by (simp add: lex_string.simps [of "x @ r' @ [CHR 0x22]"])
  qed
qed

definition sound_value :: "nat \<Rightarrow> jtext \<Rightarrow> bool" where
  "sound_value d t \<longleftrightarrow> well_spelled t \<and> nesting t \<le> d"

lemma sound_TArr: "sound_value (Suc d) (TArr ts) \<longleftrightarrow> list_all (sound_value d) ts"
  by (induction ts) (auto simp: sound_value_def)

lemma sound_TObj: "sound_value (Suc d) (TObj ms) \<longleftrightarrow>
    list_all (\<lambda>(k, v). lex_string (k @ [CHR 0x22]) = Some (k, []) \<and> sound_value d v) ms"
  by (induction ms) (auto simp: sound_value_def)

lemma parse_value_sound:
  assumes p: "parse_value (Suc n) d s = Some (t, u)"
    and elems: "\<And>d s ts u. parse_elems n d s = Some (ts, u) \<Longrightarrow> sound_value (Suc d) (TArr ts)"
    and members: "\<And>d s ms u. parse_members n d s = Some (ms, u) \<Longrightarrow> sound_value (Suc d) (TObj ms)"
  shows "sound_value d t"
proof -
  obtain c cs where s: "skip_ws s = c # cs" using p by (cases "skip_ws s") auto
  consider "c = CHR 0x22" | "c = CHR ''{''" | "c = CHR ''[''"
    | "c \<noteq> CHR 0x22" "c \<noteq> CHR ''{''" "c \<noteq> CHR ''[''" by blast
  then show ?thesis
  proof cases
    case 1
    then show ?thesis using p s by (auto simp: sound_value_def dest: lex_string_sound)
  next
    case 2
    then obtain c' cs' where c': "skip_ws cs = c' # cs'" "d \<noteq> 0"
      using p s by (cases "skip_ws cs") (auto split: if_splits)
    then show ?thesis using p s 2 members [of "d - 1" "c' # cs'"]
      by (cases "c' = CHR ''}''") (auto simp: sound_value_def)
  next
    case 3
    then obtain c' cs' where c': "skip_ws cs = c' # cs'" "d \<noteq> 0"
      using p s by (cases "skip_ws cs") (auto split: if_splits)
    then show ?thesis using p s 3 elems [of "d - 1" "c' # cs'"]
      by (cases "c' = CHR '']''") (auto simp: sound_value_def)
  next
    case 4
    then have "t = TNull \<or> (\<exists>b. t = TBool b) \<or> (\<exists>l. t = TNum l \<and> lex_number (c # cs) = Some (l, u))"
      using p s by (auto split: if_splits)
    then show ?thesis by (auto simp: sound_value_def dest: lex_number_sound)
  qed
qed

lemma parse_elems_sound:
  assumes p: "parse_elems (Suc n) d s = Some (ts, u)"
    and v: "\<And>d s t u. parse_value n d s = Some (t, u) \<Longrightarrow> sound_value d t"
    and rest: "\<And>d s ts u. parse_elems n d s = Some (ts, u) \<Longrightarrow> sound_value (Suc d) (TArr ts)"
  shows "sound_value (Suc d) (TArr ts)"
proof -
  obtain t r where t: "parse_value n d s = Some (t, r)" using p by (auto split: option.splits)
  then obtain c cs where "skip_ws r = c # cs" using p by (cases "skip_ws r") auto
  then show ?thesis using p t v [OF t] rest [of d cs]
    by (auto simp: sound_TArr split: if_splits)
qed

lemma parse_members_sound:
  assumes p: "parse_members (Suc n) d s = Some (ms, u)"
    and v: "\<And>d s t u. parse_value n d s = Some (t, u) \<Longrightarrow> sound_value d t"
    and rest: "\<And>d s ms u. parse_members n d s = Some (ms, u) \<Longrightarrow> sound_value (Suc d) (TObj ms)"
  shows "sound_value (Suc d) (TObj ms)"
proof -
  obtain s1 where s1: "skip_ws s = CHR 0x22 # s1" using p by (cases "skip_ws s") (auto split: if_splits)
  then obtain k s2 where k: "lex_string s1 = Some (k, s2)" using p by (auto split: option.splits)
  then obtain s3 where s3: "skip_ws s2 = CHR '':'' # s3"
    using p s1 by (cases "skip_ws s2") (auto split: if_splits)
  then obtain t r where t: "parse_value n d s3 = Some (t, r)" using p s1 k by (auto split: option.splits)
  then obtain c cs where "skip_ws r = c # cs" using p s1 k s3 by (cases "skip_ws r") auto
  then show ?thesis using p s1 k s3 t v [OF t] rest [of d cs] lex_string_sound [OF k]
    by (auto simp: sound_TObj split: if_splits)
qed

lemma parse_sound:
  "(\<forall>d s t u. parse_value n d s = Some (t, u) \<longrightarrow> sound_value d t) \<and>
   (\<forall>d s ts u. parse_elems n d s = Some (ts, u) \<longrightarrow> sound_value (Suc d) (TArr ts)) \<and>
   (\<forall>d s ms u. parse_members n d s = Some (ms, u) \<longrightarrow> sound_value (Suc d) (TObj ms))"
proof (induction n)
  case (Suc n)
  then have v: "\<And>d s t u. parse_value n d s = Some (t, u) \<Longrightarrow> sound_value d t"
    and e: "\<And>d s ts u. parse_elems n d s = Some (ts, u) \<Longrightarrow> sound_value (Suc d) (TArr ts)"
    and m: "\<And>d s ms u. parse_members n d s = Some (ms, u) \<Longrightarrow> sound_value (Suc d) (TObj ms)"
    by blast+
  show ?case
    by (intro conjI allI impI)
      (erule parse_value_sound parse_elems_sound parse_members_sound, erule v e m, erule e m)+
qed simp

lemma json_parse_sound:
  "json_parse s = Some t \<Longrightarrow> well_spelled t \<and> nesting t \<le> 10000"
proof -
  assume "json_parse s = Some t"
  then obtain u where "parse_value (Suc (2 * length s)) 10000 s = Some (t, u)"
    unfolding json_parse_def by (auto simp del: parse_value.simps split: option.splits if_splits)
  then have "sound_value 10000 t" using parse_sound [THEN conjunct1] by blast
  then show ?thesis by (simp add: sound_value_def)
qed

text \<open>Compacting a text is idempotent, and the compact text denotes the same tree.\<close>

lemma json_parse_compact: "json_parse s = Some t \<Longrightarrow> json_parse (render t) = Some t"
  using json_parse_sound [of s t] json_parse_render [of t] by simp

end
