(* ===== verification/Json_Strings.thy ===== *)
theory Json_Strings
  imports Json
begin

text \<open>
  String values in JSON: UTF-8 sequences, the escapes that \<^verbatim>\<open>json.Marshal\<close> writes and the ones that
  \<^verbatim>\<open>json.Unmarshal\<close> reads.
\<close>

section \<open>Strings\<close>

abbreviation byte :: "char \<Rightarrow> nat" where
  "byte c \<equiv> of_char c"

definition cont_byte :: "char \<Rightarrow> bool" where
  "cont_byte c \<longleftrightarrow> 0x80 \<le> byte c \<and> byte c \<le> 0xBF"

text \<open>The second byte of a sequence, which excludes overlong forms, surrogates and large values.\<close>

definition second_byte :: "nat \<Rightarrow> char \<Rightarrow> bool" where
  "second_byte x b \<longleftrightarrow>
     (if x = 0xE0 then 0xA0 else if x = 0xF0 then 0x90 else 0x80) \<le> byte b \<and>
     byte b \<le> (if x = 0xED then 0x9F else if x = 0xF4 then 0x8F else 0xBF)"

text \<open>How many bytes a sequence has by its first byte, and what the others must be.\<close>

definition utf8_need :: "nat \<Rightarrow> nat" where
  "utf8_need x =
     (if x < 0x80 then 1 else if 0xC2 \<le> x \<and> x \<le> 0xDF then 2 else if 0xE0 \<le> x \<and> x \<le> 0xEF then 3
      else if 0xF0 \<le> x \<and> x \<le> 0xF4 then 4 else 0)"

fun utf8_tail :: "nat \<Rightarrow> string \<Rightarrow> bool" where
  "utf8_tail x [] \<longleftrightarrow> True"
| "utf8_tail x (b # bs) \<longleftrightarrow> second_byte x b \<and> list_all cont_byte bs"

text \<open>The length of the UTF-8 sequence at the start of a string, or 0 when there is none.\<close>

fun utf8_len :: "string \<Rightarrow> nat" where
  "utf8_len [] = 0"
| "utf8_len (a # r) = (let n = utf8_need (byte a) in
     if n \<noteq> 0 \<and> n - 1 \<le> length r \<and> utf8_tail (byte a) (take (n - 1) r) then n else 0)"

definition replacement :: string where
  "replacement = [CHR 0xEF, CHR 0xBF, CHR 0xBD]"

text \<open>Bytes that are not UTF-8 are replaced by U+FFFD.\<close>

fun utf8_fix :: "string \<Rightarrow> string" where
  "utf8_fix [] = []"
| "utf8_fix (c # cs) = (let n = utf8_len (c # cs) in
     if n = 0 then replacement @ utf8_fix cs
     else (c # take (n - 1) cs) @ utf8_fix (drop (n - 1) cs))"

definition hex_digit :: "nat \<Rightarrow> char" where
  "hex_digit k = ''0123456789abcdef'' ! k"

definition hex_val :: "char \<Rightarrow> nat" where
  "hex_val c = (if is_digit c then byte c - 48 else if byte c < 97 then byte c - 55 else byte c - 87)"

text \<open>How an ASCII character is written, with the characters special to HTML escaped.\<close>

definition escape :: "char \<Rightarrow> string" where
  "escape c =
     (if c = CHR 0x22 \<or> c = CHR 0x5C then [CHR 0x5C, c]
      else if c = CHR 0x08 then [CHR 0x5C, CHR ''b'']
      else if c = CHR 0x0C then [CHR 0x5C, CHR ''f'']
      else if c = CHR 0x0A then [CHR 0x5C, CHR ''n'']
      else if c = CHR 0x0D then [CHR 0x5C, CHR ''r'']
      else if c = CHR 0x09 then [CHR 0x5C, CHR ''t'']
      else if byte c < 0x20 \<or> c = CHR ''<'' \<or> c = CHR ''>'' \<or> c = CHR ''&''
      then CHR 0x5C # ''u00'' @ [hex_digit (byte c div 16), hex_digit (byte c mod 16)]
      else [c])"

definition line_separator :: "string \<Rightarrow> string option" where
  "line_separator x =
     (if x = [CHR 0xE2, CHR 0x80, CHR 0xA8] then Some (CHR 0x5C # ''u2028'')
      else if x = [CHR 0xE2, CHR 0x80, CHR 0xA9] then Some (CHR 0x5C # ''u2029'')
      else None)"

fun quote :: "string \<Rightarrow> string" where
  "quote [] = []"
| "quote (c # cs) = (let n = utf8_len (c # cs); x = c # take (n - 1) cs in
     if n = 0 then (CHR 0x5C # ''ufffd'') @ quote cs
     else if n = 1 then escape c @ quote cs
     else (case line_separator x of Some y \<Rightarrow> y | None \<Rightarrow> x) @ quote (drop (n - 1) cs))"

definition hex4 :: "string \<Rightarrow> nat" where
  "hex4 s = foldl (\<lambda>a c. 16 * a + hex_val c) 0 s"

definition utf8_encode :: "nat \<Rightarrow> string" where
  "utf8_encode r =
     (if r < 0x80 then [char_of r]
      else if r < 0x800 then [char_of (0xC0 + r div 64), char_of (0x80 + r mod 64)]
      else if r < 0x10000
      then [char_of (0xE0 + r div 4096), char_of (0x80 + r div 64 mod 64), char_of (0x80 + r mod 64)]
      else [char_of (0xF0 + r div 262144), char_of (0x80 + r div 4096 mod 64),
            char_of (0x80 + r div 64 mod 64), char_of (0x80 + r mod 64)])"

definition unescape :: "char \<Rightarrow> char" where
  "unescape e =
     (if e = CHR ''b'' then CHR 0x08 else if e = CHR ''f'' then CHR 0x0C else if e = CHR ''n'' then CHR 0x0A
      else if e = CHR ''r'' then CHR 0x0D else if e = CHR ''t'' then CHR 0x09 else e)"

text \<open>
  The value of a \<^verbatim>\<open>\uXXXX\<close> escape whose four digits start \<open>s\<close>, and how much of \<open>s\<close> it takes: two escapes
  that form a surrogate pair are one character, and a surrogate on its own is replaced.
\<close>

definition unicode_escape :: "string \<Rightarrow> string \<times> nat" where
  "unicode_escape s = (let r = hex4 (take 4 s) in
     if 0xD800 \<le> r \<and> r < 0xE000 then
       (let r' = hex4 (take 4 (drop 6 s)) in
        if r < 0xDC00 \<and> take 2 (drop 4 s) = [CHR 0x5C, CHR ''u''] \<and> 0xDC00 \<le> r' \<and> r' < 0xE000
        then (utf8_encode (0x10000 + (r - 0xD800) * 1024 + (r' - 0xDC00)), 10)
        else (replacement, 4))
     else (utf8_encode r, 4))"

fun unquote :: "string \<Rightarrow> string" where
  "unquote [] = []"
| "unquote (c # cs) =
     (if c = CHR 0x5C then
        (if cs = [] then []
         else if hd cs = CHR ''u''
         then fst (unicode_escape (tl cs)) @ unquote (drop (snd (unicode_escape (tl cs))) (tl cs))
         else unescape (hd cs) # unquote (tl cs))
      else (let n = utf8_len (c # cs) in
        if n = 0 then replacement @ unquote cs
        else (c # take (n - 1) cs) @ unquote (drop (n - 1) cs)))"

lemma utf8_len_first:
  assumes "utf8_len (c # cs) = n" and "n \<noteq> 0"
  shows "utf8_len ((c # take (n - 1) cs) @ t) = n"
  using assms by (auto simp: Let_def split: if_splits)

lemma utf8_len_le: "utf8_len (c # cs) - 1 \<le> length cs"
  by (simp add: Let_def)

lemma utf8_len_1_iff: "utf8_len (c # cs) = 1 \<longleftrightarrow> byte c < 0x80"
  by (auto simp: Let_def utf8_need_def split: if_splits)

lemma utf8_high:
  assumes "utf8_len (c # cs) = n" and "n \<noteq> 0" and "n \<noteq> 1"
  shows "list_all (\<lambda>x. 0x80 \<le> byte x) (c # take (n - 1) cs)"
proof -
  have n: "utf8_need (byte c) = n" "utf8_tail (byte c) (take (n - 1) cs)"
    using assms by (auto simp: Let_def split: if_splits)
  have "0x80 \<le> byte c" using n(1) assms(3) by (auto simp: utf8_need_def split: if_splits)
  moreover have "list_all (\<lambda>x. 0x80 \<le> byte x) (take (n - 1) cs)"
    using n(2) by (cases "take (n - 1) cs")
      (auto simp: second_byte_def cont_byte_def list_all_iff split: if_splits)
  ultimately show ?thesis by simp
qed

declare utf8_len.simps(2) [simp del]

lemma hex_table: "list_all (\<lambda>k. hex_val (hex_digit k) = k \<and> is_hex (hex_digit k)) [0..<16]"
  by code_simp

lemma hex_val_digit: "k < 16 \<Longrightarrow> hex_val (hex_digit k) = k"
  and is_hex_digit: "k < 16 \<Longrightarrow> is_hex (hex_digit k)"
  using hex_table by (simp_all add: list_all_iff)

lemma unquote_u00:
  assumes "n < 256" and "hex_digit (n div 16) = a" and "hex_digit (n mod 16) = b"
  shows "n < 0x80 \<Longrightarrow> unquote (CHR 0x5C # CHR ''u'' # CHR ''0'' # CHR ''0'' # a # b # t) = char_of n # unquote t"
proof -
  have "hex_val a = n div 16" "hex_val b = n mod 16"
    using assms hex_val_digit [of "n div 16"] hex_val_digit [of "n mod 16"] by (simp_all add: less_mult_imp_div_less)
  then have "hex4 [CHR ''0'', CHR ''0'', a, b] = n"
    by (simp add: hex4_def hex_val_def [of "CHR ''0''"] is_digit_def)
  then show "n < 0x80 \<Longrightarrow> ?thesis" by (simp add: unicode_escape_def utf8_encode_def Let_def)
qed

lemma unquote_escape: "byte c < 0x80 \<Longrightarrow> unquote (escape c @ t) = c # unquote t"
  using unquote_u00 [of "byte c", OF _ refl refl, of t] utf8_len_1_iff [of c t]
  by (auto simp: escape_def unescape_def Let_def)

lemma lex_string_unit:
  "lex_unit s = Some (x, t) \<Longrightarrow> hd s \<noteq> CHR 0x22 \<Longrightarrow> lex_string s = map_option (\<lambda>(r, u). (x @ r, u)) (lex_string t)"
  by (simp add: lex_string.simps [of s])

lemma lex_string_escape:
  assumes "byte c < 0x80"
  shows "lex_string (escape c @ t) = map_option (\<lambda>(r, u). (escape c @ r, u)) (lex_string t)"
proof (rule lex_string_unit)
  have "is_hex (hex_digit (byte c div 16))" "is_hex (hex_digit (byte c mod 16))"
    using assms by (simp_all add: is_hex_digit less_mult_imp_div_less)
  then show "lex_unit (escape c @ t) = Some (escape c, t)"
    by (auto simp: escape_def lex_unit_def is_escape_def is_hex_def is_digit_def)
  show "hd (escape c @ t) \<noteq> CHR 0x22" by (simp add: escape_def)
qed

lemma lex_string_high:
  "list_all (\<lambda>x. 0x80 \<le> byte x) xs \<Longrightarrow>
   lex_string (xs @ t) = map_option (\<lambda>(r, u). (xs @ r, u)) (lex_string t)"
proof (induction xs)
  case (Cons x xs)
  then have "x \<noteq> CHR 0x22" "x \<noteq> CHR 0x5C" "\<not> byte x < 0x20" by auto
  then have "lex_unit (x # xs @ t) = Some ([x], xs @ t)" by (simp add: lex_unit_def)
  from lex_string_unit [OF this] show ?case using Cons \<open>x \<noteq> CHR 0x22\<close>
    by (simp add: option.map_comp comp_def case_prod_beta)
qed (simp add: case_prod_beta option.map_id flip: id_def)

lemma lex_string_u:
  assumes "length hs = 4" and "list_all is_hex hs"
  shows "lex_string (CHR 0x5C # CHR ''u'' # hs @ t) =
    map_option (\<lambda>(r, u). (CHR 0x5C # CHR ''u'' # hs @ r, u)) (lex_string t)"
proof -
  have "lex_unit (CHR 0x5C # CHR ''u'' # hs @ t) = Some (CHR 0x5C # CHR ''u'' # hs, t)"
    using assms by (simp add: lex_unit_def)
  from lex_string_unit [OF this] show ?thesis by simp
qed

text \<open>One step of \<open>quote\<close>: the text it writes for the first character.\<close>

definition quoted_char :: "char \<Rightarrow> string \<Rightarrow> string" where
  "quoted_char c cs = (let n = utf8_len (c # cs); x = c # take (n - 1) cs in
     if n = 0 then CHR 0x5C # ''ufffd'' else if n = 1 then escape c
     else case line_separator x of Some y \<Rightarrow> y | None \<Rightarrow> x)"

lemma quote_Cons: "quote (c # cs) = quoted_char c cs @ quote (drop (utf8_len (c # cs) - 1) cs)"
  by (simp add: quoted_char_def Let_def)

lemma utf8_fix_Cons: "utf8_fix (c # cs) =
    (if utf8_len (c # cs) = 0 then replacement else c # take (utf8_len (c # cs) - 1) cs) @
    utf8_fix (drop (utf8_len (c # cs) - 1) cs)"
  by (simp add: Let_def)

lemma quoted_cases:
  fixes c cs
  defines "n \<equiv> utf8_len (c # cs)" and "x \<equiv> c # take (utf8_len (c # cs) - 1) cs"
  obtains "n = 0" | "n = 1" | y where "1 < n" "line_separator x = Some y" | "1 < n" "line_separator x = None"
proof -
  consider "n = 0" | "n = 1" | "1 < n" by linarith
  then show thesis
  proof cases
    case 3
    then show thesis using that by (cases "line_separator x") auto
  qed (use that in auto)
qed

lemma lex_string_quoted:
  "lex_string (quoted_char c cs @ t) = map_option (\<lambda>(r, u). (quoted_char c cs @ r, u)) (lex_string t)"
proof -
  let ?n = "utf8_len (c # cs)" and ?x = "c # take (utf8_len (c # cs) - 1) cs"
  show ?thesis
  proof (cases rule: quoted_cases [of c cs])
    case 1
    then show ?thesis using lex_string_u [of "''fffd''" t]
      by (simp add: quoted_char_def is_hex_def is_digit_def)
  next
    case 2
    then have "quoted_char c cs = escape c" "byte c < 0x80"
      using utf8_len_1_iff [of c cs] by (simp_all add: quoted_char_def)
    then show ?thesis using lex_string_escape [of c t] by simp
  next
    case (3 y)
    then have "quoted_char c cs = y" "y = CHR 0x5C # ''u2028'' \<or> y = CHR 0x5C # ''u2029''"
      by (auto simp: quoted_char_def line_separator_def Let_def split: if_splits)
    then show ?thesis using lex_string_u [of "''2028''" t] lex_string_u [of "''2029''" t]
      by (auto simp: is_hex_def is_digit_def)
  next
    case 4
    then have "quoted_char c cs = ?x" by (simp add: quoted_char_def)
    then show ?thesis using lex_string_high [OF utf8_high [OF refl], of c cs t] 4 by simp
  qed
qed

lemma unquote_quoted:
  "unquote (quoted_char c cs @ t) =
     (if utf8_len (c # cs) = 0 then replacement else c # take (utf8_len (c # cs) - 1) cs) @ unquote t"
proof -
  let ?n = "utf8_len (c # cs)" and ?x = "c # take (utf8_len (c # cs) - 1) cs"
  have sep: "hex4 ''fffd'' = 0xFFFD" "hex4 ''2028'' = 0x2028" "hex4 ''2029'' = 0x2029"
    by (simp_all add: hex4_def hex_val_def is_digit_def)
  have enc: "utf8_encode 0xFFFD = replacement" "utf8_encode 0x2028 = [CHR 0xE2, CHR 0x80, CHR 0xA8]"
    "utf8_encode 0x2029 = [CHR 0xE2, CHR 0x80, CHR 0xA9]"
    by (simp_all add: utf8_encode_def replacement_def char_of_def bit_0)
  show ?thesis
  proof (cases rule: quoted_cases [of c cs])
    case 1
    then show ?thesis using sep by (simp add: quoted_char_def unicode_escape_def enc)
  next
    case 2
    then have "quoted_char c cs = escape c" "byte c < 0x80"
      using utf8_len_1_iff [of c cs] by (simp_all add: quoted_char_def)
    then show ?thesis using unquote_escape [of c t] 2 by simp
  next
    case (3 y)
    then have "quoted_char c cs = y" "y = CHR 0x5C # ''u2028'' \<and> ?x = [CHR 0xE2, CHR 0x80, CHR 0xA8] \<or>
        y = CHR 0x5C # ''u2029'' \<and> ?x = [CHR 0xE2, CHR 0x80, CHR 0xA9]"
      by (auto simp: quoted_char_def line_separator_def Let_def split: if_splits)
    then show ?thesis using sep 3(1) by (auto simp: unicode_escape_def enc simp del: take_Cons')
  next
    case 4
    then have q: "quoted_char c cs = ?x" by (simp add: quoted_char_def)
    have "0x80 \<le> byte c" using utf8_high [OF refl, of c cs] 4 by simp
    then have "c \<noteq> CHR 0x5C" by auto
    moreover have "utf8_len (?x @ t) = ?n" using utf8_len_first [OF refl, of c cs t] 4 by simp
    ultimately show ?thesis using 4(1) utf8_len_le [of c cs] unfolding q by (simp add: Let_def)
  qed
qed

lemma lex_string_quote: "lex_string (quote s @ CHR 0x22 # t) = Some (quote s, t)"
proof (induction s rule: quote.induct)
  case 1
  then show ?case by (simp add: lex_string.simps)
next
  case (2 c cs)
  have "lex_string (quote (drop (utf8_len (c # cs) - 1) cs) @ CHR 0x22 # t) =
      Some (quote (drop (utf8_len (c # cs) - 1) cs), t)"
    using 2 by (cases "utf8_len (c # cs) = 0"; cases "utf8_len (c # cs) = 1") simp_all
  then show ?case unfolding quote_Cons append_assoc lex_string_quoted by simp
qed

text \<open>A string survives writing and reading, up to the replacement of bytes that are not UTF-8.\<close>

lemma unquote_quote: "unquote (quote s) = utf8_fix s"
proof (induction s rule: quote.induct)
  case (2 c cs)
  have "unquote (quote (drop (utf8_len (c # cs) - 1) cs)) = utf8_fix (drop (utf8_len (c # cs) - 1) cs)"
    using 2 by (cases "utf8_len (c # cs) = 0"; cases "utf8_len (c # cs) = 1") simp_all
  then show ?case unfolding quote_Cons unquote_quoted utf8_fix_Cons by simp
qed simp

end
