(* ===== verification/Codec.thy ===== *)
theory Codec
  imports Json_Strings Contracts "HOL-Library.List_Lexorder" "HOL-Library.Char_ord"
begin

text \<open>
  What \<^verbatim>\<open>json.Marshal\<close> writes for the service's types and what \<^verbatim>\<open>json.Unmarshal\<close> reads into them, from the
  types and field tags of \<^verbatim>\<open>internal/core/domain\<close> and \<^verbatim>\<open>pkg/handlers\<close>. A decoder takes the value that
  the field has before (JSON \<^verbatim>\<open>null\<close> leaves it alone); \<open>None\<close> is an error.
\<close>

section \<open>Basic types\<close>

definition dec_string :: "jtext \<Rightarrow> string \<Rightarrow> string option" where
  "dec_string t old = (case t of TStr r \<Rightarrow> Some (unquote r) | TNull \<Rightarrow> Some old | _ \<Rightarrow> None)"

definition dec_int :: "jtext \<Rightarrow> go_int \<Rightarrow> go_int option" where
  "dec_int t old = (case t of TNum l \<Rightarrow> Atoi l | TNull \<Rightarrow> Some old | _ \<Rightarrow> None)"

definition dec_float :: "runtime \<Rightarrow> jtext \<Rightarrow> rat \<Rightarrow> rat option" where
  "dec_float r t old = (case t of TNum l \<Rightarrow> float64_Parse r l | TNull \<Rightarrow> Some old | _ \<Rightarrow> None)"

definition dec_time :: "runtime \<Rightarrow> jtext \<Rightarrow> time \<Rightarrow> time option" where
  "dec_time r t old = (case t of TStr s \<Rightarrow> time_Parse r (unquote s) | TNull \<Rightarrow> Some old | _ \<Rightarrow> None)"

text \<open>A pointer: \<^verbatim>\<open>null\<close> sets it to nil.\<close>

definition dec_time_ptr :: "runtime \<Rightarrow> jtext \<Rightarrow> time option option" where
  "dec_time_ptr r t = (if t = TNull then Some None else map_option Some (dec_time r t zero_time))"

definition dec_uuid :: "runtime \<Rightarrow> jtext \<Rightarrow> uuid \<Rightarrow> uuid option" where
  "dec_uuid r t old = (case t of TStr s \<Rightarrow> uuid_Parse r (unquote s) | TNull \<Rightarrow> Some old | _ \<Rightarrow> None)"

definition enc_string :: "string \<Rightarrow> jtext" where
  "enc_string s = TStr (quote s)"

definition enc_int :: "go_int \<Rightarrow> jtext" where
  "enc_int n = TNum (show_int (sint n))"

definition enc_time :: "runtime \<Rightarrow> time \<Rightarrow> jtext option" where
  "enc_time r t = map_option enc_string (time_Text r t)"

text \<open>A field with \<^verbatim>\<open>omitempty\<close>: absent when it is nil or the empty string.\<close>

definition omit_time :: "runtime \<Rightarrow> string \<Rightarrow> time option \<Rightarrow> (string \<times> jtext) list option" where
  "omit_time r k t = (case t of None \<Rightarrow> Some [] | Some t' \<Rightarrow> map_option (\<lambda>x. [(k, x)]) (enc_time r t'))"

definition omit_string :: "string \<Rightarrow> string \<Rightarrow> (string \<times> jtext) list" where
  "omit_string k s = (if s = [] then [] else [(k, enc_string s)])"

section \<open>Values of type \<open>interface{}\<close>\<close>

fun dec_any :: "runtime \<Rightarrow> jtext \<Rightarrow> json option" where
  "dec_any r TNull = Some JNull"
| "dec_any r (TBool b) = Some (JBool b)"
| "dec_any r (TNum l) = map_option JNum (float64_Parse r l)"
| "dec_any r (TStr s) = Some (JStr (unquote s))"
| "dec_any r (TArr ts) = map_option JArr (those (map (dec_any r) ts))"
| "dec_any r (TObj ms) = map_option (\<lambda>vs. JObj (foldl (\<lambda>m (k, v). map_put m k v) [] (zip (map (unquote \<circ> fst) ms) vs)))
     (those (map (\<lambda>m. dec_any r (snd m)) ms))"

text \<open>Marshalling sorts the keys of a map.\<close>

fun enc_any :: "runtime \<Rightarrow> json \<Rightarrow> jtext" where
  "enc_any r JNull = TNull"
| "enc_any r (JBool b) = TBool b"
| "enc_any r (JNum q) = TNum (float64_Text r q)"
| "enc_any r (JStr s) = TStr (quote s)"
| "enc_any r (JArr vs) = TArr (map (enc_any r) vs)"
| "enc_any r (JObj m) = TObj (map (\<lambda>(k, v). (quote k, v)) (sort_key fst (map (\<lambda>(k, v). (k, enc_any r v)) m)))"

section \<open>Structs\<close>

definition lower :: "char \<Rightarrow> char" where
  "lower c = (if 65 \<le> byte c \<and> byte c \<le> 90 then char_of (byte c + 32) else c)"

text \<open>Names are compared without case; two characters outside ASCII fold to ASCII letters.\<close>

fun fold_name :: "string \<Rightarrow> string" where
  "fold_name [] = []"
| "fold_name (c # cs) =
     (if c = CHR 0xC5 \<and> take 1 cs = [CHR 0xBF] then CHR ''s'' # fold_name (drop 1 cs)
      else if c = CHR 0xE2 \<and> take 2 cs = [CHR 0x84, CHR 0xAA] then CHR ''k'' # fold_name (drop 2 cs)
      else lower c # fold_name cs)"

type_synonym 'r field = "string \<times> (jtext \<Rightarrow> 'r \<Rightarrow> 'r option)"

definition find_field :: "'r field list \<Rightarrow> string \<Rightarrow> (jtext \<Rightarrow> 'r \<Rightarrow> 'r option) option" where
  "find_field fs k = (case find (\<lambda>f. fst f = k) fs of
     Some f \<Rightarrow> Some (snd f)
   | None \<Rightarrow> map_option snd (find (\<lambda>f. fold_name (fst f) = fold_name k) fs))"

definition dec_member :: "'r field list \<Rightarrow> 'r option \<Rightarrow> string \<times> jtext \<Rightarrow> 'r option" where
  "dec_member fs acc m = (case acc of
     None \<Rightarrow> None
   | Some r \<Rightarrow> (case find_field fs (unquote (fst m)) of None \<Rightarrow> Some r | Some d \<Rightarrow> d (snd m) r))"

definition dec_struct :: "'r field list \<Rightarrow> jtext \<Rightarrow> 'r \<Rightarrow> 'r option" where
  "dec_struct fs t r = (case t of
     TObj ms \<Rightarrow> foldl (dec_member fs) (Some r) ms
   | TNull \<Rightarrow> Some r
   | _ \<Rightarrow> None)"

text \<open>\<^verbatim>\<open>json.Unmarshal\<close> into a struct.\<close>

definition unmarshal :: "'r field list \<Rightarrow> string \<Rightarrow> 'r \<Rightarrow> 'r option" where
  "unmarshal fs s r = (case json_parse s of None \<Rightarrow> None | Some t \<Rightarrow> dec_struct fs t r)"

text \<open>A field of a type with a decoder.\<close>

definition fld :: "string \<Rightarrow> (jtext \<Rightarrow> 'a \<Rightarrow> 'a option) \<Rightarrow> ('r \<Rightarrow> 'a) \<Rightarrow> ('a \<Rightarrow> 'r \<Rightarrow> 'r) \<Rightarrow> 'r field" where
  "fld k d get put = (k, \<lambda>t r. map_option (\<lambda>x. put x r) (d t (get r)))"

section \<open>The types of the domain\<close>

definition retry_fields :: "runtime \<Rightarrow> RetryPolicy field list" where
  "retry_fields r =
     [fld ''max_attempts'' dec_int MaxAttempts (\<lambda>x p. p\<lparr>MaxAttempts := x\<rparr>),
      fld ''current_attempts'' dec_int CurrentAttempts (\<lambda>x p. p\<lparr>CurrentAttempts := x\<rparr>),
      fld ''base_delay'' dec_int BaseDelay (\<lambda>x p. p\<lparr>BaseDelay := x\<rparr>),
      fld ''max_delay'' dec_int MaxDelay (\<lambda>x p. p\<lparr>MaxDelay := x\<rparr>),
      fld ''backoff_strategy'' dec_string BackoffStrategy (\<lambda>x p. p\<lparr>BackoffStrategy := x\<rparr>),
      fld ''last_attempt_at'' (\<lambda>t _. dec_time_ptr r t) LastAttemptAt (\<lambda>x p. p\<lparr>LastAttemptAt := x\<rparr>)]"

definition enc_retry :: "runtime \<Rightarrow> RetryPolicy \<Rightarrow> jtext option" where
  "enc_retry r p = do {
     lt \<leftarrow> omit_time r ''last_attempt_at'' (LastAttemptAt p);
     Some (TObj ([(''max_attempts'', enc_int (MaxAttempts p)),
       (''current_attempts'', enc_int (CurrentAttempts p)),
       (''base_delay'', enc_int (BaseDelay p)),
       (''max_delay'', enc_int (MaxDelay p)),
       (''backoff_strategy'', enc_string (BackoffStrategy p))] @ lt)) }"

text \<open>A metadata map; entries are added to the map that is already there.\<close>

definition dec_meta :: "runtime \<Rightarrow> jtext \<Rightarrow> Metadata \<Rightarrow> Metadata option" where
  "dec_meta r t old = (case t of
     TNull \<Rightarrow> Some None
   | TObj ms \<Rightarrow> map_option (\<lambda>vs. Some (foldl (\<lambda>m (k, v). map_put m k v)
       (case old of None \<Rightarrow> [] | Some m \<Rightarrow> m) (zip (map (unquote \<circ> fst) ms) vs)))
       (those (map (\<lambda>m. dec_any r (snd m)) ms))
   | _ \<Rightarrow> None)"

definition enc_meta :: "runtime \<Rightarrow> Metadata \<Rightarrow> jtext" where
  "enc_meta r m = (case m of None \<Rightarrow> TNull | Some kv \<Rightarrow> enc_any r (JObj kv))"

text \<open>
  A \<^verbatim>\<open>json.RawMessage\<close> is checked and compacted, with the characters special to HTML escaped, when it
  is written (nil is written as \<^verbatim>\<open>null\<close>), and holds the text of the value when it is read. The library keeps the bytes
  that it read; the model keeps them without the spaces between the tokens, of which the texts that the service writes have none.
\<close>

fun html_raw :: "string \<Rightarrow> string" where
  "html_raw [] = []"
| "html_raw (c # cs) =
     (if c = CHR ''<'' then (CHR 0x5C # ''u003c'') @ html_raw cs
      else if c = CHR ''>'' then (CHR 0x5C # ''u003e'') @ html_raw cs
      else if c = CHR ''&'' then (CHR 0x5C # ''u0026'') @ html_raw cs
      else if c = CHR 0xE2 \<and> take 2 cs = [CHR 0x80, CHR 0xA8] then (CHR 0x5C # ''u2028'') @ html_raw (drop 2 cs)
      else if c = CHR 0xE2 \<and> take 2 cs = [CHR 0x80, CHR 0xA9] then (CHR 0x5C # ''u2029'') @ html_raw (drop 2 cs)
      else c # html_raw cs)"

fun html :: "jtext \<Rightarrow> jtext" where
  "html (TStr s) = TStr (html_raw s)"
| "html (TArr ts) = TArr (map html ts)"
| "html (TObj ms) = TObj (map (\<lambda>(k, v). (html_raw k, html v)) ms)"
| "html t = t"

definition enc_raw :: "string \<Rightarrow> jtext option" where
  "enc_raw p = (if p = [] then Some TNull else map_option html (json_parse p))"

definition dec_raw :: "jtext \<Rightarrow> string \<Rightarrow> string option" where
  "dec_raw t old = Some (render t)"

definition job_fields :: "runtime \<Rightarrow> Job field list" where
  "job_fields r =
     [fld ''id'' (dec_uuid r) Job_ID (\<lambda>x j. j\<lparr>Job_ID := x\<rparr>),
      fld ''type'' dec_string Job_Type (\<lambda>x j. j\<lparr>Job_Type := x\<rparr>),
      fld ''priority'' dec_int Job_Priority (\<lambda>x j. j\<lparr>Job_Priority := x\<rparr>),
      fld ''payload'' dec_raw Job_Payload (\<lambda>x j. j\<lparr>Job_Payload := x\<rparr>),
      fld ''metadata'' (dec_meta r) Job_Metadata (\<lambda>x j. j\<lparr>Job_Metadata := x\<rparr>),
      fld ''status'' dec_string Job_Status (\<lambda>x j. j\<lparr>Job_Status := x\<rparr>),
      fld ''retry_policy'' (dec_struct (retry_fields r)) Job_RetryPolicy (\<lambda>x j. j\<lparr>Job_RetryPolicy := x\<rparr>),
      fld ''created_at'' (dec_time r) Job_CreatedAt (\<lambda>x j. j\<lparr>Job_CreatedAt := x\<rparr>),
      fld ''updated_at'' (dec_time r) Job_UpdatedAt (\<lambda>x j. j\<lparr>Job_UpdatedAt := x\<rparr>),
      fld ''scheduled_at'' (dec_time r) Job_ScheduledAt (\<lambda>x j. j\<lparr>Job_ScheduledAt := x\<rparr>),
      fld ''processed_at'' (\<lambda>t _. dec_time_ptr r t) Job_ProcessedAt (\<lambda>x j. j\<lparr>Job_ProcessedAt := x\<rparr>),
      fld ''completed_at'' (\<lambda>t _. dec_time_ptr r t) Job_CompletedAt (\<lambda>x j. j\<lparr>Job_CompletedAt := x\<rparr>),
      fld ''failed_at'' (\<lambda>t _. dec_time_ptr r t) Job_FailedAt (\<lambda>x j. j\<lparr>Job_FailedAt := x\<rparr>),
      fld ''last_error'' dec_string Job_LastError (\<lambda>x j. j\<lparr>Job_LastError := x\<rparr>),
      fld ''worker_id'' dec_string Job_WorkerID (\<lambda>x j. j\<lparr>Job_WorkerID := x\<rparr>)]"

definition enc_job :: "runtime \<Rightarrow> Job \<Rightarrow> jtext option" where
  "enc_job r j = do {
     payload \<leftarrow> enc_raw (Job_Payload j);
     policy \<leftarrow> enc_retry r (Job_RetryPolicy j);
     created \<leftarrow> enc_time r (Job_CreatedAt j);
     updated \<leftarrow> enc_time r (Job_UpdatedAt j);
     scheduled \<leftarrow> enc_time r (Job_ScheduledAt j);
     processed \<leftarrow> omit_time r ''processed_at'' (Job_ProcessedAt j);
     completed \<leftarrow> omit_time r ''completed_at'' (Job_CompletedAt j);
     failed \<leftarrow> omit_time r ''failed_at'' (Job_FailedAt j);
     Some (TObj ([(''id'', enc_string (uuid_String r (Job_ID j))),
       (''type'', enc_string (Job_Type j)),
       (''priority'', enc_int (Job_Priority j)),
       (''payload'', payload),
       (''metadata'', enc_meta r (Job_Metadata j)),
       (''status'', enc_string (Job_Status j)),
       (''retry_policy'', policy),
       (''created_at'', created),
       (''updated_at'', updated),
       (''scheduled_at'', scheduled)] @ processed @ completed @ failed @
       omit_string ''last_error'' (Job_LastError j) @ omit_string ''worker_id'' (Job_WorkerID j))) }"

definition zero_job :: Job where
  "zero_job = \<lparr>Job_ID = 0, Job_Type = [], Job_Priority = 0, Job_Payload = [], Job_Metadata = None,
     Job_Status = [], Job_RetryPolicy = zero_policy, Job_CreatedAt = zero_time, Job_UpdatedAt = zero_time,
     Job_ScheduledAt = zero_time, Job_ProcessedAt = None, Job_CompletedAt = None, Job_FailedAt = None,
     Job_LastError = [], Job_WorkerID = []\<rparr>"

text \<open>An error of the library; its message is not modelled.\<close>

definition json_error :: go_error where
  "json_error = GoErr ''json''"

definition marshal_job :: "runtime \<Rightarrow> Job \<Rightarrow> string option" where
  "marshal_job r j = map_option render (enc_job r j)"

definition unmarshal_job :: "runtime \<Rightarrow> string \<Rightarrow> Job option" where
  "unmarshal_job r s = unmarshal (job_fields r) s zero_job"

section \<open>Round trips\<close>

text \<open>What the program relies on in the text forms of instants and identifiers.\<close>

definition codec_laws :: "runtime \<Rightarrow> bool" where
  "codec_laws r \<longleftrightarrow>
     (\<forall>t s. time_Text r t = Some s \<longrightarrow> utf8_fix s = s \<and> time_Parse r s = Some t) \<and>
     (\<forall>u. utf8_fix (uuid_String r u) = uuid_String r u \<and> uuid_Parse r (uuid_String r u) = Some u)"

text \<open>The numbers in a value are ones that are read back as they were written.\<close>

fun numbers_ok :: "runtime \<Rightarrow> json \<Rightarrow> bool" where
  "numbers_ok r (JNum q) \<longleftrightarrow>
     lex_number (float64_Text r q) = Some (float64_Text r q, []) \<and> float64_Parse r (float64_Text r q) = Some q"
| "numbers_ok r (JArr vs) \<longleftrightarrow> list_all (numbers_ok r) vs"
| "numbers_ok r (JObj m) \<longleftrightarrow> list_all (\<lambda>(k, v). numbers_ok r v) m"
| "numbers_ok r _ \<longleftrightarrow> True"

subsection \<open>Strings and numbers\<close>

lemma well_spelled_string [simp]: "well_spelled (enc_string s)"
  using lex_string_quote [of s "[]"] by (simp add: enc_string_def)

lemma lex_number_show_int: "lex_number (show_int i) = Some (show_int i, [])"
proof -
  have digits: "lex_int (show_nat n) = Some (show_nat n, [])" for n
  proof -
    obtain c cs where c: "show_nat n = c # cs" using show_nat_digits(2) [of n] by (cases "show_nat n") auto
    have all: "takeWhile is_digit (show_nat n) = show_nat n" "dropWhile is_digit (show_nat n) = []"
      using show_nat_digits(1) [of n] by (simp_all add: takeWhile_eq_all_conv list_all_iff)
    show ?thesis
    proof (cases "c = CHR ''0''")
      case True
      then have "n = 0" using show_nat_zero [of n] c by simp
      then have "show_nat n = ''0''" by (simp add: show_nat.simps digit_of_def)
      then show ?thesis by (simp add: lex_int_def)
    next
      case False
      then show ?thesis using c all by (simp add: lex_int_def lex_digits_def)
    qed
  qed
  have "\<not> negative (show_nat n)" for n
    using show_nat_digits [of n] by (cases "show_nat n") (auto simp: negative_def is_digit_def)
  then show ?thesis using digits
    by (auto simp: show_int_def lex_number_eq lex_frac_def lex_exp_def negative_def)
qed

lemma well_spelled_int [simp]: "well_spelled (enc_int n)" "nesting (enc_int n) = 0" "nesting (enc_string s) = 0"
  by (simp_all add: enc_int_def enc_string_def lex_number_show_int)

lemma dec_enc [simp]:
  "dec_string (enc_string s) old = Some (utf8_fix s)"
  "dec_int (enc_int n) i = Some n"
  by (simp_all add: dec_string_def enc_string_def dec_int_def enc_int_def unquote_quote Atoi_show_int)

lemma dec_enc_uuid: "codec_laws r \<Longrightarrow> dec_uuid r (enc_string (uuid_String r u)) old = Some u"
  by (simp add: dec_uuid_def enc_string_def unquote_quote codec_laws_def)

lemma dec_enc_time:
  assumes "codec_laws r" and "enc_time r t = Some x"
  shows "dec_time r x old = Some t" and "dec_time_ptr r x = Some (Some t)" and "well_spelled x" and "nesting x = 0"
proof -
  obtain s where s: "time_Text r t = Some s" "x = enc_string s"
    using assms(2) by (auto simp: enc_time_def)
  then show d: "dec_time r x old = Some t" for old
    using assms(1) by (simp add: dec_time_def enc_string_def unquote_quote codec_laws_def)
  show "dec_time_ptr r x = Some (Some t)" using d s by (simp add: dec_time_ptr_def enc_string_def)
  show "well_spelled x" "nesting x = 0" using s by simp_all
qed

text \<open>Plain ASCII names are read as they are written.\<close>

lemma unquote_plain:
  "list_all (\<lambda>c. byte c < 0x80 \<and> c \<noteq> CHR 0x5C) s \<Longrightarrow> unquote s = s"
  by (induction s) (auto simp: utf8_len_1_iff [THEN iffD2])

lemma lex_plain:
  "list_all (\<lambda>c. 0x20 \<le> byte c \<and> c \<noteq> CHR 0x5C \<and> c \<noteq> CHR 0x22) s \<Longrightarrow>
   lex_string (s @ [CHR 0x22]) = Some (s, [])"
proof (induction s)
  case Nil
  then show ?case by (simp add: lex_string.simps)
next
  case (Cons c s)
  then have "lex_unit (c # s @ [CHR 0x22]) = Some ([c], s @ [CHR 0x22])" by (simp add: lex_unit_def)
  from lex_string_unit [OF this] Cons show ?case by simp
qed

end
