(* ===== verification/Codec_Laws.thy ===== *)
theory Codec_Laws
  imports Codec
begin

text \<open>
  The round trip of a job through its JSON form, which the Redis queue depends on: what
  \<^verbatim>\<open>json.Unmarshal\<close> returns for the text that \<^verbatim>\<open>json.Marshal\<close> wrote.
\<close>

section \<open>Escaping the characters special to HTML\<close>

definition raw_ok :: "string \<Rightarrow> bool" where
  "raw_ok s \<longleftrightarrow> lex_string (s @ [CHR 0x22]) = Some (s, [])"

lemma raw_ok_Nil [simp]: "raw_ok []"
  by (simp add: raw_ok_def lex_string.simps)

lemma raw_ok_unit:
  assumes "lex_unit (x @ s @ [CHR 0x22]) = Some (x, s @ [CHR 0x22])" and "hd x \<noteq> CHR 0x22"
  shows "raw_ok (x @ s) \<longleftrightarrow> raw_ok s"
proof -
  have "x \<noteq> []" using lex_unit_self(2) [OF assms(1)] .
  then have "lex_string (x @ s @ [CHR 0x22]) =
      map_option (\<lambda>(r, u). (x @ r, u)) (lex_string (s @ [CHR 0x22]))"
    using lex_string_unit [OF assms(1)] assms(2) by simp
  then show ?thesis by (auto simp: raw_ok_def)
qed

lemma lex_unit_split: "lex_unit s = Some (x, t) \<Longrightarrow> s = x @ t"
  by (cases s; cases "tl s") (auto simp: lex_unit_def split: if_splits)

lemma raw_ok_cases:
  assumes "raw_ok s" and "s \<noteq> []"
  obtains x r where "s = x @ r" and "x \<noteq> []" and "hd x \<noteq> CHR 0x22" and "raw_ok r"
    and "\<And>y. lex_unit (x @ y) = Some (x, y)"
proof -
  let ?s = "s @ [CHR 0x22]"
  have nq: "hd ?s \<noteq> CHR 0x22"
  proof
    assume "hd ?s = CHR 0x22"
    then have "lex_string ?s = Some ([], tl ?s)" by (simp add: lex_string.simps [of ?s])
    then show False using assms by (simp add: raw_ok_def)
  qed
  then have "(case lex_unit ?s of None \<Rightarrow> None
      | Some (x, t) \<Rightarrow> map_option (\<lambda>(r, u). (x @ r, u)) (lex_string t)) = Some (s, [])"
    using assms(1) unfolding raw_ok_def lex_string.simps [of ?s] by simp
  then obtain x t r where x: "lex_unit ?s = Some (x, t)" and r: "lex_string t = Some (r, [])" "s = x @ r"
    by (cases "lex_unit ?s") auto
  note self = lex_unit_self [OF x]
  have "t = r @ [CHR 0x22]" using lex_unit_split [OF x] r(2) by simp
  then have "raw_ok r" using r(1) by (simp add: raw_ok_def)
  then show thesis using that [OF r(2) self(2)] self nq by auto
qed

lemma lex_unit_byte: "lex_unit ([c] @ y) = Some ([c], y) \<longleftrightarrow> c \<noteq> CHR 0x5C \<and> \<not> byte c < 0x20"
  by (cases y) (auto simp: lex_unit_def split: if_splits)

lemma raw_ok_Cons: "c \<noteq> CHR 0x5C \<Longrightarrow> c \<noteq> CHR 0x22 \<Longrightarrow> \<not> byte c < 0x20 \<Longrightarrow> raw_ok (c # s) \<longleftrightarrow> raw_ok s"
  using raw_ok_unit [of "[c]" s] lex_unit_byte [of c "s @ [CHR 0x22]"] by simp

lemma raw_ok_u:
  assumes "length hs = 4" and "list_all is_hex hs"
  shows "raw_ok (CHR 0x5C # CHR ''u'' # hs @ s) \<longleftrightarrow> raw_ok s"
  using raw_ok_unit [of "CHR 0x5C # CHR ''u'' # hs" s] assms by (simp add: lex_unit_def)

lemma raw_ok_html_u:
  "raw_ok ((CHR 0x5C # ''u003c'') @ s) \<longleftrightarrow> raw_ok s" "raw_ok ((CHR 0x5C # ''u003e'') @ s) \<longleftrightarrow> raw_ok s"
  "raw_ok ((CHR 0x5C # ''u0026'') @ s) \<longleftrightarrow> raw_ok s" "raw_ok ((CHR 0x5C # ''u2028'') @ s) \<longleftrightarrow> raw_ok s"
  "raw_ok ((CHR 0x5C # ''u2029'') @ s) \<longleftrightarrow> raw_ok s"
  using raw_ok_u [of "''003c''" s] raw_ok_u [of "''003e''" s] raw_ok_u [of "''0026''" s]
    raw_ok_u [of "''2028''" s] raw_ok_u [of "''2029''" s]
  by (simp_all add: is_hex_def is_digit_def)

text \<open>Characters that \<open>html_raw\<close> copies.\<close>

definition copied :: "char \<Rightarrow> bool" where
  "copied c \<longleftrightarrow> c \<notin> {CHR ''<'', CHR ''>'', CHR ''&'', CHR 0xE2}"

lemma html_raw_copied: "list_all copied xs \<Longrightarrow> html_raw (xs @ s) = xs @ html_raw s"
  by (induction xs) (auto simp: copied_def)

lemma unit_copied:
  assumes "lex_unit x = Some (x, [])" and "length x \<noteq> 1"
  shows "list_all copied x"
proof -
  have hex: "is_hex c \<Longrightarrow> copied c" "is_escape c \<Longrightarrow> copied c" for c
    by (auto simp: is_hex_def is_digit_def is_escape_def copied_def)
  obtain c e y where x: "x = c # e # y"
    using assms by (cases x; cases "tl x") auto
  then have c: "c = CHR 0x5C" using assms by (auto simp: lex_unit_def split: if_splits)
  then show ?thesis using assms x hex
    by (auto simp: lex_unit_def copied_def list_all_iff split: if_splits)
qed

lemma raw_ok_html: "raw_ok s \<Longrightarrow> raw_ok (html_raw s)"
proof (induction s rule: measure_induct_rule [of length])
  case (less s)
  show ?case
  proof (cases "s = []")
    case False
    then obtain x r where x: "s = x @ r" "x \<noteq> []" "hd x \<noteq> CHR 0x22" "raw_ok r"
      "\<And>y. lex_unit (x @ y) = Some (x, y)"
      using raw_ok_cases [OF less.prems] by blast
    have IH: "raw_ok (html_raw r)" using less.IH [of r] x by simp
    have unit: "raw_ok (x @ u) \<longleftrightarrow> raw_ok u" for u using raw_ok_unit x by simp
    show ?thesis
    proof (cases "length x = 1")
      case False
      then have "html_raw s = x @ html_raw r"
        using html_raw_copied [OF unit_copied] x(1) x(5) [of "[]"] by simp
      then show ?thesis using unit IH by simp
    next
      case True
      then obtain c where c: "x = [c]" by (cases x) auto
      have "raw_ok (html_raw (drop 2 r))" if sep: "take 2 r = [CHR 0x80, CHR 0xA8] \<or> take 2 r = [CHR 0x80, CHR 0xA9]"
      proof -
        obtain d where d: "r = CHR 0x80 # d # drop 2 r" "d = CHR 0xA8 \<or> d = CHR 0xA9"
          using sep by (cases r; cases "tl r") auto
        then have "raw_ok (drop 2 r)" using x(4) raw_ok_Cons [of "CHR 0x80" "d # drop 2 r"]
            raw_ok_Cons [of d "drop 2 r"] by auto
        then show ?thesis using less.IH [of "drop 2 r"] x(1) c by simp
      qed
      moreover have "raw_ok (c # html_raw r)" using unit [of "html_raw r"] IH c by simp
      ultimately have "raw_ok (html_raw (c # r))" using IH unfolding html_raw.simps(2)
        by (auto simp only: raw_ok_html_u split: if_split)
      then show ?thesis using x(1) c by simp
    qed
  qed simp
qed

text \<open>The escaped text is as well spelled and as deep as the text that was escaped.\<close>

lemma well_spelled_html: "well_spelled t \<Longrightarrow> well_spelled (html t)"
  by (induction t) (use raw_ok_html raw_ok_def in \<open>auto simp: list_all_iff\<close>)

lemma nesting_html [simp]: "nesting (html t) = nesting t"
proof (induction t)
  case (TArr ts)
  then have "map (nesting \<circ> html) ts = map nesting ts" by simp
  then show ?case unfolding html.simps nesting.simps map_map by (rule arg_cong)
next
  case (TObj ms)
  then have "map ((\<lambda>(k, v). nesting v) \<circ> (\<lambda>(k, v). (html_raw k, html v))) ms = map (\<lambda>(k, v). nesting v) ms"
    by (auto simp: case_prod_beta snds.simps)
  then show ?case unfolding html.simps nesting.simps map_map by (rule arg_cong)
qed simp_all

section \<open>Metadata\<close>

text \<open>
  The value that is read back: strings are repaired, and the entries of a map are put in the order of
  their keys.
\<close>

definition fill :: "(string, json) gomap \<Rightarrow> (string \<times> json) list \<Rightarrow> (string, json) gomap" where
  "fill m kvs = foldl (\<lambda>m (k, v). map_put m k v) m kvs"

fun norm_any :: "json \<Rightarrow> json" where
  "norm_any (JStr s) = JStr (utf8_fix s)"
| "norm_any (JArr vs) = JArr (map norm_any vs)"
| "norm_any (JObj m) = JObj (fill [] (map (\<lambda>(k, v). (utf8_fix k, v)) (sort_key fst (map (\<lambda>(k, v). (k, norm_any v)) m))))"
| "norm_any v = v"

lemma sort_key_snd:
  fixes m :: "('k::linorder \<times> 'v) list"
  shows "sort_key fst (map (\<lambda>(k, v). (k, f v)) m) = map (\<lambda>(k, v). (k, f v)) (sort_key fst m)"
proof -
  have "insort_key fst (k, f v) (map (\<lambda>(k, v). (k, f v)) xs) = map (\<lambda>(k, v). (k, f v)) (insort_key fst (k, v) xs)"
    for k :: "'k" and v xs by (induction xs) auto
  then show ?thesis by (induction m) auto
qed

lemma those_map: "(\<And>x. x \<in> set xs \<Longrightarrow> f x = Some (g x)) \<Longrightarrow> those (map f xs) = Some (map g xs)"
  by (induction xs) auto

lemma enc_any_JObj: "enc_any r (JObj m) = TObj (map (\<lambda>(k, v). (quote k, enc_any r v)) (sort_key fst m))"
  by (simp add: sort_key_snd case_prod_beta comp_def)

lemma norm_any_JObj: "norm_any (JObj m) = JObj (fill [] (map (\<lambda>(k, v). (utf8_fix k, norm_any v)) (sort_key fst m)))"
  unfolding norm_any.simps sort_key_snd map_map by (simp add: case_prod_unfold comp_def)

lemma zip_map_pair: "zip (map f xs) (map g xs) = map (\<lambda>x. (f x, g x)) xs"
  by (induction xs) auto

lemma dec_any_members:
  assumes "\<And>k v. (k, v) \<in> set kvs \<Longrightarrow> dec_any r (enc_any r v) = Some (norm_any v)"
  shows "those (map (\<lambda>m. dec_any r (snd m)) (map (\<lambda>(k, v). (quote k, enc_any r v)) kvs)) =
    Some (map (\<lambda>(k, v). norm_any v) kvs)"
  and "zip (map (unquote \<circ> fst) (map (\<lambda>(k, v). (quote k, enc_any r v)) kvs)) (map (\<lambda>(k, v). norm_any v) kvs) =
    map (\<lambda>(k, v). (utf8_fix k, norm_any v)) kvs"
  using assms by (auto simp: comp_def case_prod_beta zip_map_pair unquote_quote intro!: those_map)

lemma dec_enc_any: "numbers_ok r v \<Longrightarrow> dec_any r (enc_any r v) = Some (norm_any v)"
proof (induction v)
  case (JArr vs)
  then show ?case by (auto simp: list_all_iff comp_def intro!: those_map)
next
  case (JObj m)
  then have "(k, v) \<in> set (sort_key fst m) \<Longrightarrow> dec_any r (enc_any r v) = Some (norm_any v)" for k v
    by (auto simp: list_all_iff snds.simps)
  then show ?case unfolding enc_any_JObj norm_any_JObj fill_def
    using dec_any_members [of "sort_key fst m" r] by (simp add: case_prod_unfold)
qed (simp_all add: unquote_quote)

lemma well_spelled_any: "numbers_ok r v \<Longrightarrow> well_spelled (enc_any r v)"
proof (induction v)
  case (JObj m)
  then show ?case unfolding enc_any_JObj
    using lex_string_quote [of _ "[]"] by (auto simp: list_all_iff snds.simps)
qed (use lex_string_quote [of _ "[]"] in \<open>auto simp: list_all_iff\<close>)

definition norm_meta :: "Metadata \<Rightarrow> Metadata" where
  "norm_meta m = map_option (\<lambda>kv. case norm_any (JObj kv) of JObj kv' \<Rightarrow> kv' | _ \<Rightarrow> []) m"

definition meta_numbers :: "runtime \<Rightarrow> Metadata \<Rightarrow> bool" where
  "meta_numbers r m \<longleftrightarrow> (case m of None \<Rightarrow> True | Some kv \<Rightarrow> numbers_ok r (JObj kv))"

lemma dec_enc_meta:
  assumes "meta_numbers r m"
  shows "dec_meta r (enc_meta r m) None = Some (norm_meta m)" and "well_spelled (enc_meta r m)"
proof -
  show "dec_meta r (enc_meta r m) None = Some (norm_meta m)"
  proof (cases m)
    case (Some kv)
    then have "numbers_ok r (JObj kv)" using assms by (simp add: meta_numbers_def)
    then have "(k, v) \<in> set (sort_key fst kv) \<Longrightarrow> dec_any r (enc_any r v) = Some (norm_any v)" for k v
      by (auto simp: list_all_iff intro: dec_enc_any)
    then show ?thesis unfolding Some enc_meta_def norm_meta_def dec_meta_def option.simps enc_any_JObj norm_any_JObj fill_def
      using dec_any_members [of "sort_key fst kv" r] by (simp add: case_prod_unfold)
  qed (simp add: enc_meta_def dec_meta_def norm_meta_def)
  show "well_spelled (enc_meta r m)"
  proof (cases m)
    case (Some kv)
    then have "numbers_ok r (JObj kv)" using assms by (simp add: meta_numbers_def)
    then show ?thesis using well_spelled_any [of r "JObj kv"] Some by (simp add: enc_meta_def)
  qed (simp add: enc_meta_def)
qed

section \<open>Structs\<close>

text \<open>The names of the fields need no escapes.\<close>

lemma field_names:
  "list_all (\<lambda>k. list_all (\<lambda>c. 0x20 \<le> byte c \<and> byte c < 0x80 \<and> c \<noteq> CHR 0x5C \<and> c \<noteq> CHR 0x22) k)
     [''id'', ''type'', ''priority'', ''payload'', ''metadata'', ''status'', ''retry_policy'', ''created_at'', ''updated_at'',
      ''scheduled_at'', ''processed_at'', ''completed_at'', ''failed_at'', ''last_error'', ''worker_id'',
      ''max_attempts'', ''current_attempts'', ''base_delay'', ''max_delay'', ''backoff_strategy'', ''last_attempt_at'']"
  by simp

definition plain :: "string \<Rightarrow> bool" where
  "plain k \<longleftrightarrow> list_all (\<lambda>c. 0x20 \<le> byte c \<and> byte c < 0x80 \<and> c \<noteq> CHR 0x5C \<and> c \<noteq> CHR 0x22) k"

lemma plain_name:
  assumes "plain k"
  shows "unquote k = k" and "lex_string (k @ [CHR 0x22]) = Some (k, [])"
  using assms unquote_plain [of k] lex_plain [of k] by (simp_all add: plain_def list_all_iff)

lemma plain_fields [simp]:
  "plain ''id''" "plain ''type''" "plain ''priority''" "plain ''payload''" "plain ''metadata''" "plain ''status''"
  "plain ''retry_policy''" "plain ''created_at''" "plain ''updated_at''" "plain ''scheduled_at''" "plain ''processed_at''"
  "plain ''completed_at''" "plain ''failed_at''" "plain ''last_error''" "plain ''worker_id''" "plain ''max_attempts''"
  "plain ''current_attempts''" "plain ''base_delay''" "plain ''max_delay''" "plain ''backoff_strategy''"
  "plain ''last_attempt_at''"
  using field_names unfolding plain_def [symmetric] by simp_all

lemma dec_member_hit:
  "plain k \<Longrightarrow> find_field fs k = Some d \<Longrightarrow> dec_member fs (Some x) (k, t) = d t x"
  by (simp add: dec_member_def plain_name(1))

text \<open>Optional fields: absent, or read back into the value they had.\<close>

lemma dec_omit_time:
  assumes "codec_laws r" and "omit_time r k t = Some ms" and "plain k"
    and "find_field fs k = Some (\<lambda>x j. map_option (\<lambda>y. put y j) (dec_time_ptr r x))" and "put None j = j"
  shows "foldl (dec_member fs) (Some j) ms = Some (put t j)"
proof (cases t)
  case (Some t')
  then obtain x where x: "enc_time r t' = Some x" "ms = [(k, x)]" using assms(2) by (auto simp: omit_time_def)
  then show ?thesis using Some dec_enc_time(2) [OF assms(1) x(1)]
    by (simp add: dec_member_hit [OF assms(3,4)])
qed (use assms in \<open>simp add: omit_time_def\<close>)

lemma spelled_omit_time:
  assumes "codec_laws r" and "omit_time r k t = Some ms" and "plain k"
  shows "well_spelled (TObj ms)"
proof (cases t)
  case (Some t')
  then obtain x where x: "enc_time r t' = Some x" "ms = [(k, x)]" using assms(2) by (auto simp: omit_time_def)
  then show ?thesis using dec_enc_time(3) [OF assms(1) x(1)] plain_name(2) [OF assms(3)] by simp
qed (use assms in \<open>simp add: omit_time_def\<close>)

lemma dec_omit_string:
  assumes "plain k" and "find_field fs k = Some (\<lambda>x j. map_option (\<lambda>y. put y j) (dec_string x (get j)))"
    and "put [] j = j"
  shows "foldl (dec_member fs) (Some j) (omit_string k s) = Some (put (utf8_fix s) j)"
  using assms(3) by (simp add: omit_string_def dec_member_hit [OF assms(1,2)])

lemma spelled_omit_string: "plain k \<Longrightarrow> well_spelled (TObj (omit_string k s))"
  by (simp add: omit_string_def plain_name)

lemma spelled_append: "well_spelled (TObj (xs @ ys)) \<longleftrightarrow> well_spelled (TObj xs) \<and> well_spelled (TObj ys)"
  by simp

lemma spelled_members: "list_all (\<lambda>(k, v). plain k \<and> well_spelled v) ms \<Longrightarrow> well_spelled (TObj ms)"
  by (auto simp: list_all_iff plain_name)

definition norm_retry :: "RetryPolicy \<Rightarrow> RetryPolicy" where
  "norm_retry p = p\<lparr>BackoffStrategy := utf8_fix (BackoffStrategy p)\<rparr>"

lemma find_retry [simp]:
  "find_field (retry_fields r) ''max_attempts'' = Some (snd (fld [] dec_int MaxAttempts (\<lambda>x p. p\<lparr>MaxAttempts := x\<rparr>)))"
  "find_field (retry_fields r) ''current_attempts'' =
    Some (snd (fld [] dec_int CurrentAttempts (\<lambda>x p. p\<lparr>CurrentAttempts := x\<rparr>)))"
  "find_field (retry_fields r) ''base_delay'' = Some (snd (fld [] dec_int BaseDelay (\<lambda>x p. p\<lparr>BaseDelay := x\<rparr>)))"
  "find_field (retry_fields r) ''max_delay'' = Some (snd (fld [] dec_int MaxDelay (\<lambda>x p. p\<lparr>MaxDelay := x\<rparr>)))"
  "find_field (retry_fields r) ''backoff_strategy'' =
    Some (snd (fld [] dec_string BackoffStrategy (\<lambda>x p. p\<lparr>BackoffStrategy := x\<rparr>)))"
  "find_field (retry_fields r) ''last_attempt_at'' =
    Some (\<lambda>x p. map_option (\<lambda>y. p\<lparr>LastAttemptAt := y\<rparr>) (dec_time_ptr r x))"
  by (simp_all add: find_field_def retry_fields_def fld_def)

lemma dec_enc_retry:
  assumes "codec_laws r" and "enc_retry r p = Some t"
  shows "dec_struct (retry_fields r) t zero_policy = Some (norm_retry p)" and "well_spelled t"
proof -
  obtain lt where lt: "omit_time r ''last_attempt_at'' (LastAttemptAt p) = Some lt"
    and t: "t = TObj ([(''max_attempts'', enc_int (MaxAttempts p)), (''current_attempts'', enc_int (CurrentAttempts p)),
       (''base_delay'', enc_int (BaseDelay p)), (''max_delay'', enc_int (MaxDelay p)),
       (''backoff_strategy'', enc_string (BackoffStrategy p))] @ lt)"
    using assms(2) by (auto simp: enc_retry_def bind_eq_Some_conv)
  show "dec_struct (retry_fields r) t zero_policy = Some (norm_retry p)"
    unfolding t dec_struct_def jtext.case foldl_append
    by (simp add: dec_member_hit fld_def zero_policy_def
        dec_omit_time [OF assms(1) lt, of _ "\<lambda>y p. p\<lparr>LastAttemptAt := y\<rparr>"] norm_retry_def)
  show "well_spelled t" unfolding t spelled_append
    using spelled_omit_time [OF assms(1) lt] by (auto intro!: spelled_members simp del: well_spelled.simps)
qed

section \<open>Jobs\<close>

text \<open>The job that is read back.\<close>

definition norm_payload :: "string \<Rightarrow> string" where
  "norm_payload p = (case json_parse p of None \<Rightarrow> ''null'' | Some t \<Rightarrow> render (html t))"

definition norm_job :: "Job \<Rightarrow> Job" where
  "norm_job j = j\<lparr>Job_Type := utf8_fix (Job_Type j), Job_Payload := norm_payload (Job_Payload j),
     Job_Metadata := norm_meta (Job_Metadata j), Job_Status := utf8_fix (Job_Status j),
     Job_RetryPolicy := norm_retry (Job_RetryPolicy j), Job_LastError := utf8_fix (Job_LastError j),
     Job_WorkerID := utf8_fix (Job_WorkerID j)\<rparr>"

lemma dec_enc_raw:
  assumes "enc_raw p = Some t"
  shows "dec_raw t old = Some (norm_payload p)" and "well_spelled t"
proof -
  have nil: "json_parse [] = None" by (simp add: json_parse_def skip_ws_def)
  show "dec_raw t old = Some (norm_payload p)"
    using assms nil by (auto simp: dec_raw_def enc_raw_def norm_payload_def split: if_splits)
  show "well_spelled t"
    using assms json_parse_sound well_spelled_html by (auto simp: enc_raw_def split: if_splits)
qed

lemma find_job [simp]:
  "find_field (job_fields r) ''id'' =
    Some (\<lambda>t j. map_option (\<lambda>x. j\<lparr>Job_ID := x\<rparr>) (dec_uuid r t (Job_ID j)))"
  "find_field (job_fields r) ''type'' =
    Some (\<lambda>t j. map_option (\<lambda>x. j\<lparr>Job_Type := x\<rparr>) (dec_string t (Job_Type j)))"
  "find_field (job_fields r) ''priority'' =
    Some (\<lambda>t j. map_option (\<lambda>x. j\<lparr>Job_Priority := x\<rparr>) (dec_int t (Job_Priority j)))"
  "find_field (job_fields r) ''payload'' =
    Some (\<lambda>t j. map_option (\<lambda>x. j\<lparr>Job_Payload := x\<rparr>) (dec_raw t (Job_Payload j)))"
  "find_field (job_fields r) ''metadata'' =
    Some (\<lambda>t j. map_option (\<lambda>x. j\<lparr>Job_Metadata := x\<rparr>) (dec_meta r t (Job_Metadata j)))"
  "find_field (job_fields r) ''status'' =
    Some (\<lambda>t j. map_option (\<lambda>x. j\<lparr>Job_Status := x\<rparr>) (dec_string t (Job_Status j)))"
  "find_field (job_fields r) ''retry_policy'' =
    Some (\<lambda>t j. map_option (\<lambda>x. j\<lparr>Job_RetryPolicy := x\<rparr>) (dec_struct (retry_fields r) t (Job_RetryPolicy j)))"
  "find_field (job_fields r) ''created_at'' =
    Some (\<lambda>t j. map_option (\<lambda>x. j\<lparr>Job_CreatedAt := x\<rparr>) (dec_time r t (Job_CreatedAt j)))"
  "find_field (job_fields r) ''updated_at'' =
    Some (\<lambda>t j. map_option (\<lambda>x. j\<lparr>Job_UpdatedAt := x\<rparr>) (dec_time r t (Job_UpdatedAt j)))"
  "find_field (job_fields r) ''scheduled_at'' =
    Some (\<lambda>t j. map_option (\<lambda>x. j\<lparr>Job_ScheduledAt := x\<rparr>) (dec_time r t (Job_ScheduledAt j)))"
  "find_field (job_fields r) ''processed_at'' = Some (\<lambda>t j. map_option (\<lambda>x. j\<lparr>Job_ProcessedAt := x\<rparr>) (dec_time_ptr r t))"
  "find_field (job_fields r) ''completed_at'' = Some (\<lambda>t j. map_option (\<lambda>x. j\<lparr>Job_CompletedAt := x\<rparr>) (dec_time_ptr r t))"
  "find_field (job_fields r) ''failed_at'' = Some (\<lambda>t j. map_option (\<lambda>x. j\<lparr>Job_FailedAt := x\<rparr>) (dec_time_ptr r t))"
  "find_field (job_fields r) ''last_error'' = Some (\<lambda>t j. map_option (\<lambda>x. j\<lparr>Job_LastError := x\<rparr>) (dec_string t (Job_LastError j)))"
  "find_field (job_fields r) ''worker_id'' = Some (\<lambda>t j. map_option (\<lambda>x. j\<lparr>Job_WorkerID := x\<rparr>) (dec_string t (Job_WorkerID j)))"
  by (simp_all add: find_field_def job_fields_def fld_def)

text \<open>What \<^verbatim>\<open>json.Marshal\<close> writes for a job is well-formed JSON, whatever bytes its strings hold.\<close>

lemma enc_job_parts:
  assumes "enc_job r j = Some t"
  obtains payload policy created updated scheduled processed completed failed where
    "enc_raw (Job_Payload j) = Some payload" "enc_retry r (Job_RetryPolicy j) = Some policy"
    "enc_time r (Job_CreatedAt j) = Some created" "enc_time r (Job_UpdatedAt j) = Some updated"
    "enc_time r (Job_ScheduledAt j) = Some scheduled"
    "omit_time r ''processed_at'' (Job_ProcessedAt j) = Some processed"
    "omit_time r ''completed_at'' (Job_CompletedAt j) = Some completed"
    "omit_time r ''failed_at'' (Job_FailedAt j) = Some failed"
    "t = TObj ([(''id'', enc_string (uuid_String r (Job_ID j))), (''type'', enc_string (Job_Type j)),
       (''priority'', enc_int (Job_Priority j)), (''payload'', payload), (''metadata'', enc_meta r (Job_Metadata j)),
       (''status'', enc_string (Job_Status j)), (''retry_policy'', policy), (''created_at'', created),
       (''updated_at'', updated), (''scheduled_at'', scheduled)] @ processed @ completed @ failed @
       omit_string ''last_error'' (Job_LastError j) @ omit_string ''worker_id'' (Job_WorkerID j))"
  using assms by (auto simp: enc_job_def bind_eq_Some_conv)

lemma well_spelled_job:
  assumes "codec_laws r" and "meta_numbers r (Job_Metadata j)" and "enc_job r j = Some t"
  shows "well_spelled t"
proof (rule enc_job_parts [OF assms(3)], goal_cases)
  case (1 payload policy created updated scheduled processed completed failed)
  note omit = spelled_omit_time [OF assms(1) 1(6)] spelled_omit_time [OF assms(1) 1(7)] spelled_omit_time [OF assms(1) 1(8)]
  note parts = dec_enc_raw(2) [OF 1(1)] dec_enc_retry(2) [OF assms(1) 1(2)] dec_enc_meta(2) [OF assms(2)]
    dec_enc_time(3) [OF assms(1) 1(3)] dec_enc_time(3) [OF assms(1) 1(4)] dec_enc_time(3) [OF assms(1) 1(5)]
  show ?case unfolding 1(9) spelled_append
  proof (intro conjI omit spelled_omit_string plain_fields)
  qed (rule spelled_members, simp add: parts)
qed

lemma dec_enc_job:
  assumes "codec_laws r" and "meta_numbers r (Job_Metadata j)" and "enc_job r j = Some t"
  shows "dec_struct (job_fields r) t zero_job = Some (norm_job j)"
proof (rule enc_job_parts [OF assms(3)], goal_cases)
  case (1 payload policy created updated scheduled processed completed failed)
  note L = assms(1)
  note members = dec_enc_uuid [OF L] dec_enc_raw(1) [OF 1(1)] dec_enc_meta(1) [OF assms(2)]
    dec_enc_retry(1) [OF L 1(2)] dec_enc_time(1) [OF L 1(3)] dec_enc_time(1) [OF L 1(4)] dec_enc_time(1) [OF L 1(5)]
  show ?case unfolding 1(9) dec_struct_def jtext.case foldl_append
    by (simp add: dec_member_hit members zero_job_def
        dec_omit_time [OF L 1(6), of _ "\<lambda>y j. j\<lparr>Job_ProcessedAt := y\<rparr>"]
        dec_omit_time [OF L 1(7), of _ "\<lambda>y j. j\<lparr>Job_CompletedAt := y\<rparr>"]
        dec_omit_time [OF L 1(8), of _ "\<lambda>y j. j\<lparr>Job_FailedAt := y\<rparr>"]
        dec_omit_string [where put = "\<lambda>y j. j\<lparr>Job_LastError := y\<rparr>" and get = Job_LastError]
        dec_omit_string [where put = "\<lambda>y j. j\<lparr>Job_WorkerID := y\<rparr>" and get = Job_WorkerID]
        norm_job_def)
qed

lemma unmarshal_enc_job:
  assumes "codec_laws r" and "meta_numbers r (Job_Metadata j)" and "enc_job r j = Some t" and "nesting t \<le> 10000"
  shows "unmarshal_job r (render t) = Some (norm_job j)"
  using json_parse_render [OF well_spelled_job [OF assms(1-3)] assms(4)] dec_enc_job [OF assms(1-3)]
  by (simp add: unmarshal_job_def unmarshal_def)

text \<open>A job whose values are not nested too deeply for the library to read back.\<close>

definition readable :: "runtime \<Rightarrow> Job \<Rightarrow> bool" where
  "readable r j \<longleftrightarrow> meta_numbers r (Job_Metadata j) \<and> (\<forall>t. enc_job r j = Some t \<longrightarrow> nesting t \<le> 10000)"

lemma unmarshal_marshal:
  assumes "codec_laws r" and "readable r j" and "marshal_job r j = Some s"
  shows "unmarshal_job r s = Some (norm_job j)"
  using assms unmarshal_enc_job by (auto simp: marshal_job_def readable_def)

text \<open>
  C13: The JSON form of a job keeps everything the services decide on: whatever bytes the strings of the
  job hold, reading the text that was written for it succeeds and returns the same identifier,
  priority, instants, attempt counters and delays, a payload that denotes the same JSON text with the
  characters special to HTML escaped, the metadata in the order of its keys, and every string repaired to UTF-8.
\<close>

theorem job_json_roundtrip:
  assumes "codec_laws r" and "readable r j" and "marshal_job r j = Some s"
  shows "unmarshal_job r s = Some (norm_job j)"
  by (rule unmarshal_marshal [OF assms])

text \<open>The environment of the examples.\<close>

lemma utf8_fix_ascii: "list_all (\<lambda>c. byte c < 0x80) s \<Longrightarrow> utf8_fix s = s"
  by (induction s) (auto simp: Let_def utf8_len_1_iff [THEN iffD2])

lemma utf8_fix_show_int: "utf8_fix (show_int i) = show_int i"
proof (rule utf8_fix_ascii)
  have "is_digit c \<Longrightarrow> byte c < 0x80" for c by (auto simp: is_digit_def)
  then show "list_all (\<lambda>c. byte c < 0x80) (show_int i)"
    using show_nat_digits(1) by (auto simp: show_int_def list_all_iff)
qed

lemma demo_codec_laws: "codec_laws demo_runtime"
  by (simp add: codec_laws_def demo_runtime_def utf8_fix_show_int demo_parse_show)

definition demo_text :: jtext where
  "demo_text = TObj [(''to'', TStr ''ann'')]"

lemma demo_text: "json_parse (render demo_text) = Some demo_text"
proof (rule json_parse_render)
  have "plain ''to''" "plain ''ann''" by (simp_all add: plain_def)
  then show "well_spelled demo_text" using plain_name(2) [of "''to''"] plain_name(2) [of "''ann''"]
    by (simp add: demo_text_def)
  show "nesting demo_text \<le> 10000" by (simp add: demo_text_def)
qed

definition demo_job :: Job where
  "demo_job = zero_job\<lparr>Job_ID := 7, Job_Type := ''email_notification'', Job_Priority := 4,
     Job_Payload := render demo_text, Job_Metadata := Some [(''n'', JNum 3), (''a'', JBool True)],
     Job_Status := ''pending'', Job_CompletedAt := Some 5\<rparr>"

lemma demo_readable: "readable demo_runtime demo_job" "marshal_job demo_runtime demo_job \<noteq> None"
proof -
  have raw: "enc_raw (render demo_text) = Some demo_text"
    using demo_text by (simp add: enc_raw_def demo_text_def)
  have nest: "nesting demo_text = 1" by (simp add: demo_text_def)
  have enc: "\<exists>t. enc_job demo_runtime demo_job = Some t \<and> nesting t \<le> 10000"
    by (simp add: enc_job_def demo_job_def raw zero_job_def enc_retry_def omit_time_def zero_policy_def enc_time_def
        demo_runtime_def enc_meta_def omit_string_def nest)
  show "marshal_job demo_runtime demo_job \<noteq> None" using enc by (auto simp: marshal_job_def)
  have "meta_numbers demo_runtime (Job_Metadata demo_job)"
    by (simp add: meta_numbers_def demo_job_def demo_runtime_def lex_number_show_int demo_parse_show)
  then show "readable demo_runtime demo_job" using enc by (auto simp: readable_def)
qed

theorem job_json_roundtrip_witness:
  "\<exists>s. marshal_job demo_runtime demo_job = Some s \<and> unmarshal_job demo_runtime s = Some (norm_job demo_job)"
proof -
  obtain s where "marshal_job demo_runtime demo_job = Some s" using demo_readable(2) by blast
  then show ?thesis using job_json_roundtrip [OF demo_codec_laws demo_readable(1)] by blast
qed

end
