(* ===== verification/Redis_Queue.thy ===== *)
theory Redis_Queue
  imports Codec_Laws
begin

text \<open>
  \<^verbatim>\<open>internal/adapters/secondary/queue/redis.go\<close>: the queue on a Redis server, which both programs run
  with. The client library is a parameter, a record of the commands that the adapter sends; what the
  adapter relies on in them is \<open>redis_laws\<close>. The queue holds the JSON texts of the jobs, so a job that is
  taken from it is a new object.
\<close>

section \<open>The client\<close>

text \<open>
  A command changes the state of the server and returns a result or an error; \<open>redis_Nil\<close> is the error
  that stands for an empty reply. Scores are float64 values; the ones that occur are integers.
\<close>

record 'q redis =
  LPush :: "ctx \<Rightarrow> string \<Rightarrow> string \<Rightarrow> 'q \<Rightarrow> go_error option \<times> 'q"
  BRPop :: "ctx \<Rightarrow> duration \<Rightarrow> string list \<Rightarrow> 'q \<Rightarrow> (go_error + string list) \<times> 'q"
  ZAdd :: "ctx \<Rightarrow> string \<Rightarrow> int \<Rightarrow> string \<Rightarrow> 'q \<Rightarrow> go_error option \<times> 'q"
  ZRangeByScore :: "ctx \<Rightarrow> string \<Rightarrow> string \<Rightarrow> string \<Rightarrow> 'q \<Rightarrow> (go_error + string list) \<times> 'q"
  ZRem :: "ctx \<Rightarrow> string \<Rightarrow> string \<Rightarrow> 'q \<Rightarrow> go_error option \<times> 'q"
  LLen :: "ctx \<Rightarrow> string \<Rightarrow> 'q \<Rightarrow> (go_error + go_int) \<times> 'q"
  ZCard :: "ctx \<Rightarrow> string \<Rightarrow> 'q \<Rightarrow> (go_error + go_int) \<times> 'q"
  Ping :: "ctx \<Rightarrow> 'q \<Rightarrow> go_error option \<times> 'q"
  redis_Nil :: go_error

definition call :: "('q \<Rightarrow> 'a \<times> 'q) \<Rightarrow> ('st, 'q, 'a) prog" where
  "call f = State (\<lambda>w. (fst (f (queue w)), w\<lparr>queue := snd (f (queue w))\<rparr>))"

lemma wp_call [wp_simps]: "wp (call f) Q w \<longleftrightarrow> Q (fst (f (queue w))) (w\<lparr>queue := snd (f (queue w))\<rparr>)"
  by (simp add: call_def wp_def)

text \<open>The conversion of an integer to float64: to the nearest multiple of the last place, ties to even.\<close>

fun float_shift :: "nat \<Rightarrow> nat" where
  "float_shift n = (if n < 2 ^ 53 then 0 else Suc (float_shift (n div 2)))"

declare float_shift.simps [simp del]

definition float64_of_int :: "int \<Rightarrow> int" where
  "float64_of_int n =
     (let m = nat \<bar>n\<bar>; u = 2 ^ float_shift m; q = m div u; r = m mod u;
          q' = (if u < 2 * r \<or> u = 2 * r \<and> odd q then q + 1 else q)
      in sgn n * int (q' * u))"

lemma float64_of_int_exact: "\<bar>n\<bar> < 2 ^ 53 \<Longrightarrow> float64_of_int n = n"
proof -
  assume "\<bar>n\<bar> < 2 ^ 53"
  then have "nat \<bar>n\<bar> < 2 ^ 53" by (simp add: nat_less_iff)
  then have "float_shift (nat \<bar>n\<bar>) = 0" by (simp add: float_shift.simps)
  then show ?thesis by (simp add: float64_of_int_def Let_def mult_sgn_abs)
qed

text \<open>The format \<^verbatim>\<open>%f\<close> for a value that is an integer.\<close>

definition fmt_f :: "int \<Rightarrow> string" where
  "fmt_f n = show_int n @ ''.000000''"

section \<open>Operations\<close>

definition getQueueName :: "Priority \<Rightarrow> string" where
  "getQueueName priority = ''jobs_'' @ Priority_String priority"

text \<open>\<^verbatim>\<open>InitRedis\<close>; \<open>parse\<close> is \<^verbatim>\<open>redis.ParseURL\<close>, \<open>new\<close> is \<^verbatim>\<open>redis.NewClient\<close>.\<close>

definition InitRedis ::
  "(string \<Rightarrow> go_error + 'o) \<Rightarrow> ('o \<Rightarrow> 'q redis) \<Rightarrow> string \<Rightarrow> ('st, 'q, go_error + 'q redis) prog" where
  "InitRedis parse new redisURL = (case parse redisURL of
     Inl err \<Rightarrow> ret (Inl (Wrapped ''failed to parse Redis URL: '' err))
   | Inr opt \<Rightarrow> do {
       err \<leftarrow> call (Ping (new opt) \<lparr>deadline = None\<rparr>);
       ret (case err of Some e \<Rightarrow> Inl (Wrapped ''failed to ping Redis: '' e) | None \<Rightarrow> Inr (new opt)) })"

text \<open>The adapter is returned in any case; its client is nil when the initialization failed.\<close>

definition NewRedisQueue ::
  "(string \<Rightarrow> go_error + 'o) \<Rightarrow> ('o \<Rightarrow> 'q redis) \<Rightarrow> string \<Rightarrow> ('st, 'q, 'q redis option) prog" where
  "NewRedisQueue parse new redisURL = do {
     r \<leftarrow> InitRedis parse new redisURL;
     (case r of
        Inl err \<Rightarrow> do { printf ''Redis initialization failed: '' [FmtStr (Error err)]; ret None }
      | Inr client \<Rightarrow> ret (Some client)) }"

definition RedisQueue_Enqueue :: "'q redis \<Rightarrow> ctx \<Rightarrow> job_ref \<Rightarrow> ('st, 'q, go_error option) prog" where
  "RedisQueue_Enqueue C c j = do {
     job \<leftarrow> read_job j;
     r \<leftarrow> gets rt;
     (case marshal_job r job of
        None \<Rightarrow> ret (Some (Wrapped ''failed to marshal job: '' json_error))
      | Some jobData \<Rightarrow> call (LPush C c (getQueueName (Job_Priority job)) jobData)) }"

definition RedisQueue_Dequeue ::
  "'q redis \<Rightarrow> ctx \<Rightarrow> Priority list \<Rightarrow> ('st, 'q, go_error + job_ref option) prog" where
  "RedisQueue_Dequeue C c priorities = do {
     res \<leftarrow> call (BRPop C c Second (map getQueueName priorities));
     r \<leftarrow> gets rt;
     (case res of
        Inl err \<Rightarrow> ret (Inl (if err = redis_Nil C then GoErr ''no jobs available'' else err))
      | Inr result \<Rightarrow>
          if length result < 2 then ret (Inl (GoErr ''invalid redis response''))
          else (case unmarshal_job r (result ! 1) of
             None \<Rightarrow> ret (Inl (Wrapped ''failed to unmarshal job: '' json_error))
           | Some job \<Rightarrow> do { j \<leftarrow> alloc_job job; ret (Inr (Some j)) })) }"

definition RedisQueue_EnqueueDelayed ::
  "'q redis \<Rightarrow> ctx \<Rightarrow> job_ref \<Rightarrow> time \<Rightarrow> ('st, 'q, go_error option) prog" where
  "RedisQueue_EnqueueDelayed C c j delayUntil = do {
     job \<leftarrow> read_job j;
     r \<leftarrow> gets rt;
     (case marshal_job r job of
        None \<Rightarrow> ret (Some (Wrapped ''failed to marshal job: '' json_error))
      | Some jobData \<Rightarrow> call (ZAdd C c ''delayed_jobs'' (float64_of_int (time_Unix delayUntil)) jobData)) }"

definition RedisQueue_MoveToDeadLetter :: "'q redis \<Rightarrow> ctx \<Rightarrow> job_ref \<Rightarrow> ('st, 'q, go_error option) prog" where
  "RedisQueue_MoveToDeadLetter C c j = do {
     job \<leftarrow> read_job j;
     r \<leftarrow> gets rt;
     (case marshal_job r job of
        None \<Rightarrow> ret (Some (Wrapped ''failed to marshal job: '' json_error))
      | Some jobData \<Rightarrow> call (LPush C c ''dead_letter_queue'' jobData)) }"

text \<open>The body of the loop over the due jobs, and the loop.\<close>

definition move_one :: "'q redis \<Rightarrow> ctx \<Rightarrow> string \<Rightarrow> ('st, 'q, unit) prog" where
  "move_one C c jobData = do {
     r \<leftarrow> gets rt;
     (case unmarshal_job r jobData of
        None \<Rightarrow> ret ()
      | Some job \<Rightarrow> do {
          j \<leftarrow> alloc_job job;
          err \<leftarrow> RedisQueue_Enqueue C c j;
          (if err \<noteq> None then ret ()
           else do { _ \<leftarrow> call (ZRem C c ''delayed_jobs'' jobData); ret () }) }) }"

fun move_loop :: "'q redis \<Rightarrow> ctx \<Rightarrow> string list \<Rightarrow> ('st, 'q, unit) prog" where
  "move_loop C c [] = ret ()"
| "move_loop C c (jobData # jobs) = do {
     move_one C c jobData;
     move_loop C c jobs }"

definition RedisQueue_ProcessDelayedJobs :: "'q redis \<Rightarrow> ctx \<Rightarrow> ('st, 'q, go_error option) prog" where
  "RedisQueue_ProcessDelayedJobs C c = do {
     t \<leftarrow> now;
     res \<leftarrow> call (ZRangeByScore C c ''delayed_jobs'' ''0'' (fmt_f (float64_of_int (time_Unix t))));
     (case res of
        Inl err \<Rightarrow> ret (Some err)
      | Inr jobs \<Rightarrow> do { move_loop C c jobs; ret None }) }"

text \<open>The lengths of the active queues: what was counted before an error, and the error.\<close>

fun stats_loop :: "'q redis \<Rightarrow> ctx \<Rightarrow> Priority list \<Rightarrow> QueueStats \<Rightarrow> ('st, 'q, QueueStats \<times> go_error option) prog" where
  "stats_loop C c [] stats = ret (stats, None)"
| "stats_loop C c (priority # ps) stats = do {
     res \<leftarrow> call (LLen C c (getQueueName priority));
     (case res of
        Inl err \<Rightarrow> ret (stats, Some err)
      | Inr n \<Rightarrow> stats_loop C c ps (stats\<lparr>ActiveJobs := map_put (ActiveJobs stats) priority n\<rparr>)) }"

definition RedisQueue_GetQueueStats :: "'q redis \<Rightarrow> ctx \<Rightarrow> ('st, 'q, QueueStats \<times> go_error option) prog" where
  "RedisQueue_GetQueueStats C c = do {
     (stats, err) \<leftarrow> stats_loop C c [PriorityLow, PriorityMedium, PriorityHigh, PriorityCritical]
       \<lparr>ActiveJobs = [], DelayedJobs = 0, DeadLetterJobs = 0\<rparr>;
     (if err \<noteq> None then ret (stats, err)
      else do {
        res \<leftarrow> call (ZCard C c ''delayed_jobs'');
        (case res of
           Inl err \<Rightarrow> ret (stats, Some err)
         | Inr delayedCount \<Rightarrow> do {
             let stats = stats\<lparr>DelayedJobs := delayedCount\<rparr>;
             res \<leftarrow> call (LLen C c ''dead_letter_queue'');
             (case res of
                Inl err \<Rightarrow> ret (stats, Some err)
              | Inr deadCount \<Rightarrow> ret (stats\<lparr>DeadLetterJobs := deadCount\<rparr>, None)) }) }) }"

definition redis_queue :: "'q redis \<Rightarrow> ('st, 'q) QueuePort" where
  "redis_queue C = \<lparr>Enqueue = RedisQueue_Enqueue C, Dequeue = RedisQueue_Dequeue C,
     EnqueueDelayed = RedisQueue_EnqueueDelayed C, MoveToDeadLetter = RedisQueue_MoveToDeadLetter C,
     GetQueueStats = RedisQueue_GetQueueStats C, ProcessDelayedJobs = RedisQueue_ProcessDelayedJobs C\<rparr>"

section \<open>What the adapter relies on\<close>

text \<open>
  \<open>L q k\<close> is the list under key \<open>k\<close>, its left end first; \<open>Z q k\<close> gives the scores of the members of the
  sorted set under \<open>k\<close>. A command that returns an error may have been executed all the same, when only
  its reply was lost. The laws describe a client that sends a command once: one that is configured to send it again after a lost reply (as the
  library does three times unless told otherwise) may have executed it several times when it answers.
\<close>

type_synonym 'q lists = "'q \<Rightarrow> string \<Rightarrow> string list"
type_synonym 'q zsets = "'q \<Rightarrow> string \<Rightarrow> string \<rightharpoonup> int"

definition lpush_law :: "'q redis \<Rightarrow> 'q lists \<Rightarrow> 'q zsets \<Rightarrow> bool" where
  "lpush_law C L Z \<longleftrightarrow> (\<forall>c k v q e q'. LPush C c k v q = (e, q') \<longrightarrow> Z q' = Z q \<and>
     (L q' = (L q)(k := v # L q k) \<or> e \<noteq> None \<and> L q' = L q))"

text \<open>\<open>BRPOP\<close> takes the last element of the first list that is not empty.\<close>

definition popped :: "'q lists \<Rightarrow> string list \<Rightarrow> 'q \<Rightarrow> 'q \<Rightarrow> string \<Rightarrow> string \<Rightarrow> bool" where
  "popped L ks q q' k v \<longleftrightarrow> (\<exists>pre post rest. ks = pre @ k # post \<and> (\<forall>k' \<in> set pre. L q k' = []) \<and>
     L q k = rest @ [v] \<and> L q' = (L q)(k := rest))"

definition brpop_law :: "'q redis \<Rightarrow> 'q lists \<Rightarrow> 'q zsets \<Rightarrow> bool" where
  "brpop_law C L Z \<longleftrightarrow> (\<forall>c d ks q res q'. BRPop C c d ks q = (res, q') \<longrightarrow> Z q' = Z q \<and>
     (case res of
        Inr r \<Rightarrow> (\<exists>k v. r = [k, v] \<and> popped L ks q q' k v)
      | Inl e \<Rightarrow> L q' = L q \<and> (e = redis_Nil C \<longrightarrow> (\<forall>k \<in> set ks. L q k = [])) \<or>
          e \<noteq> redis_Nil C \<and> (\<exists>k v. popped L ks q q' k v)))"

definition zadd_law :: "'q redis \<Rightarrow> 'q lists \<Rightarrow> 'q zsets \<Rightarrow> bool" where
  "zadd_law C L Z \<longleftrightarrow> (\<forall>c k s m q e q'. ZAdd C c k s m q = (e, q') \<longrightarrow> L q' = L q \<and>
     (Z q' = (Z q)(k := (Z q k)(m \<mapsto> s)) \<or> e \<noteq> None \<and> Z q' = Z q))"

definition zrange_law :: "'q redis \<Rightarrow> 'q lists \<Rightarrow> 'q zsets \<Rightarrow> bool" where
  "zrange_law C L Z \<longleftrightarrow> (\<forall>c k lo hi q res q'. ZRangeByScore C c k (show_int lo) (fmt_f hi) q = (res, q') \<longrightarrow>
     L q' = L q \<and> Z q' = Z q \<and>
     (\<forall>ms. res = Inr ms \<longrightarrow> distinct ms \<and> sorted (map (\<lambda>m. the (Z q k m)) ms) \<and>
        set ms = {m. \<exists>s. Z q k m = Some s \<and> lo \<le> s \<and> s \<le> hi}))"

definition zrem_law :: "'q redis \<Rightarrow> 'q lists \<Rightarrow> 'q zsets \<Rightarrow> bool" where
  "zrem_law C L Z \<longleftrightarrow> (\<forall>c k m q e q'. ZRem C c k m q = (e, q') \<longrightarrow> L q' = L q \<and>
     (Z q' = (Z q)(k := (Z q k)(m := None)) \<or> e \<noteq> None \<and> Z q' = Z q))"

definition count_laws :: "'q redis \<Rightarrow> 'q lists \<Rightarrow> 'q zsets \<Rightarrow> bool" where
  "count_laws C L Z \<longleftrightarrow> (\<forall>c k q res q'.
     (LLen C c k q = (res, q') \<longrightarrow> L q' = L q \<and> Z q' = Z q \<and> (\<forall>n. res = Inr n \<longrightarrow> n = of_nat (length (L q k)))) \<and>
     (ZCard C c k q = (res, q') \<longrightarrow> L q' = L q \<and> Z q' = Z q \<and> (\<forall>n. res = Inr n \<longrightarrow> n = of_nat (card (dom (Z q k))))))"

definition redis_laws :: "'q redis \<Rightarrow> 'q lists \<Rightarrow> 'q zsets \<Rightarrow> bool" where
  "redis_laws C L Z \<longleftrightarrow> lpush_law C L Z \<and> brpop_law C L Z \<and> zadd_law C L Z \<and> zrange_law C L Z \<and>
     zrem_law C L Z \<and> count_laws C L Z"

text \<open>A server that answers every command.\<close>

definition redis_up :: "'q redis \<Rightarrow> bool" where
  "redis_up C \<longleftrightarrow> (\<forall>c k v s q. fst (LPush C c k v q) = None \<and> fst (ZAdd C c k s v q) = None \<and>
     fst (ZRem C c k v q) = None \<and> (\<forall>e. fst (LLen C c k q) \<noteq> Inl e) \<and> (\<forall>e. fst (ZCard C c k q) \<noteq> Inl e) \<and>
     (\<forall>e lo hi. fst (ZRangeByScore C c k lo hi q) \<noteq> Inl e) \<and>
     (\<forall>e d ks. fst (BRPop C c d ks q) = Inl e \<longrightarrow> e = redis_Nil C))"

subsection \<open>The laws on the results of a command\<close>

lemma lpushD:
  assumes "redis_laws C L Z"
  shows "Z (snd (LPush C c k v q)) = Z q"
    and "L (snd (LPush C c k v q)) = (L q)(k := v # L q k) \<or>
      fst (LPush C c k v q) \<noteq> None \<and> L (snd (LPush C c k v q)) = L q"
  using assms unfolding redis_laws_def lpush_law_def by (metis prod.collapse)+

lemma brpopD:
  assumes "redis_laws C L Z"
  shows "Z (snd (BRPop C c d ks q)) = Z q"
    and "case fst (BRPop C c d ks q) of
        Inr r \<Rightarrow> (\<exists>k v. r = [k, v] \<and> popped L ks q (snd (BRPop C c d ks q)) k v)
      | Inl e \<Rightarrow> L (snd (BRPop C c d ks q)) = L q \<and> (e = redis_Nil C \<longrightarrow> (\<forall>k \<in> set ks. L q k = [])) \<or>
          e \<noteq> redis_Nil C \<and> (\<exists>k v. popped L ks q (snd (BRPop C c d ks q)) k v)"
proof -
  have law: "brpop_law C L Z" using assms by (simp add: redis_laws_def)
  show "Z (snd (BRPop C c d ks q)) = Z q"
    using law [unfolded brpop_law_def, rule_format, OF prod.collapse [symmetric]] by blast
  show "case fst (BRPop C c d ks q) of
        Inr r \<Rightarrow> (\<exists>k v. r = [k, v] \<and> popped L ks q (snd (BRPop C c d ks q)) k v)
      | Inl e \<Rightarrow> L (snd (BRPop C c d ks q)) = L q \<and> (e = redis_Nil C \<longrightarrow> (\<forall>k \<in> set ks. L q k = [])) \<or>
          e \<noteq> redis_Nil C \<and> (\<exists>k v. popped L ks q (snd (BRPop C c d ks q)) k v)"
    using law [unfolded brpop_law_def, rule_format, OF prod.collapse [symmetric]] by blast
qed

lemma zaddD:
  assumes "redis_laws C L Z"
  shows "L (snd (ZAdd C c k s m q)) = L q"
    and "Z (snd (ZAdd C c k s m q)) = (Z q)(k := (Z q k)(m \<mapsto> s)) \<or>
      fst (ZAdd C c k s m q) \<noteq> None \<and> Z (snd (ZAdd C c k s m q)) = Z q"
  using assms unfolding redis_laws_def zadd_law_def by (metis prod.collapse)+

lemma zremD:
  assumes "redis_laws C L Z"
  shows "L (snd (ZRem C c k m q)) = L q"
    and "Z (snd (ZRem C c k m q)) = (Z q)(k := (Z q k)(m := None)) \<or>
      fst (ZRem C c k m q) \<noteq> None \<and> Z (snd (ZRem C c k m q)) = Z q"
  using assms unfolding redis_laws_def zrem_law_def by (metis prod.collapse)+

lemma zrangeD:
  assumes "redis_laws C L Z"
  shows "L (snd (ZRangeByScore C c k (show_int lo) (fmt_f hi) q)) = L q"
    and "Z (snd (ZRangeByScore C c k (show_int lo) (fmt_f hi) q)) = Z q"
    and "fst (ZRangeByScore C c k (show_int lo) (fmt_f hi) q) = Inr ms \<Longrightarrow>
      distinct ms \<and> sorted (map (\<lambda>m. the (Z q k m)) ms) \<and> set ms = {m. \<exists>s. Z q k m = Some s \<and> lo \<le> s \<and> s \<le> hi}"
proof -
  have law: "zrange_law C L Z" using assms by (simp add: redis_laws_def)
  note D = law [unfolded zrange_law_def, rule_format, OF prod.collapse [symmetric], of c k lo hi q]
  show "L (snd (ZRangeByScore C c k (show_int lo) (fmt_f hi) q)) = L q"
    and "Z (snd (ZRangeByScore C c k (show_int lo) (fmt_f hi) q)) = Z q" using D by blast+
  show "fst (ZRangeByScore C c k (show_int lo) (fmt_f hi) q) = Inr ms \<Longrightarrow>
      distinct ms \<and> sorted (map (\<lambda>m. the (Z q k m)) ms) \<and> set ms = {m. \<exists>s. Z q k m = Some s \<and> lo \<le> s \<and> s \<le> hi}"
    using D by blast
qed

lemma countD:
  assumes "redis_laws C L Z"
  shows "L (snd (LLen C c k q)) = L q" "Z (snd (LLen C c k q)) = Z q"
    and "fst (LLen C c k q) = Inr n \<Longrightarrow> n = of_nat (length (L q k))"
    and "L (snd (ZCard C c k q)) = L q" "Z (snd (ZCard C c k q)) = Z q"
    and "fst (ZCard C c k q) = Inr n \<Longrightarrow> n = of_nat (card (dom (Z q k)))"
  using assms unfolding redis_laws_def count_laws_def by (metis prod.collapse)+

section \<open>Lanes\<close>

text \<open>What the jobs waiting in a lane will be when they are taken, the next one first.\<close>

definition lane_jobs :: "runtime \<Rightarrow> 'q lists \<Rightarrow> 'q \<Rightarrow> string \<Rightarrow> Job option list" where
  "lane_jobs r L q k = map (unmarshal_job r) (rev (L q k))"

lemma lane_jobs_push: "L q' = (L q)(k := v # L q k) \<Longrightarrow>
    lane_jobs r L q' = (lane_jobs r L q)(k := lane_jobs r L q k @ [unmarshal_job r v])"
  by (auto simp: lane_jobs_def fun_eq_iff)

lemma lane_jobs_pop: "L q k = rest @ [v] \<Longrightarrow> L q' = (L q)(k := rest) \<Longrightarrow>
    lane_jobs r L q k = unmarshal_job r v # lane_jobs r L q' k \<and> (\<forall>k'. k' \<noteq> k \<longrightarrow> lane_jobs r L q' k' = lane_jobs r L q k')"
  by (simp add: lane_jobs_def)

lemma redis_enqueue_rule:
  assumes "redis_laws C L Z"
  shows "wp (RedisQueue_Enqueue C c j) (\<lambda>e w'. queue_frame w w' \<and> heap w' = heap w \<and> next_ref w' = next_ref w \<and>
      Z (queue w') = Z (queue w) \<and>
      (case marshal_job (rt w) (heap w j) of
         None \<Rightarrow> e \<noteq> None \<and> queue w' = queue w
       | Some v \<Rightarrow> (let k = getQueueName (Job_Priority (heap w j)) in
           L (queue w') = (L (queue w))(k := v # L (queue w) k) \<or> e \<noteq> None \<and> L (queue w') = L (queue w)) \<and>
           (redis_up C \<longrightarrow> e = None))) w"
  using lpushD [OF assms]
  by (auto simp: RedisQueue_Enqueue_def wp_simps queue_frame_def same_run_def redis_up_def Let_def split: option.split)

text \<open>A poll that takes the first entry \<open>x\<close> of the first polled lane that has one.\<close>

definition takes :: "(Priority \<Rightarrow> 'l) \<Rightarrow> ('l \<Rightarrow> 'a list) \<Rightarrow> ('l \<Rightarrow> 'a list) \<Rightarrow> Priority list \<Rightarrow> 'a \<Rightarrow> bool" where
  "takes lane before after ps x \<longleftrightarrow> (\<exists>pre p post. ps = pre @ p # post \<and> (\<forall>p' \<in> set pre. before (lane p') = []) \<and>
     before (lane p) = x # after (lane p) \<and> (\<forall>l. l \<noteq> lane p \<longrightarrow> after l = before l))"

lemma popped_takes:
  assumes "popped L (map getQueueName ps) q q' k v"
  shows "takes getQueueName (lane_jobs r L q) (lane_jobs r L q') ps (unmarshal_job r v)"
proof -
  obtain pre post rest where k: "map getQueueName ps = pre @ k # post" "\<forall>k' \<in> set pre. L q k' = []"
      "L q k = rest @ [v]" "L q' = (L q)(k := rest)"
    using assms by (auto simp: popped_def)
  obtain pre' p post' where ps: "ps = pre' @ p # post'" "map getQueueName pre' = pre" "getQueueName p = k"
    using k(1) by (auto simp: map_eq_append_conv map_eq_Cons_conv)
  have "lane_jobs r L q (getQueueName p') = []" if "p' \<in> set pre'" for p'
    using k(2) ps(2) that by (auto simp: lane_jobs_def)
  then show ?thesis using lane_jobs_pop [of L q k rest v q' r, OF k(3,4)] ps
    unfolding takes_def by (intro exI [of _ pre'] exI [of _ p] exI [of _ post']) simp
qed

lemma redis_dequeue_rule:
  assumes "redis_laws C L Z"
  shows "wp (RedisQueue_Dequeue C c ps) (\<lambda>res w'. queue_frame w w' \<and> Z (queue w') = Z (queue w) \<and>
      (let before = lane_jobs (rt w) L (queue w); after = lane_jobs (rt w) L (queue w') in
       case res of
         Inr jo \<Rightarrow> jo = Some (next_ref w) \<and> next_ref w' = Suc (next_ref w) \<and>
           takes getQueueName before after ps (Some (heap w' (next_ref w)))
       | Inl e \<Rightarrow> (after = before \<or> (\<exists>x. takes getQueueName before after ps x)) \<and>
           (redis_up C \<longrightarrow> (\<forall>p \<in> set ps. before (getQueueName p) = []) \<and> after = before \<or>
              takes getQueueName before after ps None))) w"
proof -
  let ?r = "BRPop C c Second (map getQueueName ps) (queue w)"
  note D = brpopD [OF assms, of c Second "map getQueueName ps" "queue w"]
  show ?thesis
  proof (cases "fst ?r")
    case (Inl e)
    have "L (snd ?r) = L (queue w) \<and> (e = redis_Nil C \<longrightarrow> (\<forall>k \<in> set (map getQueueName ps). L (queue w) k = [])) \<or>
        e \<noteq> redis_Nil C \<and> (\<exists>k v. popped L (map getQueueName ps) (queue w) (snd ?r) k v)"
      using D(2) Inl by simp
    moreover have "redis_up C \<Longrightarrow> e = redis_Nil C" using Inl unfolding redis_up_def by blast
    moreover have "\<exists>x. takes getQueueName (lane_jobs (rt w) L (queue w)) (lane_jobs (rt w) L (snd ?r)) ps x"
      if "\<exists>k v. popped L (map getQueueName ps) (queue w) (snd ?r) k v"
      using that by (elim exE) (rule exI, erule popped_takes)
    ultimately show ?thesis using D(1) Inl
      by (auto simp: RedisQueue_Dequeue_def wp_simps queue_frame_def same_run_def Let_def lane_jobs_def)
  next
    case (Inr result)
    then obtain k v where kv: "result = [k, v]" "popped L (map getQueueName ps) (queue w) (snd ?r) k v"
      using D(2) by auto
    show ?thesis using Inr kv(1) D(1) popped_takes [OF kv(2), of "rt w"]
      by (auto simp: RedisQueue_Dequeue_def wp_simps queue_frame_def same_run_def Let_def split: option.split)
  qed
qed

text \<open>
  C24: Enqueueing on Redis is writing the job to the end of its lane: when it succeeds, the lane of the
  job's priority (unknown priorities share the lane of medium ones) gains one entry after all others, and
  what a worker will take from it is the job as its JSON form keeps it. When it fails the lanes are as
  before, or the entry was added and only the reply was lost. Delayed jobs, storage and all job objects stay as they are.
\<close>

theorem redis_enqueue_appends:
  assumes "redis_laws C L Z" and "codec_laws (rt w)" and "readable (rt w) (heap w j)"
    and "run_state (RedisQueue_Enqueue C c j) w = (e, w')"
  shows "heap w' = heap w \<and> storage w' = storage w \<and> Z (queue w') = Z (queue w) \<and>
    (let l = getQueueName (Job_Priority (heap w j)); before = lane_jobs (rt w) L (queue w);
         after = lane_jobs (rt w) L (queue w')
     in after = before(l := before l @ [Some (norm_job (heap w j))]) \<or> e \<noteq> None \<and> after = before)"
proof -
  note R = wpD [OF redis_enqueue_rule [OF assms(1)] assms(4)]
  show ?thesis
  proof (cases "marshal_job (rt w) (heap w j)")
    case (Some v)
    let ?k = "getQueueName (Job_Priority (heap w j))"
    have "L (queue w') = (L (queue w))(?k := v # L (queue w) ?k) \<or> e \<noteq> None \<and> L (queue w') = L (queue w)"
      using R Some by (simp add: Let_def)
    then show ?thesis using lane_jobs_push [of L "queue w'" "queue w"] unmarshal_marshal [OF assms(2,3) Some] R
      by (auto simp: Let_def lane_jobs_def fun_eq_iff queue_frame_def)
  qed (use R in \<open>simp add: queue_frame_def\<close>)
qed

text \<open>
  C23: Dequeueing from Redis takes the oldest entry of the first polled lane that is not empty: the worker
  gets a new job object that holds what the entry denotes, and every other entry stays in its place. An
  error leaves the lanes as they were, or has consumed one entry: this is how an entry that is not a job is dropped.
\<close>

theorem redis_dequeue_takes_first:
  assumes "redis_laws C L Z" and "run_state (RedisQueue_Dequeue C c ps) w = (res, w')"
  shows "Z (queue w') = Z (queue w) \<and> storage w' = storage w \<and> (\<forall>j < next_ref w. heap w' j = heap w j) \<and>
    (let before = lane_jobs (rt w) L (queue w); after = lane_jobs (rt w) L (queue w') in
     case res of
       Inr jo \<Rightarrow> jo = Some (next_ref w) \<and> takes getQueueName before after ps (Some (heap w' (next_ref w)))
     | Inl e \<Rightarrow> after = before \<or> (\<exists>x. takes getQueueName before after ps x))"
  using wpD [OF redis_dequeue_rule [OF assms(1)] assms(2)]
  by (auto simp: Let_def queue_frame_def split: sum.splits)

section \<open>Draining the lanes\<close>

definition redis_backlog :: "runtime \<Rightarrow> 'q lists \<Rightarrow> 'q \<Rightarrow> Priority list \<Rightarrow> Job option list" where
  "redis_backlog r L q ps = concat (map (\<lambda>p. lane_jobs r L q (getQueueName p)) ps)"

lemma takes_concat:
  assumes "takes lane before after ps x" and "distinct (map lane ps)"
  shows "concat (map (\<lambda>p. before (lane p)) ps) = x # concat (map (\<lambda>p. after (lane p)) ps)"
proof -
  obtain pre p post where ps: "ps = pre @ p # post" "\<forall>p' \<in> set pre. before (lane p') = []"
      "before (lane p) = x # after (lane p)" "\<forall>l. l \<noteq> lane p \<longrightarrow> after l = before l"
    using assms(1) by (auto simp: takes_def)
  have same: "after (lane p') = before (lane p')" if "p' \<in> set pre \<union> set post" for p'
    using assms(2) ps(1,4) that by (auto simp: image_iff)
  have "concat (map (\<lambda>p. before (lane p)) pre) = []" "concat (map (\<lambda>p. after (lane p)) pre) = []"
    using ps(2) same by auto
  moreover have "map (\<lambda>p. after (lane p)) post = map (\<lambda>p. before (lane p)) post" using same by simp
  ultimately show ?thesis using ps(1,3) by (simp del: concat_eq_Nil_conv map_eq_conv)
qed

lemma redis_drain:
  assumes "redis_laws C L Z" and "redis_up C" and "distinct (map getQueueName ps)"
    and "length Js = n" and "redis_backlog (rt w) L (queue w) ps = map Some Js"
  shows "wp (drain (redis_queue C) c ps n) (\<lambda>ids w'. ids = map Job_ID Js) w"
  using assms(4,5)
proof (induction n arbitrary: w Js)
  case (Suc n)
  then obtain J Js' where Js: "Js = J # Js'" "length Js' = n" by (cases Js) auto
  let ?ln = "\<lambda>w. lane_jobs (rt w) L (queue w)"
  show ?case unfolding drain.simps wp_bind redis_queue_def QueuePort.simps
  proof (rule wp_mono [OF redis_dequeue_rule [OF assms(1)]], goal_cases)
    case (1 res w')
    have rt: "rt w' = rt w" using 1 by (simp add: queue_frame_def same_run_def)
    have step: "redis_backlog (rt w) L (queue w) ps = x # redis_backlog (rt w') L (queue w') ps"
      if "takes getQueueName (?ln w) (lane_jobs (rt w) L (queue w')) ps x" for x
      using takes_concat [OF that assms(3)] rt by (simp add: redis_backlog_def)
    have ne: "\<not> (\<forall>p \<in> set ps. ?ln w (getQueueName p) = [])"
    proof
      assume "\<forall>p \<in> set ps. ?ln w (getQueueName p) = []"
      then have "redis_backlog (rt w) L (queue w) ps = []" by (simp add: redis_backlog_def)
      then show False using Suc.prems(2) Js(1) by simp
    qed
    have no: "\<not> takes getQueueName (?ln w) (lane_jobs (rt w) L (queue w')) ps None"
      using step [of None] Suc.prems(2) Js(1) by auto
    obtain jo where jo: "res = Inr jo" using 1 ne no assms(2) by (cases res) (auto simp: Let_def)
    then have j: "jo = Some (next_ref w)"
      and t: "takes getQueueName (?ln w) (lane_jobs (rt w) L (queue w')) ps (Some (heap w' (next_ref w)))"
      using 1 by (simp_all add: Let_def)
    have "heap w' (next_ref w) = J" "redis_backlog (rt w') L (queue w') ps = map Some Js'"
      using step [OF t] Suc.prems(2) Js(1) by simp_all
    then show ?case using Suc.IH [OF Js(2), of w'] jo j Js(1)
      by (auto simp: wp_simps redis_queue_def elim!: wp_mono)
  qed
qed (simp add: wp_simps)

text \<open>
  C8: A worker that polls Redis until the lanes are empty is given every waiting job exactly once: the
  lanes in the order of the polling list, each lane in the order in which its jobs were enqueued.
\<close>

theorem redis_drain_order:
  assumes "redis_laws C L Z" and "redis_up C" and "distinct (map getQueueName ps)"
    and "concat (map (\<lambda>p. lane_jobs (rt w) L (queue w) (getQueueName p)) ps) = map Some Js"
    and "run_state (drain (redis_queue C) c ps (length Js)) w = (ids, w')"
  shows "ids = map Job_ID Js"
  using wpD [OF redis_drain [OF assms(1-3) refl] assms(5)] assms(4) by (simp add: redis_backlog_def)

section \<open>Delayed jobs\<close>

text \<open>The text that a due entry \<open>m\<close> adds to lane \<open>k\<close>; entries that can be moved.\<close>

definition moved_text :: "runtime \<Rightarrow> string \<Rightarrow> (string \<times> string) option" where
  "moved_text r m = (case unmarshal_job r m of
     None \<Rightarrow> None
   | Some J \<Rightarrow> map_option (\<lambda>v. (getQueueName (Job_Priority J), v)) (marshal_job r J))"

definition lane_entry :: "runtime \<Rightarrow> string \<Rightarrow> string \<Rightarrow> string option" where
  "lane_entry r k m = (case moved_text r m of Some (k', v) \<Rightarrow> if k' = k then Some v else None | None \<Rightarrow> None)"

abbreviation delayed_of :: "'q zsets \<Rightarrow> 'q \<Rightarrow> string \<rightharpoonup> int" where
  "delayed_of Z q \<equiv> Z q ''delayed_jobs''"

lemma move_one_rule:
  assumes "redis_laws C L Z"
  shows "wp (move_one C c m) (\<lambda>_ w'. queue_frame w w' \<and>
      (case moved_text (rt w) m of
         None \<Rightarrow> L (queue w') = L (queue w) \<and> Z (queue w') = Z (queue w)
       | Some (k, v) \<Rightarrow>
           (let L' = (L (queue w))(k := v # L (queue w) k);
                Z' = (Z (queue w))(''delayed_jobs'' := (delayed_of Z (queue w))(m := None)) in
            L (queue w') = L' \<and> (Z (queue w') = Z' \<or> Z (queue w') = Z (queue w)) \<or>
            L (queue w') = L (queue w) \<and> Z (queue w') = Z (queue w)) \<and>
           (redis_up C \<longrightarrow> L (queue w') = (L (queue w))(k := v # L (queue w) k) \<and>
              Z (queue w') = (Z (queue w))(''delayed_jobs'' := (delayed_of Z (queue w))(m := None))))) w"
proof (cases "unmarshal_job (rt w) m")
  case None
  then show ?thesis by (simp add: move_one_def wp_simps moved_text_def queue_frame_def same_run_def)
next
  case (Some J)
  show ?thesis unfolding move_one_def wp_bind wp_gets Some option.case wp_alloc_job
  proof (rule wp_mono [OF redis_enqueue_rule [OF assms]], goal_cases)
    case (1 e w1)
    have up: "redis_up C \<Longrightarrow> fst (ZRem C c k v q) = None" for k v q by (simp add: redis_up_def)
    show ?case using 1 Some zremD [OF assms, of c "''delayed_jobs''" m "queue w1"] up
      by (cases "marshal_job (rt w) J")
        (auto simp: wp_simps moved_text_def queue_frame_def same_run_def Let_def)
  qed
qed

lemma move_loop_up:
  assumes "redis_laws C L Z" and "redis_up C"
  shows "wp (move_loop C c ms) (\<lambda>_ w'. queue_frame w w' \<and>
      L (queue w') = (\<lambda>k. rev (List.map_filter (lane_entry (rt w) k) ms) @ L (queue w) k) \<and>
      Z (queue w') = (Z (queue w))(''delayed_jobs'' :=
        (\<lambda>m. if m \<in> set ms \<and> moved_text (rt w) m \<noteq> None then None else delayed_of Z (queue w) m))) w"
proof (induction ms arbitrary: w)
  case Nil
  then show ?case by (simp add: wp_simps queue_frame_def same_run_def)
next
  case (Cons m ms)
  show ?case unfolding move_loop.simps wp_bind
  proof (rule wp_mono [OF move_one_rule [OF assms(1)]], goal_cases)
    case (1 u w1)
    note one = 1
    have rt: "rt w1 = rt w" using one by (simp add: queue_frame_def same_run_def)
    show ?case
    proof (rule wp_mono [OF Cons.IH], goal_cases)
      case (1 u' w2)
      have frame: "queue_frame w w2" using one 1 by (auto simp: queue_frame_def same_run_def)
      show ?case
      proof (cases "moved_text (rt w) m")
        case None
        have "lane_entry (rt w) k' m = None" for k' using None by (simp add: lane_entry_def)
        then show ?thesis using None one 1 rt frame by (auto simp: fun_eq_iff)
      next
        case (Some kv)
        obtain k v where kv: "moved_text (rt w) m = Some (k, v)" using Some by (cases kv) simp
        have entry: "lane_entry (rt w) k' m = (if k' = k then Some v else None)" for k'
          using kv by (simp add: lane_entry_def)
        have "L (queue w1) = (L (queue w))(k := v # L (queue w) k)"
          "Z (queue w1) = (Z (queue w))(''delayed_jobs'' := (delayed_of Z (queue w))(m := None))"
          using one kv assms(2) by simp_all
        then show ?thesis using 1 rt frame kv by (auto simp: entry fun_eq_iff)
      qed
    qed
  qed
qed

text \<open>Whatever the server answers, an entry leaves the delayed jobs only when its lane has it.\<close>

definition none_lost :: "runtime \<Rightarrow> 'q lists \<Rightarrow> 'q zsets \<Rightarrow> string set \<Rightarrow> 'q \<Rightarrow> 'q \<Rightarrow> bool" where
  "none_lost r L Z ms q q' \<longleftrightarrow> (\<forall>k. \<exists>xs. L q' k = xs @ L q k) \<and>
     (\<forall>m. delayed_of Z q' m = delayed_of Z q m \<or>
        delayed_of Z q' m = None \<and> m \<in> ms \<and> (\<exists>k v. moved_text r m = Some (k, v) \<and> v \<in> set (L q' k)))"

lemma none_lost_refl: "L q' = L q \<Longrightarrow> Z q' = Z q \<Longrightarrow> none_lost r L Z ms q q'"
  by (simp add: none_lost_def)

lemma none_lost_trans:
  assumes "none_lost r L Z ms q q1" and "none_lost r L Z ms' q1 q2"
  shows "none_lost r L Z (ms \<union> ms') q q2"
proof -
  have grow: "\<exists>xs. L q2 k = xs @ L q k" for k
    using assms unfolding none_lost_def by (metis append.assoc)
  have stay: "v \<in> set (L q1 k) \<Longrightarrow> v \<in> set (L q2 k)" for k v
    using assms(2) unfolding none_lost_def by (metis UnCI set_append)
  have "delayed_of Z q2 m = delayed_of Z q m \<or> delayed_of Z q2 m = None \<and> m \<in> ms \<union> ms' \<and>
      (\<exists>k v. moved_text r m = Some (k, v) \<and> v \<in> set (L q2 k))" for m
    using assms stay unfolding none_lost_def by (metis UnCI)
  then show ?thesis using grow by (simp add: none_lost_def)
qed

lemma move_one_keeps:
  assumes "redis_laws C L Z"
  shows "wp (move_one C c m) (\<lambda>_ w'. queue_frame w w' \<and> none_lost (rt w) L Z {m} (queue w) (queue w')) w"
proof (rule wp_mono [OF move_one_rule [OF assms]], goal_cases)
  case (1 u w')
  then show ?case
    by (cases "moved_text (rt w) m") (auto simp: none_lost_def Let_def split: prod.splits if_splits)
qed

lemma move_loop_keeps:
  assumes "redis_laws C L Z"
  shows "wp (move_loop C c ms) (\<lambda>_ w'. queue_frame w w' \<and> none_lost (rt w) L Z (set ms) (queue w) (queue w')) w"
proof (induction ms arbitrary: w)
  case Nil
  then show ?case by (simp add: wp_simps queue_frame_def same_run_def none_lost_refl)
next
  case (Cons m ms)
  show ?case unfolding move_loop.simps wp_bind
  proof (rule wp_mono [OF move_one_keeps [OF assms]], goal_cases)
    case (1 u w1)
    note one = 1
    then have rt: "rt w1 = rt w" by (simp add: queue_frame_def same_run_def)
    show ?case
    proof (rule wp_mono [OF Cons.IH], goal_cases)
      case (1 u' w2)
      have "queue_frame w w2" using one 1 by (auto simp: queue_frame_def same_run_def)
      moreover have "none_lost (rt w) L Z (set (m # ms)) (queue w) (queue w2)"
        using none_lost_trans [of "rt w" L Z "{m}" "queue w" "queue w1" "set ms" "queue w2"] one 1 rt by simp
      ultimately show ?case by simp
    qed
  qed
qed

text \<open>
  The scores of the jobs whose time has come at an instant, and the scores that the query of \<^verbatim>\<open>ProcessDelayedJobs\<close> selects: its
  lower bound is \<^verbatim>\<open>"0"\<close>, so that it misses the jobs whose time lies before 1970.
\<close>

definition redis_due :: "time \<Rightarrow> int \<Rightarrow> bool" where
  "redis_due t s \<longleftrightarrow> s \<le> float64_of_int (time_Unix t)"

definition redis_selected :: "time \<Rightarrow> int \<Rightarrow> bool" where
  "redis_selected t s \<longleftrightarrow> 0 \<le> s \<and> redis_due t s"

lemma show_int_0: "show_int 0 = ''0''"
  by (simp add: show_int_def show_nat.simps digit_of_def)

lemma redis_process_rule:
  fixes w :: "('st, 'q) world"
  assumes "redis_laws C L Z"
    and "\<And>ms w1 w2 :: ('st, 'q) world. distinct ms \<Longrightarrow> sorted (map (\<lambda>m. the (delayed_of Z (queue w) m)) ms) \<Longrightarrow>
      set ms = {m. \<exists>s. delayed_of Z (queue w) m = Some s \<and> redis_selected (clock (rt w) (ticks w)) s} \<Longrightarrow>
      rt w1 = rt w \<Longrightarrow> storage w1 = storage w \<Longrightarrow> L (queue w1) = L (queue w) \<Longrightarrow> Z (queue w1) = Z (queue w) \<Longrightarrow>
      wp (move_loop C c ms) (\<lambda>_ w2. Q None w2) w1"
    and "\<And>e w1. \<not> redis_up C \<Longrightarrow> storage w1 = storage w \<Longrightarrow> L (queue w1) = L (queue w) \<Longrightarrow> Z (queue w1) = Z (queue w) \<Longrightarrow> Q (Some e) w1"
  shows "wp (RedisQueue_ProcessDelayedJobs C c) Q w"
proof -
  let ?b = "float64_of_int (time_Unix (clock (rt w) (ticks w)))"
  let ?r = "ZRangeByScore C c ''delayed_jobs'' (show_int 0) (fmt_f ?b) (queue w)"
  note D = zrangeD [OF assms(1), of c "''delayed_jobs''" 0 ?b "queue w"]
  show ?thesis
  proof (cases "fst ?r")
    case (Inl e)
    then have "\<not> redis_up C" unfolding redis_up_def by blast
    then show ?thesis using assms(3) Inl D(1,2)
      by (simp add: RedisQueue_ProcessDelayedJobs_def wp_simps flip: show_int_0)
  next
    case (Inr ms)
    show ?thesis using assms(2) [of ms] D Inr
      by (simp add: RedisQueue_ProcessDelayedJobs_def wp_simps redis_selected_def redis_due_def flip: show_int_0)
  qed
qed

text \<open>
  C6: Promotion on Redis never loses a delayed job, even when commands fail halfway: after it, every
  entry is still among the delayed jobs with its due time, or it was due, at a time in 1970 or later, and the lane of its priority
  holds the job; and no entry of a lane is removed.
\<close>

theorem redis_promotion_keeps_jobs:
  assumes "redis_laws C L Z" and "run_state (RedisQueue_ProcessDelayedJobs C c) w = (e, w')"
  shows "(\<forall>k. \<exists>xs. L (queue w') k = xs @ L (queue w) k) \<and>
    (\<forall>m. delayed_of Z (queue w') m = delayed_of Z (queue w) m \<or>
       (\<exists>s k v. delayed_of Z (queue w) m = Some s \<and> redis_selected (clock (rt w) (ticks w)) s \<and>
          moved_text (rt w) m = Some (k, v) \<and> v \<in> set (L (queue w') k)))"
proof -
  have "wp (RedisQueue_ProcessDelayedJobs C c) (\<lambda>_ w'. none_lost (rt w) L Z
      {m. \<exists>s. delayed_of Z (queue w) m = Some s \<and> redis_selected (clock (rt w) (ticks w)) s} (queue w) (queue w')) w"
  proof (rule redis_process_rule [OF assms(1)], goal_cases)
    case (1 ms w1 w2)
    then show ?case by (intro wp_mono [OF move_loop_keeps [OF assms(1)]]) (auto simp: none_lost_def)
  next
    case (2 e w1)
    then show ?case by (simp add: none_lost_refl)
  qed
  from wpD [OF this assms(2)] show ?thesis unfolding none_lost_def by blast
qed

text \<open>
  C15: On a server that answers, promotion moves exactly the jobs whose time has come and lies in 1970 or later: their entries leave
  the delayed jobs and are appended to their lanes in the order of their times, after the jobs that
  were waiting there. Every other entry stays: one that is not due, one that is not a job, and also one that is due
  but whose time lies before 1970.
\<close>

theorem redis_promotion_exact:
  assumes "redis_laws C L Z" and "redis_up C" and "run_state (RedisQueue_ProcessDelayedJobs C c) w = (e, w')"
  shows "e = None \<and> (\<exists>ms. distinct ms \<and> sorted (map (\<lambda>m. the (delayed_of Z (queue w) m)) ms) \<and>
    set ms = {m. \<exists>s. delayed_of Z (queue w) m = Some s \<and> 0 \<le> s \<and> redis_due (clock (rt w) (ticks w)) s \<and>
       moved_text (rt w) m \<noteq> None} \<and>
    (\<forall>k. rev (L (queue w') k) = rev (L (queue w) k) @ List.map_filter (lane_entry (rt w) k) ms) \<and>
    (\<forall>m. delayed_of Z (queue w') m = (if m \<in> set ms then None else delayed_of Z (queue w) m)))"
proof -
  let ?jobs = "\<lambda>ms. filter (\<lambda>m. moved_text (rt w) m \<noteq> None) ms"
  have "moved_text (rt w) m = None \<Longrightarrow> lane_entry (rt w) k m = None" for k m by (simp add: lane_entry_def)
  then have entries: "List.map_filter (lane_entry (rt w) k) (?jobs ms) = List.map_filter (lane_entry (rt w) k) ms" for k ms
    by (induction ms) (auto simp del: not_None_eq split: option.split)
  have "wp (RedisQueue_ProcessDelayedJobs C c) (\<lambda>e w'. e = None \<and>
    (\<exists>ms. distinct ms \<and> sorted (map (\<lambda>m. the (delayed_of Z (queue w) m)) ms) \<and>
    set ms = {m. \<exists>s. delayed_of Z (queue w) m = Some s \<and> 0 \<le> s \<and> redis_due (clock (rt w) (ticks w)) s \<and>
       moved_text (rt w) m \<noteq> None} \<and>
    (\<forall>k. rev (L (queue w') k) = rev (L (queue w) k) @ List.map_filter (lane_entry (rt w) k) ms) \<and>
    (\<forall>m. delayed_of Z (queue w') m = (if m \<in> set ms then None else delayed_of Z (queue w) m)))) w"
  proof (rule redis_process_rule [OF assms(1)], goal_cases)
    case (1 ms w1 w2)
    have "sorted (map (\<lambda>m. the (delayed_of Z (queue w) m)) (?jobs ms))" using 1(2) by (rule sorted_filter)
    moreover have "set (?jobs ms) = {m. \<exists>s. delayed_of Z (queue w) m = Some s \<and> 0 \<le> s \<and>
        redis_due (clock (rt w) (ticks w)) s \<and> moved_text (rt w) m \<noteq> None}"
      using 1(3) by (auto simp: redis_selected_def)
    moreover have "distinct (?jobs ms)" using 1(1) by simp
    ultimately show ?case using 1(4-7)
      by (intro wp_mono [OF move_loop_up [OF assms(1,2)]]) (intro conjI exI [of _ "?jobs ms"]; auto simp: entries simp del: not_None_eq)
  qed (use assms(2) in simp)
  from wpD [OF this assms(3)] show ?thesis .
qed

text \<open>
  A due time between \<^verbatim>\<open>1970\<close> and the range of exact float64 integers is due from the start of its second
  on: a job may be promoted up to a second before its due time, and never after the second that follows it.
\<close>

lemma redis_selected_iff:
  assumes "0 \<le> t" and "time_Unix t < 2 ^ 53" and "0 \<le> u" and "time_Unix u < 2 ^ 53"
  shows "redis_selected t (float64_of_int (time_Unix u)) \<longleftrightarrow> time_Unix u \<le> time_Unix t"
proof -
  have "0 \<le> time_Unix t" "0 \<le> time_Unix u" using assms by (simp_all add: time_Unix_def)
  then show ?thesis using assms by (simp add: redis_selected_def redis_due_def float64_of_int_exact)
qed

lemma redis_selected_when:
  assumes "0 \<le> t" and "time_Unix t < 2 ^ 53" and "0 \<le> u" and "time_Unix u < 2 ^ 53"
  shows "u \<le> t \<Longrightarrow> redis_selected t (float64_of_int (time_Unix u))"
    and "redis_selected t (float64_of_int (time_Unix u)) \<Longrightarrow> u < t + 1000000000"
proof -
  show "u \<le> t \<Longrightarrow> redis_selected t (float64_of_int (time_Unix u))"
    unfolding redis_selected_iff [OF assms] by (simp add: time_Unix_def zdiv_mono1)
  have "u < t + 1000000000" if "u div 1000000000 \<le> t div 1000000000" using that by linarith
  then show "redis_selected t (float64_of_int (time_Unix u)) \<Longrightarrow> u < t + 1000000000"
    unfolding redis_selected_iff [OF assms] by (simp add: time_Unix_def)
qed

lemma redis_delay_rule:
  assumes "redis_laws C L Z"
  shows "wp (RedisQueue_EnqueueDelayed C c j t) (\<lambda>e w'. queue_frame w w' \<and> heap w' = heap w \<and> L (queue w') = L (queue w) \<and>
      (case marshal_job (rt w) (heap w j) of
         None \<Rightarrow> e \<noteq> None \<and> queue w' = queue w
       | Some v \<Rightarrow> Z (queue w') = (Z (queue w))(''delayed_jobs'' :=
             (delayed_of Z (queue w))(v \<mapsto> float64_of_int (time_Unix t))) \<or> e \<noteq> None \<and> Z (queue w') = Z (queue w))) w"
  using zaddD [OF assms]
  by (auto simp: RedisQueue_EnqueueDelayed_def wp_simps queue_frame_def same_run_def split: option.split)

section \<open>Jobs that are never promoted\<close>

lemma float_shift_le: "0 < m \<Longrightarrow> 2 ^ float_shift m \<le> m"
proof (induction m rule: float_shift.induct)
  case (1 m)
  show ?case
  proof (cases "m < 2 ^ 53")
    case True
    then show ?thesis using 1 by (simp add: float_shift.simps)
  next
    case False
    then have "(2 :: nat) ^ 53 \<le> m" by simp
    then have "0 < m div 2" by simp
    from 1(1) [OF False this] show ?thesis using False by (subst float_shift.simps) simp
  qed
qed

lemma float64_of_int_neg:
  assumes "n < 0"
  shows "float64_of_int n < 0"
proof -
  let ?m = "nat \<bar>n\<bar>" and ?u = "2 ^ float_shift (nat \<bar>n\<bar>) :: nat"
  have "?u \<le> ?m" using assms by (intro float_shift_le) simp
  then have "0 < ?m div ?u" by (simp add: div_greater_zero_iff)
  then have "0 < int ((if b then ?m div ?u + 1 else ?m div ?u) * ?u)" for b by (simp add: zero_less_mult_iff)
  then show ?thesis using assms unfolding float64_of_int_def Let_def by simp
qed

lemma promotion_keeps_negative:
  assumes "redis_laws C L Z" and "delayed_of Z (queue w) m = Some s" and "s < 0"
  shows "wp (RedisQueue_ProcessDelayedJobs C c) (\<lambda>_ w'. delayed_of Z (queue w') m = Some s) w"
proof (rule redis_process_rule [OF assms(1)], goal_cases)
  case (1 ms w1 w2)
  have "m \<notin> set ms" using 1(3) assms(2,3) by (auto simp: redis_selected_def)
  then show ?case using 1(7) assms(2)
    by (intro wp_mono [OF move_loop_keeps [OF assms(1)]]) (auto simp: none_lost_def dest!: spec [of _ m])
qed (use assms(2) in simp)

text \<open>The ticks of the scheduler program.\<close>

fun promotions :: "'q redis \<Rightarrow> ctx \<Rightarrow> nat \<Rightarrow> ('st, 'q, unit) prog" where
  "promotions C c 0 = ret ()"
| "promotions C c (Suc n) = do {
     _ \<leftarrow> RedisQueue_ProcessDelayedJobs C c;
     promotions C c n }"

lemma promotions_keep_negative:
  assumes "redis_laws C L Z" and "delayed_of Z (queue w) m = Some s" and "s < 0"
  shows "wp (promotions C c n) (\<lambda>_ w'. delayed_of Z (queue w') m = Some s) w"
  using assms(2)
proof (induction n arbitrary: w)
  case (Suc n)
  show ?case unfolding promotions.simps wp_bind
    by (rule wp_mono [OF promotion_keeps_negative [OF assms(1) Suc.prems assms(3)]]) (rule Suc.IH)
qed (simp add: wp_simps)



lemma redis_bury_rule:
  assumes "redis_laws C L Z"
  shows "wp (RedisQueue_MoveToDeadLetter C c j) (\<lambda>e w'. queue_frame w w' \<and> heap w' = heap w \<and> Z (queue w') = Z (queue w) \<and>
      (\<forall>p. L (queue w') (getQueueName p) = L (queue w) (getQueueName p)) \<and>
      (case marshal_job (rt w) (heap w j) of
         None \<Rightarrow> e \<noteq> None \<and> queue w' = queue w
       | Some v \<Rightarrow> L (queue w') ''dead_letter_queue'' = v # L (queue w) ''dead_letter_queue'' \<or>
           e \<noteq> None \<and> L (queue w') = L (queue w))) w"
proof -
  have ne: "getQueueName p \<noteq> ''dead_letter_queue''" for p by (simp add: getQueueName_def)
  show ?thesis
  proof (cases "marshal_job (rt w) (heap w j)")
    case (Some v)
    show ?thesis using lpushD [OF assms, of c "''dead_letter_queue''" v "queue w"] ne Some
      by (auto simp: RedisQueue_MoveToDeadLetter_def wp_simps queue_frame_def same_run_def)
  qed (simp add: RedisQueue_MoveToDeadLetter_def wp_simps queue_frame_def same_run_def)
qed

section \<open>Statistics\<close>

lemma stats_loop_rule:
  assumes "redis_laws C L Z" and "redis_up C"
  shows "wp (stats_loop C c ps st) (\<lambda>res w'. L (queue w') = L (queue w) \<and> Z (queue w') = Z (queue w) \<and>
    res = (st\<lparr>ActiveJobs := foldl (\<lambda>a p. map_put a p (of_nat (length (L (queue w) (getQueueName p))))) (ActiveJobs st) ps\<rparr>, None)) w"
proof (induction ps arbitrary: w st)
  case (Cons p ps)
  obtain n where n: "fst (LLen C c (getQueueName p) (queue w)) = Inr n"
    using assms(2) unfolding redis_up_def by (metis sum.exhaust)
  note D = countD [OF assms(1), of c "getQueueName p" "queue w"]
  show ?case using Cons.IH [of "st\<lparr>ActiveJobs := map_put (ActiveJobs st) p n\<rparr>" "w\<lparr>queue := snd (LLen C c (getQueueName p) (queue w))\<rparr>"]
      D(1,2) D(3) [OF n] by (simp add: wp_simps n)
qed (simp add: wp_simps)

text \<open>
  C35: On a server that answers, the statistics are the lengths of the four lanes, the number of delayed
  jobs and the number of dead letters, and asking for them changes none of these.
\<close>

theorem redis_stats_exact:
  assumes "redis_laws C L Z" and "redis_up C" and "run_state (RedisQueue_GetQueueStats C c) w = ((stats, e), w')"
  shows "e = None \<and> L (queue w') = L (queue w) \<and> Z (queue w') = Z (queue w) \<and>
    (\<forall>p. map_get (ActiveJobs stats) p = (if p \<in> set named_priorities
       then Some (of_nat (length (L (queue w) (getQueueName p)))) else None)) \<and>
    DelayedJobs stats = of_nat (card (dom (delayed_of Z (queue w)))) \<and>
    DeadLetterJobs stats = of_nat (length (L (queue w) ''dead_letter_queue''))"
proof -
  have "wp (RedisQueue_GetQueueStats C c) (\<lambda>res w'. case res of (stats, e) \<Rightarrow>
      e = None \<and> L (queue w') = L (queue w) \<and> Z (queue w') = Z (queue w) \<and>
      ActiveJobs stats = foldl (\<lambda>a p. map_put a p (of_nat (length (L (queue w) (getQueueName p))))) []
        [PriorityLow, PriorityMedium, PriorityHigh, PriorityCritical] \<and>
      DelayedJobs stats = of_nat (card (dom (delayed_of Z (queue w)))) \<and>
      DeadLetterJobs stats = of_nat (length (L (queue w) ''dead_letter_queue''))) w"
    unfolding RedisQueue_GetQueueStats_def wp_bind
  proof (rule wp_mono [OF stats_loop_rule [OF assms(1,2)]], goal_cases)
    case (1 res w1)
    obtain n where n: "fst (ZCard C c ''delayed_jobs'' (queue w1)) = Inr n"
      using assms(2) unfolding redis_up_def by (metis sum.exhaust)
    obtain d where d: "fst (LLen C c ''dead_letter_queue'' (snd (ZCard C c ''delayed_jobs'' (queue w1)))) = Inr d"
      using assms(2) unfolding redis_up_def by (metis sum.exhaust)
    note Z = countD [OF assms(1), of c "''delayed_jobs''" "queue w1"]
      countD [OF assms(1), of c "''dead_letter_queue''" "snd (ZCard C c ''delayed_jobs'' (queue w1))"]
    show ?case using 1 n d Z by (simp add: wp_simps)
  qed
  from wpD [OF this assms(3)] show ?thesis
    by (simp add: map_get_foldl_put named_priorities_iff del: foldl.simps)
qed

section \<open>A server for the examples\<close>

record redis_store =
  ds_lists :: "string \<Rightarrow> string list"
  ds_zsets :: "string \<Rightarrow> (string \<times> int) list"

definition demo_redis :: "redis_store redis" where
  "demo_redis = \<lparr>
     LPush = (\<lambda>c k v q. (None, q\<lparr>ds_lists := (ds_lists q)(k := v # ds_lists q k)\<rparr>)),
     BRPop = (\<lambda>c d ks q. case find (\<lambda>k. ds_lists q k \<noteq> []) ks of
        None \<Rightarrow> (Inl (GoErr ''redis: nil''), q)
      | Some k \<Rightarrow> (Inr [k, last (ds_lists q k)], q\<lparr>ds_lists := (ds_lists q)(k := butlast (ds_lists q k))\<rparr>)),
     ZAdd = (\<lambda>c k s m q. (None, q\<lparr>ds_zsets := (ds_zsets q)(k := AList.update m s (ds_zsets q k))\<rparr>)),
     ZRangeByScore = (\<lambda>c k lo hi q. (Inr (map fst (filter (\<lambda>(m, s). the (demo_parse lo) \<le> s \<and>
        s \<le> the (demo_parse (takeWhile (\<lambda>x. x \<noteq> CHR ''.'') hi))) (sort_key snd (AList.clearjunk (ds_zsets q k))))), q)),
     ZRem = (\<lambda>c k m q. (None, q\<lparr>ds_zsets := (ds_zsets q)(k := AList.delete m (ds_zsets q k))\<rparr>)),
     LLen = (\<lambda>c k q. (Inr (of_nat (length (ds_lists q k))), q)),
     ZCard = (\<lambda>c k q. (Inr (of_nat (length (AList.clearjunk (ds_zsets q k)))), q)),
     Ping = (\<lambda>c q. (None, q)), redis_Nil = GoErr ''redis: nil''\<rparr>"

definition demo_Z :: "redis_store zsets" where
  "demo_Z q k = map_of (ds_zsets q k)"

lemma demo_brpop: "brpop_law demo_redis ds_lists demo_Z"
proof -
  have pop: "popped ds_lists ks q (q\<lparr>ds_lists := (ds_lists q)(k := butlast (ds_lists q k))\<rparr>) k (last (ds_lists q k))"
    if "find (\<lambda>k. ds_lists q k \<noteq> []) ks = Some k" for ks q k
  proof -
    obtain i where "i < length ks" "ds_lists q (ks ! i) \<noteq> []" "k = ks ! i" "\<forall>j < i. ds_lists q (ks ! j) = []"
      using \<open>find (\<lambda>k. ds_lists q k \<noteq> []) ks = Some k\<close> by (auto simp: find_Some_iff)
    then show ?thesis unfolding popped_def
      by (intro exI [of _ "take i ks"] exI [of _ "drop (Suc i) ks"] exI [of _ "butlast (ds_lists q k)"])
        (auto simp: id_take_nth_drop in_set_conv_nth)
  qed
  show ?thesis unfolding brpop_law_def
    by (auto simp: demo_redis_def demo_Z_def find_None_iff pop split: option.splits)
qed

lemma demo_zrange: "zrange_law demo_redis ds_lists demo_Z"
proof -
  have digits: "takeWhile (\<lambda>x. x \<noteq> CHR ''.'') (fmt_f hi) = show_int hi" for hi
  proof -
    have dot: "\<not> is_digit CHR ''.''" by (simp add: is_digit_def)
    have "\<forall>x \<in> set (show_int hi). x \<noteq> CHR ''.''"
      using show_nat_digits(1) [of "nat (- hi)"] show_nat_digits(1) [of "nat hi"] dot
      by (auto simp: show_int_def list_all_iff)
    then show ?thesis unfolding fmt_f_def by (simp add: takeWhile_append2)
  qed
  have keys: "distinct (map fst xs) \<Longrightarrow> distinct (map fst (filter P (sort_key snd xs)))" for xs :: "(string \<times> int) list" and P
    by (rule distinct_map_filter) (simp add: distinct_map)
  have sorted: "sorted (map (\<lambda>m. the (map_of xs m)) (map fst (filter P (sort_key snd xs))))"
    if "distinct (map fst xs)" for xs :: "(string \<times> int) list" and P
  proof -
    have eq: "map (\<lambda>m. the (map_of xs m)) (map fst (filter P (sort_key snd xs))) = map snd (filter P (sort_key snd xs))"
    proof -
      have "the (map_of xs (fst x)) = snd x" if "x \<in> set xs" for x
        using map_of_is_SomeI [OF \<open>distinct (map fst xs)\<close>, of "fst x" "snd x"] that by simp
      then show ?thesis by simp
    qed
    have "sorted (map snd (filter P (sort_key snd xs)))" by (rule sorted_filter) simp
    then show ?thesis unfolding eq .
  qed
  have members: "fst ` set (filter (\<lambda>(m, s). lo \<le> s \<and> s \<le> hi) (sort_key snd xs)) = {m. \<exists>s. map_of xs m = Some s \<and> lo \<le> s \<and> s \<le> hi}"
    if "distinct (map fst xs)" for xs :: "(string \<times> int) list" and lo hi
    using that by (force simp: map_of_eq_Some_iff)
  have range: "ZRangeByScore demo_redis c k (show_int lo) (fmt_f hi) q = (Inr (map fst (filter (\<lambda>(m, s). lo \<le> s \<and> s \<le> hi)
      (sort_key snd (AList.clearjunk (ds_zsets q k))))), q)" for c k lo hi q
    by (simp add: demo_redis_def digits demo_parse_show)
  show ?thesis unfolding zrange_law_def
  proof (intro allI impI, goal_cases)
    case (1 c k lo hi q res q')
    let ?xs = "AList.clearjunk (ds_zsets q k)"
    have r: "res = Inr (map fst (filter (\<lambda>(m, s). lo \<le> s \<and> s \<le> hi) (sort_key snd ?xs)))" "q' = q"
      using 1 unfolding range by blast+
    have Z: "demo_Z q k = map_of ?xs" by (simp add: demo_Z_def map_of_clearjunk)
    have "distinct (map fst ?xs)" by (rule distinct_clearjunk)
    note facts = keys [OF this] sorted [OF this] members [OF this]
    show ?case unfolding r Z sum.inject
      by (intro conjI allI impI refl; hypsubst; (rule facts(1,2) | unfold set_map, rule facts(3)))
  qed
qed

lemma demo_redis_laws: "redis_laws demo_redis ds_lists demo_Z" "redis_up demo_redis"
proof -
  have card: "card (dom (map_of xs)) = length (AList.clearjunk xs)" for xs :: "(string \<times> int) list"
    using distinct_card [OF distinct_clearjunk, of xs] by (simp add: dom_clearjunk dom_map_of_conv_image_fst)
  show "redis_laws demo_redis ds_lists demo_Z" unfolding redis_laws_def
  proof (intro conjI demo_brpop demo_zrange)
    show "lpush_law demo_redis ds_lists demo_Z" "count_laws demo_redis ds_lists demo_Z"
      by (auto simp: lpush_law_def count_laws_def demo_redis_def demo_Z_def card)
    show "zadd_law demo_redis ds_lists demo_Z" "zrem_law demo_redis ds_lists demo_Z"
      by (auto simp: zadd_law_def zrem_law_def demo_redis_def demo_Z_def fun_eq_iff update_conv' delete_conv')
  qed
  show "redis_up demo_redis" by (auto simp: redis_up_def demo_redis_def split: option.splits)
qed

text \<open>A process with two jobs, one of them already waiting in the lane of the critical ones.\<close>

definition demo_entry :: string where
  "demo_entry = the (marshal_job demo_runtime demo_job)"

definition demo_redis_world :: "(unit, redis_store) world" where
  "demo_redis_world = \<lparr>rt = demo_runtime, ticks = 9000000, uuids = 0, ranges = 0,
     heap = (\<lambda>_. demo_job), next_ref = 1, storage = (),
     queue = \<lparr>ds_lists = (\<lambda>_. [])(''jobs_critical'' := [demo_entry]),
       ds_zsets = (\<lambda>_. [])(''delayed_jobs'' := [(demo_entry, 3), (''junk'', 2)])\<rparr>,
     stdout = [], exit_code = None\<rparr>"

lemma demo_entry: "marshal_job demo_runtime demo_job = Some demo_entry"
  using demo_readable(2) by (auto simp: demo_entry_def)

lemma demo_redis_world_simps:
  "rt demo_redis_world = demo_runtime" "heap demo_redis_world j = demo_job"
  by (simp_all add: demo_redis_world_def)

theorem redis_enqueue_appends_witness:
  "case run_state (RedisQueue_Enqueue demo_redis \<lparr>deadline = None\<rparr> 0) demo_redis_world of (e, w') \<Rightarrow>
     let before = lane_jobs demo_runtime ds_lists (queue demo_redis_world) in
     lane_jobs demo_runtime ds_lists (queue w') = before(''jobs_critical'' := before ''jobs_critical'' @ [Some (norm_job demo_job)])"
proof -
  let ?run = "run_state (RedisQueue_Enqueue demo_redis \<lparr>deadline = None\<rparr> 0) demo_redis_world"
  have run: "?run = (fst ?run, snd ?run)" by simp
  have "codec_laws (rt demo_redis_world)" "readable (rt demo_redis_world) (heap demo_redis_world 0)"
    using demo_codec_laws demo_readable by (simp_all add: demo_redis_world_simps)
  note T = redis_enqueue_appends [OF demo_redis_laws(1) this run]
  have "fst ?run = None"
    by (simp add: RedisQueue_Enqueue_def demo_redis_world_def read_job_def demo_entry call_def demo_redis_def)
  moreover have "getQueueName (Job_Priority demo_job) = ''jobs_critical''"
    by (simp add: getQueueName_def Priority_String_def demo_job_def priority_consts)
  ultimately show ?thesis using T by (simp add: Let_def demo_redis_world_simps case_prod_beta)
qed

theorem redis_dequeue_takes_first_witness:
  "case run_state (RedisQueue_Dequeue demo_redis \<lparr>deadline = None\<rparr> named_priorities) demo_redis_world of (res, w') \<Rightarrow>
     Inr (Some 1) = res \<and> takes getQueueName (lane_jobs demo_runtime ds_lists (queue demo_redis_world))
       (lane_jobs demo_runtime ds_lists (queue w')) named_priorities (Some (heap w' 1))"
proof -
  let ?run = "run_state (RedisQueue_Dequeue demo_redis \<lparr>deadline = None\<rparr> named_priorities) demo_redis_world"
  have run: "?run = (fst ?run, snd ?run)" by simp
  note T = redis_dequeue_takes_first [OF demo_redis_laws(1) run]
  have crit: "getQueueName PriorityCritical = ''jobs_critical''"
    by (simp add: getQueueName_def Priority_String_def priority_consts)
  have "fst ?run = Inr (Some 1)"
    using unmarshal_marshal [OF demo_codec_laws demo_readable(1) demo_entry] crit
    by (simp add: RedisQueue_Dequeue_def demo_redis_world_def call_def demo_redis_def named_priorities_def alloc_job_def)
  then show ?thesis using T by (simp add: Let_def demo_redis_world_simps case_prod_beta demo_redis_world_def)
qed

theorem redis_drain_order_witness:
  "case run_state (drain (redis_queue demo_redis) \<lparr>deadline = None\<rparr> [PriorityCritical] 1) demo_redis_world of (ids, w') \<Rightarrow>
     ids = [Job_ID (norm_job demo_job)]"
proof -
  let ?run = "run_state (drain (redis_queue demo_redis) \<lparr>deadline = None\<rparr> [PriorityCritical] (length [norm_job demo_job])) demo_redis_world"
  have run: "?run = (fst ?run, snd ?run)" by simp
  have "concat (map (\<lambda>p. lane_jobs (rt demo_redis_world) ds_lists (queue demo_redis_world) (getQueueName p)) [PriorityCritical]) =
      map Some [norm_job demo_job]"
    using unmarshal_marshal [OF demo_codec_laws demo_readable(1) demo_entry]
    by (simp add: demo_redis_world_def lane_jobs_def getQueueName_def Priority_String_def priority_consts)
  from redis_drain_order [OF demo_redis_laws _ this run] show ?thesis by (simp add: case_prod_beta)
qed

theorem redis_promotion_keeps_jobs_witness:
  "case run_state (RedisQueue_ProcessDelayedJobs demo_redis \<lparr>deadline = None\<rparr>) demo_redis_world of (e, w') \<Rightarrow>
     \<exists>xs. ds_lists (queue w') ''jobs_critical'' = xs @ [demo_entry]"
proof -
  let ?run = "run_state (RedisQueue_ProcessDelayedJobs demo_redis \<lparr>deadline = None\<rparr>) demo_redis_world"
  have run: "?run = (fst ?run, snd ?run)" by simp
  have "ds_lists (queue demo_redis_world) ''jobs_critical'' = [demo_entry]" by (simp add: demo_redis_world_def)
  then show ?thesis using redis_promotion_keeps_jobs [OF demo_redis_laws(1) run]
    unfolding case_prod_beta by (elim conjE allE [of _ "''jobs_critical''"]) simp
qed

lemma demo_moved: "\<exists>v. moved_text demo_runtime demo_entry = Some (''jobs_critical'', v)"
proof -
  have raw: "json_parse (render demo_text) = Some demo_text" "html demo_text = demo_text" "nesting demo_text = 1"
    using demo_text by (simp_all add: demo_text_def)
  have "\<exists>v. marshal_job demo_runtime (norm_job demo_job) = Some v"
    by (simp add: marshal_job_def enc_job_def norm_job_def demo_job_def norm_payload_def enc_raw_def raw zero_job_def
        enc_retry_def omit_time_def zero_policy_def enc_time_def demo_runtime_def norm_retry_def)
  moreover have "getQueueName (Job_Priority (norm_job demo_job)) = ''jobs_critical''"
    by (simp add: getQueueName_def Priority_String_def norm_job_def demo_job_def priority_consts)
  ultimately show ?thesis
    using unmarshal_marshal [OF demo_codec_laws demo_readable(1) demo_entry] by (auto simp: moved_text_def)
qed

theorem redis_promotion_exact_witness:
  "case run_state (RedisQueue_ProcessDelayedJobs demo_redis \<lparr>deadline = None\<rparr>) demo_redis_world of (e, w') \<Rightarrow>
     e = None \<and> delayed_of demo_Z (queue demo_redis_world) demo_entry = Some 3 \<and> delayed_of demo_Z (queue w') demo_entry = None \<and>
     (\<exists>xs v ys. rev (ds_lists (queue w') ''jobs_critical'') = demo_entry # xs @ v # ys)"
proof -
  let ?run = "run_state (RedisQueue_ProcessDelayedJobs demo_redis \<lparr>deadline = None\<rparr>) demo_redis_world"
  have run: "?run = (fst ?run, snd ?run)" by simp
  have due: "delayed_of demo_Z (queue demo_redis_world) demo_entry = Some 3"
    "redis_due (clock (rt demo_redis_world) (ticks demo_redis_world)) 3"
    by (simp_all add: demo_redis_world_def demo_Z_def redis_due_def demo_runtime_def time_Unix_def float64_of_int_exact)
  obtain v where v: "moved_text (rt demo_redis_world) demo_entry = Some (''jobs_critical'', v)"
    using demo_moved by (auto simp: demo_redis_world_simps)
  have lane: "rev (ds_lists (queue demo_redis_world) ''jobs_critical'') = [demo_entry]" by (simp add: demo_redis_world_def)
  from redis_promotion_exact [OF demo_redis_laws run] obtain ms where
    e: "fst ?run = None" and
    ms: "set ms = {m. \<exists>s. delayed_of demo_Z (queue demo_redis_world) m = Some s \<and> 0 \<le> s \<and>
       redis_due (clock (rt demo_redis_world) (ticks demo_redis_world)) s \<and> moved_text (rt demo_redis_world) m \<noteq> None}" and
    L: "\<forall>k. rev (ds_lists (queue (snd ?run)) k) = rev (ds_lists (queue demo_redis_world) k) @
       List.map_filter (lane_entry (rt demo_redis_world) k) ms" and
    Z: "\<forall>m. delayed_of demo_Z (queue (snd ?run)) m = (if m \<in> set ms then None else delayed_of demo_Z (queue demo_redis_world) m)"
    by (elim conjE exE)
  have entry: "demo_entry \<in> set ms" unfolding ms using due v by simp
  then obtain as bs where "ms = as @ demo_entry # bs" by (auto dest: split_list)
  moreover have "lane_entry (rt demo_redis_world) ''jobs_critical'' demo_entry = Some v" using v by (simp add: lane_entry_def)
  ultimately have "\<exists>xs ys. List.map_filter (lane_entry (rt demo_redis_world) ''jobs_critical'') ms = xs @ v # ys"
    by (auto simp: map_filter_def)
  then have "\<exists>xs v ys. rev (ds_lists (queue (snd ?run)) ''jobs_critical'') = demo_entry # xs @ v # ys"
    unfolding spec [OF L, of "''jobs_critical''"] lane by auto
  then show ?thesis unfolding case_prod_beta using e Z entry due(1) by simp
qed


theorem redis_stats_exact_witness:
  "case run_state (RedisQueue_GetQueueStats demo_redis \<lparr>deadline = None\<rparr>) demo_redis_world of ((stats, e), w') \<Rightarrow>
     map_get (ActiveJobs stats) PriorityCritical = Some 1 \<and> DelayedJobs stats = of_nat (card (dom (delayed_of demo_Z (queue demo_redis_world))))"
proof -
  let ?run = "run_state (RedisQueue_GetQueueStats demo_redis \<lparr>deadline = None\<rparr>) demo_redis_world"
  have run: "?run = ((fst (fst ?run), snd (fst ?run)), snd ?run)" by simp
  have "getQueueName PriorityCritical = ''jobs_critical''"
    by (simp add: getQueueName_def Priority_String_def priority_consts)
  then have "length (ds_lists (queue demo_redis_world) (getQueueName PriorityCritical)) = 1"
    by (simp add: demo_redis_world_def)
  then show ?thesis using redis_stats_exact [OF demo_redis_laws run]
    by (simp add: case_prod_beta named_priorities_iff)
qed

end
