(* ===== verification/Postgres_Storage.thy ===== *)
theory Postgres_Storage
  imports Codec_Laws "HOL-Library.Product_Lexorder"
begin

text \<open>
  \<^verbatim>\<open>internal/adapters/secondary/storage/postgres.go\<close>: the storage on PostgreSQL, which both programs run
  with. The database library is a parameter, a record of the statements that the adapter issues, with
  the queries as data (the SQL text of their conditions and the arguments); what the adapter relies on
  in them is \<open>gorm_laws\<close>. A job that is read is a new object.
\<close>

section \<open>Models\<close>

record JobModel =
  JM_ID :: uuid
  JM_Type :: string
  JM_Priority :: Priority
  JM_Payload :: string
  JM_Metadata :: string
  JM_Status :: string
  JM_RetryPolicy :: string
  JM_CreatedAt :: time
  JM_UpdatedAt :: time
  JM_ScheduledAt :: time
  JM_ProcessedAt :: "time option"
  JM_CompletedAt :: "time option"
  JM_FailedAt :: "time option"
  JM_LastError :: string
  JM_WorkerID :: string

record JobHistoryModel =
  HM_ID :: string
  HM_JobID :: uuid
  HM_WorkerID :: string
  HM_AttemptNumber :: go_int
  HM_StartedAt :: time
  HM_CompletedAt :: "time option"
  HM_Status :: string
  HM_ErrorMessage :: string
  HM_Duration :: go_int

record WorkerModel =
  WM_ID :: string
  WM_Hostname :: string
  WM_SupportedTypes :: string
  WM_MaxConcurrent :: go_int
  WM_CurrentJobs :: go_int
  WM_Status :: string
  WM_LastHeartbeat :: time
  WM_RegisteredAt :: time

section \<open>The database library\<close>

datatype sql_arg = AStr string | AUuid uuid | AInt go_int | ATime time | AStrs "string list"

record gorm_query =
  q_where :: "(string \<times> sql_arg list) list"
  q_order :: "string option"
  q_limit :: "go_int option"
  q_offset :: "go_int option"

definition any_row :: gorm_query where
  "any_row = \<lparr>q_where = [], q_order = None, q_limit = None, q_offset = None\<rparr>"

definition Where :: "string \<Rightarrow> sql_arg list \<Rightarrow> gorm_query \<Rightarrow> gorm_query" where
  "Where s args q = q\<lparr>q_where := q_where q @ [(s, args)]\<rparr>"

definition Order :: "string \<Rightarrow> gorm_query \<Rightarrow> gorm_query" where
  "Order s q = q\<lparr>q_order := Some s\<rparr>"

definition Limit :: "go_int \<Rightarrow> gorm_query \<Rightarrow> gorm_query" where
  "Limit n q = q\<lparr>q_limit := Some n\<rparr>"

definition Offset :: "go_int \<Rightarrow> gorm_query \<Rightarrow> gorm_query" where
  "Offset n q = q\<lparr>q_offset := Some n\<rparr>"

text \<open>A statement that writes returns an error and the number of affected rows.\<close>

type_synonym written = "go_error option \<times> go_int"

record 'st gorm =
  Save_job :: "ctx \<Rightarrow> JobModel \<Rightarrow> 'st \<Rightarrow> written \<times> 'st"
  First_job :: "ctx \<Rightarrow> gorm_query \<Rightarrow> 'st \<Rightarrow> (go_error + JobModel) \<times> 'st"
  Find_jobs :: "ctx \<Rightarrow> gorm_query \<Rightarrow> 'st \<Rightarrow> (go_error + JobModel list) \<times> 'st"
  Updates_jobs :: "ctx \<Rightarrow> gorm_query \<Rightarrow> (string \<times> sql_arg) list \<Rightarrow> 'st \<Rightarrow> written \<times> 'st"
  CreateInBatches :: "ctx \<Rightarrow> JobModel list \<Rightarrow> go_int \<Rightarrow> 'st \<Rightarrow> written \<times> 'st"
  Save_history :: "ctx \<Rightarrow> JobHistoryModel \<Rightarrow> 'st \<Rightarrow> written \<times> 'st"
  Find_history :: "ctx \<Rightarrow> gorm_query \<Rightarrow> 'st \<Rightarrow> (go_error + JobHistoryModel list) \<times> 'st"
  Save_worker :: "ctx \<Rightarrow> WorkerModel \<Rightarrow> 'st \<Rightarrow> written \<times> 'st"
  Find_workers :: "ctx \<Rightarrow> gorm_query \<Rightarrow> 'st \<Rightarrow> (go_error + WorkerModel list) \<times> 'st"
  Update_workers :: "ctx \<Rightarrow> gorm_query \<Rightarrow> string \<Rightarrow> sql_arg \<Rightarrow> 'st \<Rightarrow> written \<times> 'st"
  AutoMigrate :: "'st \<Rightarrow> go_error option \<times> 'st"
  sql_DB :: "'st \<Rightarrow> go_error option \<times> 'st"
  sql_Close :: "'st \<Rightarrow> go_error option \<times> 'st"
  ErrRecordNotFound :: go_error

definition db :: "('st \<Rightarrow> 'a \<times> 'st) \<Rightarrow> ('st, 'q, 'a) prog" where
  "db f = State (\<lambda>w. (fst (f (storage w)), w\<lparr>storage := snd (f (storage w))\<rparr>))"

lemma wp_db [wp_simps]: "wp (db f) Q w \<longleftrightarrow> Q (fst (f (storage w))) (w\<lparr>storage := snd (f (storage w))\<rparr>)"
  by (simp add: db_def wp_def)

section \<open>Conversions\<close>

definition domainToJobModel :: "runtime \<Rightarrow> Job \<Rightarrow> go_error + JobModel" where
  "domainToJobModel r job =
     (let payloadStr = (if Job_Payload job = [] \<or> Job_Payload job = ''null'' then ''{}'' else Job_Payload job);
          metadataJSON = render (enc_meta r (Job_Metadata job))
      in case enc_retry r (Job_RetryPolicy job) of
           None \<Rightarrow> Inl (Wrapped ''failed to marshal retry policy: '' json_error)
         | Some retryPolicyJSON \<Rightarrow> Inr \<lparr>
             JM_ID = Job_ID job, JM_Type = Job_Type job, JM_Priority = Job_Priority job,
             JM_Payload = payloadStr, JM_Metadata = metadataJSON, JM_Status = Job_Status job,
             JM_RetryPolicy = render retryPolicyJSON, JM_CreatedAt = Job_CreatedAt job,
             JM_UpdatedAt = Job_UpdatedAt job, JM_ScheduledAt = Job_ScheduledAt job,
             JM_ProcessedAt = Job_ProcessedAt job, JM_CompletedAt = Job_CompletedAt job,
             JM_FailedAt = Job_FailedAt job, JM_LastError = Job_LastError job, JM_WorkerID = Job_WorkerID job\<rparr>)"

definition unmarshal_meta :: "runtime \<Rightarrow> string \<Rightarrow> Metadata option" where
  "unmarshal_meta r s = (case json_parse s of None \<Rightarrow> None | Some t \<Rightarrow> dec_meta r t None)"

definition jobModelToDomain :: "runtime \<Rightarrow> JobModel \<Rightarrow> go_error + Job" where
  "jobModelToDomain r m =
     (case (if JM_Metadata m \<noteq> [] then unmarshal_meta r (JM_Metadata m) else Some None) of
        None \<Rightarrow> Inl (Wrapped ''failed to unmarshal metadata: '' json_error)
      | Some metadata \<Rightarrow>
          (case (if JM_RetryPolicy m \<noteq> [] then unmarshal (retry_fields r) (JM_RetryPolicy m) zero_policy
                 else Some zero_policy) of
             None \<Rightarrow> Inl (Wrapped ''failed to unmarshal retry policy: '' json_error)
           | Some retryPolicy \<Rightarrow> Inr \<lparr>
               Job_ID = JM_ID m, Job_Type = JM_Type m, Job_Priority = JM_Priority m, Job_Payload = JM_Payload m,
               Job_Metadata = metadata, Job_Status = JM_Status m, Job_RetryPolicy = retryPolicy,
               Job_CreatedAt = JM_CreatedAt m, Job_UpdatedAt = JM_UpdatedAt m, Job_ScheduledAt = JM_ScheduledAt m,
               Job_ProcessedAt = JM_ProcessedAt m, Job_CompletedAt = JM_CompletedAt m, Job_FailedAt = JM_FailedAt m,
               Job_LastError = JM_LastError m, Job_WorkerID = JM_WorkerID m\<rparr>))"

text \<open>The loop that converts the rows of a query, and stops at the first that cannot be converted.\<close>

fun convert_jobs :: "JobModel list \<Rightarrow> ('st, 'q, go_error + job_ref list) prog" where
  "convert_jobs [] = ret (Inr [])"
| "convert_jobs (m # ms) = do {
     r \<leftarrow> gets rt;
     (case jobModelToDomain r m of
        Inl err \<Rightarrow> ret (Inl err)
      | Inr job \<Rightarrow> do {
          j \<leftarrow> alloc_job job;
          rest \<leftarrow> convert_jobs ms;
          ret (case rest of Inl err \<Rightarrow> Inl err | Inr js \<Rightarrow> Inr (j # js)) }) }"

section \<open>Jobs\<close>

text \<open>\<open>open_db\<close> is \<^verbatim>\<open>gorm.Open\<close>.\<close>

definition NewPostgresStorage :: "(string \<Rightarrow> go_error + 'st gorm) \<Rightarrow> string \<Rightarrow> ('st, 'q, go_error + 'st gorm) prog" where
  "NewPostgresStorage open_db databaseURL = (case open_db databaseURL of
     Inl err \<Rightarrow> ret (Inl (Wrapped ''failed to connect to database: '' err))
   | Inr G \<Rightarrow> do {
       err \<leftarrow> db (AutoMigrate G);
       ret (case err of Some e \<Rightarrow> Inl (Wrapped ''failed to migrate schema: '' e) | None \<Rightarrow> Inr G) })"

definition PostgresStorage_SaveJob :: "'st gorm \<Rightarrow> ctx \<Rightarrow> job_ref \<Rightarrow> ('st, 'q, go_error option) prog" where
  "PostgresStorage_SaveJob G c j = do {
     job \<leftarrow> read_job j;
     r \<leftarrow> gets rt;
     (case domainToJobModel r job of
        Inl err \<Rightarrow> ret (Some (Wrapped ''failed to convert job to model: '' err))
      | Inr jobModel \<Rightarrow> do {
          res \<leftarrow> db (Save_job G c jobModel);
          ret (fst res) }) }"

definition PostgresStorage_GetJob :: "'st gorm \<Rightarrow> ctx \<Rightarrow> uuid \<Rightarrow> ('st, 'q, go_error + job_ref) prog" where
  "PostgresStorage_GetJob G c jid = do {
     res \<leftarrow> db (First_job G c (Where ''id = ?'' [AUuid jid] any_row));
     r \<leftarrow> gets rt;
     (case res of
        Inl err \<Rightarrow> ret (Inl (if err = ErrRecordNotFound G then GoErr ''job not found'' else err))
      | Inr jobModel \<Rightarrow> (case jobModelToDomain r jobModel of
          Inl err \<Rightarrow> ret (Inl err)
        | Inr job \<Rightarrow> do { j \<leftarrow> alloc_job job; ret (Inr j) })) }"

definition PostgresStorage_UpdateJob :: "'st gorm \<Rightarrow> ctx \<Rightarrow> job_ref \<Rightarrow> ('st, 'q, go_error option) prog" where
  "PostgresStorage_UpdateJob G c j = do {
     job \<leftarrow> read_job j;
     r \<leftarrow> gets rt;
     (case domainToJobModel r job of
        Inl err \<Rightarrow> ret (Some (Wrapped ''failed to convert job to model: '' err))
      | Inr jobModel \<Rightarrow> do {
          res \<leftarrow> db (Save_job G c jobModel);
          ret (if fst res \<noteq> None then fst res
               else if snd res = 0
               then Some (GoErr (''job with id '' @ uuid_String r (Job_ID job) @ '' not found''))
               else None) }) }"

definition list_query :: "JobFilter \<Rightarrow> gorm_query" where
  "list_query flt =
     (let q = any_row;
          q = (case Filter_Status flt of Some s \<Rightarrow> Where ''status = ?'' [AStr s] q | None \<Rightarrow> q);
          q = (case Filter_JobType flt of Some ty \<Rightarrow> Where ''type = ?'' [AStr ty] q | None \<Rightarrow> q);
          q = (case Filter_Priority flt of Some p \<Rightarrow> Where ''priority = ?'' [AInt p] q | None \<Rightarrow> q);
          q = Order ''created_at DESC'' q;
          q = (if 0 <s Filter_Limit flt then Limit (Filter_Limit flt) q else q)
      in if 0 <s Filter_Offset flt then Offset (Filter_Offset flt) q else q)"

definition PostgresStorage_ListJobs :: "'st gorm \<Rightarrow> ctx \<Rightarrow> JobFilter \<Rightarrow> ('st, 'q, go_error + job_ref list) prog" where
  "PostgresStorage_ListJobs G c flt = do {
     res \<leftarrow> db (Find_jobs G c (list_query flt));
     (case res of Inl err \<Rightarrow> ret (Inl err) | Inr jobModels \<Rightarrow> convert_jobs jobModels) }"

definition PostgresStorage_GetJobsByStatus ::
  "'st gorm \<Rightarrow> ctx \<Rightarrow> Status \<Rightarrow> go_int \<Rightarrow> go_int \<Rightarrow> ('st, 'q, go_error + job_ref list) prog" where
  "PostgresStorage_GetJobsByStatus G c status limit offset = do {
     res \<leftarrow> db (Find_jobs G c (Offset offset (Limit limit (Order ''created_at DESC''
       (Where ''status = ?'' [AStr status] any_row)))));
     (case res of Inl err \<Rightarrow> ret (Inl err) | Inr jobModels \<Rightarrow> convert_jobs jobModels) }"

definition PostgresStorage_GetPendingJobs ::
  "'st gorm \<Rightarrow> ctx \<Rightarrow> go_int \<Rightarrow> ('st, 'q, go_error + job_ref list) prog" where
  "PostgresStorage_GetPendingJobs G c limit = do {
     t \<leftarrow> now;
     res \<leftarrow> db (Find_jobs G c (Limit limit (Order ''priority DESC, scheduled_at ASC''
       (Where ''status IN ? AND scheduled_at <= ?'' [AStrs [StatusPending, StatusScheduled], ATime t] any_row))));
     (case res of Inl err \<Rightarrow> ret (Inl err) | Inr jobModels \<Rightarrow> convert_jobs jobModels) }"

definition PostgresStorage_UpdateJobStatus ::
  "'st gorm \<Rightarrow> ctx \<Rightarrow> uuid \<Rightarrow> Status \<Rightarrow> ('st, 'q, go_error option) prog" where
  "PostgresStorage_UpdateJobStatus G c jobID status = do {
     t \<leftarrow> now;
     r \<leftarrow> gets rt;
     res \<leftarrow> db (Updates_jobs G c (Where ''id = ?'' [AUuid jobID] any_row)
       [(''status'', AStr status), (''updated_at'', ATime t)]);
     ret (if fst res \<noteq> None then fst res
          else if snd res = 0 then Some (GoErr (''job with id '' @ uuid_String r jobID @ '' not found''))
          else None) }"

fun convert_models :: "runtime \<Rightarrow> Job list \<Rightarrow> go_error + JobModel list" where
  "convert_models r [] = Inr []"
| "convert_models r (job # jobs) = (case domainToJobModel r job of
     Inl err \<Rightarrow> Inl (Wrapped (''failed to convert job '' @ uuid_String r (Job_ID job) @ '' to model: '') err)
   | Inr m \<Rightarrow> (case convert_models r jobs of Inl err \<Rightarrow> Inl err | Inr ms \<Rightarrow> Inr (m # ms)))"

definition PostgresStorage_BatchInsertJobs :: "'st gorm \<Rightarrow> ctx \<Rightarrow> job_ref list \<Rightarrow> ('st, 'q, go_error option) prog" where
  "PostgresStorage_BatchInsertJobs G c js = do {
     jobs \<leftarrow> gets (\<lambda>w. map (heap w) js);
     r \<leftarrow> gets rt;
     (case convert_models r jobs of
        Inl err \<Rightarrow> ret (Some err)
      | Inr jobModels \<Rightarrow> do {
          res \<leftarrow> db (CreateInBatches G c jobModels 100);
          ret (fst res) }) }"

section \<open>History and workers\<close>

definition historyModel :: "JobHistory \<Rightarrow> JobHistoryModel" where
  "historyModel h = \<lparr>HM_ID = Hist_ID h, HM_JobID = Hist_JobID h, HM_WorkerID = Hist_WorkerID h,
     HM_AttemptNumber = Hist_AttemptNumber h, HM_StartedAt = Hist_StartedAt h, HM_CompletedAt = Hist_CompletedAt h,
     HM_Status = Hist_Status h, HM_ErrorMessage = Hist_Error h, HM_Duration = Hist_Duration h\<rparr>"

definition historyDomain :: "JobHistoryModel \<Rightarrow> JobHistory" where
  "historyDomain m = \<lparr>Hist_ID = HM_ID m, Hist_JobID = HM_JobID m, Hist_WorkerID = HM_WorkerID m,
     Hist_AttemptNumber = HM_AttemptNumber m, Hist_StartedAt = HM_StartedAt m, Hist_CompletedAt = HM_CompletedAt m,
     Hist_Status = HM_Status m, Hist_Error = HM_ErrorMessage m, Hist_Duration = HM_Duration m\<rparr>"

definition PostgresStorage_SaveJobHistory :: "'st gorm \<Rightarrow> ctx \<Rightarrow> JobHistory \<Rightarrow> ('st, 'q, go_error option) prog" where
  "PostgresStorage_SaveJobHistory G c history = do {
     res \<leftarrow> db (Save_history G c (historyModel history));
     ret (fst res) }"

definition PostgresStorage_GetJobHistory :: "'st gorm \<Rightarrow> ctx \<Rightarrow> uuid \<Rightarrow> ('st, 'q, go_error + JobHistory list) prog" where
  "PostgresStorage_GetJobHistory G c jobID = do {
     res \<leftarrow> db (Find_history G c (Order ''started_at DESC'' (Where ''job_id = ?'' [AUuid jobID] any_row)));
     ret (case res of Inl err \<Rightarrow> Inl err | Inr ms \<Rightarrow> Inr (map historyDomain ms)) }"

text \<open>
  The types that a worker supports are stored as a JSON array (a nil slice is written as \<^verbatim>\<open>null\<close>, which is
  read back as one; the only caller passes a slice that is not nil).
\<close>

definition enc_types :: "JobType list \<Rightarrow> jtext" where
  "enc_types ts = TArr (map enc_string ts)"

definition dec_types :: "jtext \<Rightarrow> JobType list option" where
  "dec_types t = (case t of
     TNull \<Rightarrow> Some []
   | TArr ts \<Rightarrow> those (map (\<lambda>t. dec_string t []) ts)
   | _ \<Rightarrow> None)"

definition unmarshal_types :: "string \<Rightarrow> JobType list option" where
  "unmarshal_types s = (case json_parse s of None \<Rightarrow> None | Some t \<Rightarrow> dec_types t)"

definition workerModel :: "Worker \<Rightarrow> WorkerModel" where
  "workerModel w = \<lparr>WM_ID = Worker_ID w, WM_Hostname = Worker_Hostname w,
     WM_SupportedTypes = render (enc_types (Worker_SupportedTypes w)), WM_MaxConcurrent = Worker_MaxConcurrent w,
     WM_CurrentJobs = Worker_CurrentJobs w, WM_Status = Worker_Status w, WM_LastHeartbeat = Worker_LastHeartbeat w,
     WM_RegisteredAt = Worker_RegisteredAt w\<rparr>"

definition PostgresStorage_RegisterWorker :: "'st gorm \<Rightarrow> ctx \<Rightarrow> Worker \<Rightarrow> ('st, 'q, go_error option) prog" where
  "PostgresStorage_RegisterWorker G c worker = do {
     res \<leftarrow> db (Save_worker G c (workerModel worker));
     ret (fst res) }"

definition PostgresStorage_UpdateWorkerHeartbeat :: "'st gorm \<Rightarrow> ctx \<Rightarrow> string \<Rightarrow> ('st, 'q, go_error option) prog" where
  "PostgresStorage_UpdateWorkerHeartbeat G c workerID = do {
     t \<leftarrow> now;
     res \<leftarrow> db (Update_workers G c (Where ''id = ?'' [AStr workerID] any_row) ''last_heartbeat'' (ATime t));
     ret (fst res) }"

fun convert_workers :: "WorkerModel list \<Rightarrow> go_error + Worker list" where
  "convert_workers [] = Inr []"
| "convert_workers (m # ms) = (case unmarshal_types (WM_SupportedTypes m) of
     None \<Rightarrow> Inl (Wrapped ''failed to unmarshal supported types: '' json_error)
   | Some ts \<Rightarrow> (case convert_workers ms of
       Inl err \<Rightarrow> Inl err
     | Inr ws \<Rightarrow> Inr (\<lparr>Worker_ID = WM_ID m, Worker_Hostname = WM_Hostname m, Worker_SupportedTypes = ts,
         Worker_MaxConcurrent = WM_MaxConcurrent m, Worker_CurrentJobs = WM_CurrentJobs m, Worker_Status = WM_Status m,
         Worker_LastHeartbeat = WM_LastHeartbeat m, Worker_RegisteredAt = WM_RegisteredAt m\<rparr> # ws)))"

definition PostgresStorage_GetActiveWorkers :: "'st gorm \<Rightarrow> ctx \<Rightarrow> ('st, 'q, go_error + Worker list) prog" where
  "PostgresStorage_GetActiveWorkers G c = do {
     res \<leftarrow> db (Find_workers G c (Where ''status = ?'' [AStr ''active''] any_row));
     ret (case res of Inl err \<Rightarrow> Inl err | Inr ms \<Rightarrow> convert_workers ms) }"

definition PostgresStorage_DeactivateStaleWorkers :: "'st gorm \<Rightarrow> ctx \<Rightarrow> duration \<Rightarrow> ('st, 'q, go_error option) prog" where
  "PostgresStorage_DeactivateStaleWorkers G c timeout = do {
     t \<leftarrow> now;
     res \<leftarrow> db (Update_workers G c
       (Where ''last_heartbeat < ? AND status = ?'' [ATime (time_Add t (- timeout)), AStr ''active''] any_row)
       ''status'' (AStr ''inactive''));
     ret (fst res) }"

definition PostgresStorage_Close :: "'st gorm \<Rightarrow> ('st, 'q, go_error option) prog" where
  "PostgresStorage_Close G = do {
     err \<leftarrow> db (sql_DB G);
     (case err of Some e \<Rightarrow> ret (Some e) | None \<Rightarrow> db (sql_Close G)) }"

definition postgres_storage :: "'st gorm \<Rightarrow> ('st, 'q) StoragePort" where
  "postgres_storage G = \<lparr>SaveJob = PostgresStorage_SaveJob G, GetJob = PostgresStorage_GetJob G,
     UpdateJob = PostgresStorage_UpdateJob G, ListJobs = PostgresStorage_ListJobs G,
     SaveJobHistory = PostgresStorage_SaveJobHistory G, GetJobHistory = PostgresStorage_GetJobHistory G,
     RegisterWorker = PostgresStorage_RegisterWorker G, UpdateWorkerHeartbeat = PostgresStorage_UpdateWorkerHeartbeat G,
     GetActiveWorkers = PostgresStorage_GetActiveWorkers G,
     DeactivateStaleWorkers = PostgresStorage_DeactivateStaleWorkers G\<rparr>"

section \<open>Round trips of the conversions\<close>

definition norm_row_payload :: "string \<Rightarrow> string" where
  "norm_row_payload p = (if p = [] \<or> p = ''null'' then ''{}'' else p)"

definition norm_stored :: "Job \<Rightarrow> Job" where
  "norm_stored j = j\<lparr>Job_Payload := norm_row_payload (Job_Payload j), Job_Metadata := norm_meta (Job_Metadata j),
     Job_RetryPolicy := norm_retry (Job_RetryPolicy j)\<rparr>"

definition meta_readable :: "runtime \<Rightarrow> Metadata \<Rightarrow> bool" where
  "meta_readable r m \<longleftrightarrow> meta_numbers r m \<and> nesting (enc_meta r m) \<le> 10000"

lemma unmarshal_enc_meta: "meta_readable r m \<Longrightarrow> unmarshal_meta r (render (enc_meta r m)) = Some (norm_meta m)"
  using json_parse_render dec_enc_meta [of r m] by (simp add: unmarshal_meta_def meta_readable_def)

lemma nesting_retry: "codec_laws r \<Longrightarrow> enc_retry r p = Some t \<Longrightarrow> nesting t = 1"
proof -
  assume laws: "codec_laws r" and "enc_retry r p = Some t"
  then obtain lt where "omit_time r ''last_attempt_at'' (LastAttemptAt p) = Some lt"
    and t: "t = TObj ([(''max_attempts'', enc_int (MaxAttempts p)), (''current_attempts'', enc_int (CurrentAttempts p)),
       (''base_delay'', enc_int (BaseDelay p)), (''max_delay'', enc_int (MaxDelay p)),
       (''backoff_strategy'', enc_string (BackoffStrategy p))] @ lt)"
    by (auto simp: enc_retry_def bind_eq_Some_conv)
  then have "\<forall>(k, v) \<in> set lt. nesting v = 0"
    using dec_enc_time(4) [OF laws] by (auto simp: omit_time_def split: option.splits)
  then have "foldr max (map (\<lambda>(k, v). nesting v) lt) 0 = 0" by (induction lt) auto
  then show ?thesis unfolding t by simp
qed

lemma unmarshal_enc_retry:
  assumes "codec_laws r" and "enc_retry r p = Some t"
  shows "unmarshal (retry_fields r) (render t) zero_policy = Some (norm_retry p)"
  using json_parse_render [of t] nesting_retry [OF assms] dec_enc_retry [OF assms] by (simp add: unmarshal_def)

lemma render_nonempty: "well_spelled t \<Longrightarrow> render t \<noteq> []"
  by (metis list.distinct(1) render_start)

lemma model_roundtrip:
  assumes "codec_laws r" and "meta_readable r (Job_Metadata j)" and "domainToJobModel r j = Inr m"
  shows "jobModelToDomain r m = Inr (norm_stored j)"
proof -
  obtain t where t: "enc_retry r (Job_RetryPolicy j) = Some t"
    using assms(3) by (auto simp: domainToJobModel_def Let_def split: option.splits)
  have "render t \<noteq> []" "render (enc_meta r (Job_Metadata j)) \<noteq> []"
    using render_nonempty dec_enc_retry(2) [OF assms(1) t] dec_enc_meta(2) assms(2) by (auto simp: meta_readable_def)
  moreover have "JM_Metadata m = render (enc_meta r (Job_Metadata j))" "JM_RetryPolicy m = render t"
    using assms(3) t by (auto simp: domainToJobModel_def Let_def)
  ultimately have parts: "(if JM_Metadata m \<noteq> [] then unmarshal_meta r (JM_Metadata m) else Some None) = Some (norm_meta (Job_Metadata j))"
    "(if JM_RetryPolicy m \<noteq> [] then unmarshal (retry_fields r) (JM_RetryPolicy m) zero_policy else Some zero_policy) =
      Some (norm_retry (Job_RetryPolicy j))"
    using unmarshal_enc_meta [OF assms(2)] unmarshal_enc_retry [OF assms(1) t] by simp_all
  show ?thesis unfolding jobModelToDomain_def parts option.case
    using assms(3) t by (auto simp: domainToJobModel_def Let_def norm_stored_def norm_row_payload_def)
qed

lemma history_roundtrip: "historyDomain (historyModel h) = h"
  by (simp add: historyDomain_def historyModel_def)

section \<open>What the adapter relies on\<close>

text \<open>The meaning of the conditions and orders that the adapter writes.\<close>

fun job_cond :: "string \<times> sql_arg list \<Rightarrow> JobModel \<Rightarrow> bool" where
  "job_cond (s, [AUuid u]) m \<longleftrightarrow> s = ''id = ?'' \<and> JM_ID m = u"
| "job_cond (s, [AStr x]) m \<longleftrightarrow> s = ''status = ?'' \<and> JM_Status m = x \<or> s = ''type = ?'' \<and> JM_Type m = x"
| "job_cond (s, [AInt p]) m \<longleftrightarrow> s = ''priority = ?'' \<and> JM_Priority m = p"
| "job_cond (s, [AStrs xs, ATime t]) m \<longleftrightarrow>
     s = ''status IN ? AND scheduled_at <= ?'' \<and> JM_Status m \<in> set xs \<and> JM_ScheduledAt m \<le> t"
| "job_cond _ m \<longleftrightarrow> False"

fun worker_cond :: "string \<times> sql_arg list \<Rightarrow> WorkerModel \<Rightarrow> bool" where
  "worker_cond (s, [AStr x]) m \<longleftrightarrow> s = ''id = ?'' \<and> WM_ID m = x \<or> s = ''status = ?'' \<and> WM_Status m = x"
| "worker_cond (s, [ATime t, AStr x]) m \<longleftrightarrow>
     s = ''last_heartbeat < ? AND status = ?'' \<and> WM_LastHeartbeat m < t \<and> WM_Status m = x"
| "worker_cond _ m \<longleftrightarrow> False"

definition job_rank :: "string \<Rightarrow> JobModel \<Rightarrow> int \<times> int" where
  "job_rank s m =
     (if s = ''created_at DESC'' then (- JM_CreatedAt m, 0)
      else if s = ''priority DESC, scheduled_at ASC'' then (- sint (JM_Priority m), JM_ScheduledAt m)
      else (0, 0))"

definition worker_set :: "string \<Rightarrow> sql_arg \<Rightarrow> WorkerModel \<Rightarrow> WorkerModel" where
  "worker_set column v m = (case v of
     ATime t \<Rightarrow> if column = ''last_heartbeat'' then m\<lparr>WM_LastHeartbeat := t\<rparr> else m
   | AStr x \<Rightarrow> if column = ''status'' then m\<lparr>WM_Status := x\<rparr> else m
   | _ \<Rightarrow> m)"

text \<open>The rows of a table that a query selects, in its order, and the part of them that it returns.\<close>

definition window :: "gorm_query \<Rightarrow> 'm list \<Rightarrow> 'm list" where
  "window q xs = (let ys = (case q_offset q of None \<Rightarrow> xs | Some n \<Rightarrow> drop (nat (sint n)) xs)
     in case q_limit q of None \<Rightarrow> ys | Some n \<Rightarrow> take (nat (sint n)) ys)"

definition row_list :: "('k \<rightharpoonup> 'm) \<Rightarrow> ('m \<Rightarrow> bool) \<Rightarrow> ('m \<Rightarrow> 'r::linorder) \<Rightarrow> 'm list \<Rightarrow> bool" where
  "row_list tbl P rank ms \<longleftrightarrow> (\<exists>ks. distinct ks \<and> set ks = {k. \<exists>m. tbl k = Some m \<and> P m} \<and>
     ms = map (\<lambda>k. the (tbl k)) ks \<and> sorted (map rank ms))"

text \<open>
  The tables of a database state, and what storing a row in the columns does to it (timestamps are
  kept to the microsecond, JSON documents are normalized).
\<close>

record 'st tables =
  jobs_tbl :: "'st \<Rightarrow> uuid \<rightharpoonup> JobModel"
  workers_tbl :: "'st \<Rightarrow> string \<rightharpoonup> WorkerModel"
  col_job :: "JobModel \<Rightarrow> JobModel"
  col_worker :: "WorkerModel \<Rightarrow> WorkerModel"

text \<open>
  \<^verbatim>\<open>Save\<close> inserts or overwrites the row with the primary key of the model and sets \<^verbatim>\<open>UpdatedAt\<close>. A statement
  that returns an error may have been executed all the same.
\<close>

definition save_job_law :: "'st gorm \<Rightarrow> 'st tables \<Rightarrow> bool" where
  "save_job_law G T \<longleftrightarrow> (\<forall>c m st e n st'. Save_job G c m st = ((e, n), st') \<longrightarrow>
     workers_tbl T st' = workers_tbl T st \<and> (e = None \<longrightarrow> n = 1) \<and>
     ((\<exists>t. jobs_tbl T st' = (jobs_tbl T st)(JM_ID m \<mapsto> col_job T (m\<lparr>JM_UpdatedAt := t\<rparr>))) \<or>
      e \<noteq> None \<and> jobs_tbl T st' = jobs_tbl T st))"

definition first_job_law :: "'st gorm \<Rightarrow> 'st tables \<Rightarrow> bool" where
  "first_job_law G T \<longleftrightarrow> (\<forall>c q st res st'. First_job G c q st = (res, st') \<longrightarrow>
     jobs_tbl T st' = jobs_tbl T st \<and> workers_tbl T st' = workers_tbl T st \<and>
     (case res of
        Inr m \<Rightarrow> \<exists>k. jobs_tbl T st k = Some m \<and> list_all (\<lambda>cond. job_cond cond m) (q_where q)
      | Inl e \<Rightarrow> e = ErrRecordNotFound G \<longrightarrow>
          (\<forall>k m. jobs_tbl T st k = Some m \<longrightarrow> \<not> list_all (\<lambda>cond. job_cond cond m) (q_where q))))"

definition find_jobs_law :: "'st gorm \<Rightarrow> 'st tables \<Rightarrow> bool" where
  "find_jobs_law G T \<longleftrightarrow> (\<forall>c q st res st'. Find_jobs G c q st = (res, st') \<longrightarrow>
     jobs_tbl T st' = jobs_tbl T st \<and> workers_tbl T st' = workers_tbl T st \<and>
     (\<forall>ms order. res = Inr ms \<and> q_order q = Some order \<and>
        (\<forall>n. q_limit q = Some n \<or> q_offset q = Some n \<longrightarrow> 0 < sint n) \<longrightarrow>
        (\<exists>all. row_list (jobs_tbl T st) (\<lambda>m. list_all (\<lambda>cond. job_cond cond m) (q_where q)) (job_rank order) all \<and>
           ms = window q all)))"

definition update_workers_law :: "'st gorm \<Rightarrow> 'st tables \<Rightarrow> bool" where
  "update_workers_law G T \<longleftrightarrow> (\<forall>c q column v st e n st'. Update_workers G c q column v st = ((e, n), st') \<longrightarrow>
     jobs_tbl T st' = jobs_tbl T st \<and>
     (workers_tbl T st' = (\<lambda>k. map_option (\<lambda>m. if list_all (\<lambda>cond. worker_cond cond m) (q_where q)
          then col_worker T (worker_set column v m) else m) (workers_tbl T st k)) \<or>
      e \<noteq> None \<and> workers_tbl T st' = workers_tbl T st))"

text \<open>A row is stored under its primary key.\<close>

definition key_law :: "'st tables \<Rightarrow> bool" where
  "key_law T \<longleftrightarrow> (\<forall>st. (\<forall>k m. jobs_tbl T st k = Some m \<longrightarrow> JM_ID m = k) \<and>
     (\<forall>k m. workers_tbl T st k = Some m \<longrightarrow> WM_ID m = k))"

definition gorm_laws :: "'st gorm \<Rightarrow> 'st tables \<Rightarrow> bool" where
  "gorm_laws G T \<longleftrightarrow> save_job_law G T \<and> first_job_law G T \<and> find_jobs_law G T \<and> update_workers_law G T \<and> key_law T"

text \<open>Columns keep identifiers, strings and numbers, and a JSON document denotes the same retry policy.\<close>

definition column_laws :: "runtime \<Rightarrow> 'st tables \<Rightarrow> bool" where
  "column_laws r T \<longleftrightarrow> (\<forall>m. JM_ID (col_job T m) = JM_ID m \<and> JM_Type (col_job T m) = JM_Type m \<and>
     JM_Priority (col_job T m) = JM_Priority m \<and> JM_Status (col_job T m) = JM_Status m \<and>
     JM_LastError (col_job T m) = JM_LastError m \<and> JM_WorkerID (col_job T m) = JM_WorkerID m \<and>
     (unmarshal_meta r (JM_Metadata m) \<noteq> None \<longrightarrow> unmarshal_meta r (JM_Metadata (col_job T m)) \<noteq> None) \<and>
     (JM_RetryPolicy m \<noteq> [] \<longrightarrow> JM_RetryPolicy (col_job T m) \<noteq> [] \<and>
      unmarshal (retry_fields r) (JM_RetryPolicy (col_job T m)) zero_policy =
        unmarshal (retry_fields r) (JM_RetryPolicy m) zero_policy))"

definition reads_up :: "'st gorm \<Rightarrow> bool" where
  "reads_up G \<longleftrightarrow> (\<forall>c q st e. (fst (First_job G c q st) = Inl e \<longrightarrow> e = ErrRecordNotFound G) \<and>
     fst (Find_jobs G c q st) \<noteq> Inl e)"

section \<open>Jobs in the database\<close>

text \<open>What the services decide on.\<close>

definition same_decisions :: "Job \<Rightarrow> Job \<Rightarrow> bool" where
  "same_decisions J J' \<longleftrightarrow> Job_ID J' = Job_ID J \<and> Job_Type J' = Job_Type J \<and> Job_Priority J' = Job_Priority J \<and>
     Job_Status J' = Job_Status J \<and> Job_RetryPolicy J' = norm_retry (Job_RetryPolicy J) \<and>
     Job_LastError J' = Job_LastError J \<and> Job_WorkerID J' = Job_WorkerID J"

lemma domain_of_column:
  assumes "column_laws r T" and "codec_laws r" and "meta_readable r (Job_Metadata J)" and "domainToJobModel r J = Inr m"
  shows "\<exists>J'. jobModelToDomain r (col_job T (m\<lparr>JM_UpdatedAt := t\<rparr>)) = Inr J' \<and> same_decisions J J'"
proof -
  let ?m = "m\<lparr>JM_UpdatedAt := t\<rparr>" and ?c = "col_job T (m\<lparr>JM_UpdatedAt := t\<rparr>)"
  obtain p where p: "enc_retry r (Job_RetryPolicy J) = Some p"
    using assms(4) by (auto simp: domainToJobModel_def Let_def split: option.splits)
  have m: "JM_Metadata m = render (enc_meta r (Job_Metadata J))" "JM_RetryPolicy m = render p"
      "JM_ID m = Job_ID J" "JM_Type m = Job_Type J" "JM_Priority m = Job_Priority J" "JM_Status m = Job_Status J"
      "JM_LastError m = Job_LastError J" "JM_WorkerID m = Job_WorkerID J"
    using assms(4) p by (auto simp: domainToJobModel_def Let_def)
  have col: "JM_ID ?c = JM_ID m" "JM_Type ?c = JM_Type m" "JM_Priority ?c = JM_Priority m" "JM_Status ?c = JM_Status m"
      "JM_LastError ?c = JM_LastError m" "JM_WorkerID ?c = JM_WorkerID m"
      "unmarshal_meta r (JM_Metadata m) \<noteq> None \<Longrightarrow> unmarshal_meta r (JM_Metadata ?c) \<noteq> None"
      "JM_RetryPolicy m \<noteq> [] \<Longrightarrow> JM_RetryPolicy ?c \<noteq> [] \<and> unmarshal (retry_fields r) (JM_RetryPolicy ?c) zero_policy =
        unmarshal (retry_fields r) (JM_RetryPolicy m) zero_policy"
    using assms(1) unfolding column_laws_def by (auto dest: spec [of _ ?m])
  have "JM_RetryPolicy m \<noteq> []" using m(2) render_nonempty dec_enc_retry(2) [OF assms(2) p] by simp
  then have retry: "(if JM_RetryPolicy ?c \<noteq> [] then unmarshal (retry_fields r) (JM_RetryPolicy ?c) zero_policy else Some zero_policy) =
      Some (norm_retry (Job_RetryPolicy J))"
    using col(8) m(2) unmarshal_enc_retry [OF assms(2) p] by simp
  have "unmarshal_meta r (JM_Metadata ?c) \<noteq> None" using col(7) m(1) unmarshal_enc_meta [OF assms(3)] by simp
  then obtain md where "(if JM_Metadata ?c \<noteq> [] then unmarshal_meta r (JM_Metadata ?c) else Some None) = Some md"
    by (cases "JM_Metadata ?c = []") auto
  then show ?thesis using col(1-6) m(3-8) unfolding jobModelToDomain_def retry by (simp add: same_decisions_def)
qed

lemma save_jobD:
  assumes "gorm_laws G T"
  shows "workers_tbl T (snd (Save_job G c m st)) = workers_tbl T st"
    and "fst (fst (Save_job G c m st)) = None \<Longrightarrow> snd (fst (Save_job G c m st)) = 1"
    and "(\<exists>t. jobs_tbl T (snd (Save_job G c m st)) = (jobs_tbl T st)(JM_ID m \<mapsto> col_job T (m\<lparr>JM_UpdatedAt := t\<rparr>))) \<or>
      fst (fst (Save_job G c m st)) \<noteq> None \<and> jobs_tbl T (snd (Save_job G c m st)) = jobs_tbl T st"
proof -
  have law: "save_job_law G T" using assms by (simp add: gorm_laws_def)
  have eq: "Save_job G c m st = ((fst (fst (Save_job G c m st)), snd (fst (Save_job G c m st))), snd (Save_job G c m st))"
    by simp
  note D = law [unfolded save_job_law_def, rule_format, OF eq]
  show "workers_tbl T (snd (Save_job G c m st)) = workers_tbl T st" using D by blast
  show "fst (fst (Save_job G c m st)) = None \<Longrightarrow> snd (fst (Save_job G c m st)) = 1" using D by blast
  show "(\<exists>t. jobs_tbl T (snd (Save_job G c m st)) = (jobs_tbl T st)(JM_ID m \<mapsto> col_job T (m\<lparr>JM_UpdatedAt := t\<rparr>))) \<or>
      fst (fst (Save_job G c m st)) \<noteq> None \<and> jobs_tbl T (snd (Save_job G c m st)) = jobs_tbl T st" using D by blast
qed

lemma postgres_save_rule:
  assumes "gorm_laws G T"
  shows "wp (PostgresStorage_SaveJob G c j) (\<lambda>e w'. storage_frame w w' \<and> heap w' = heap w \<and>
      workers_tbl T (storage w') = workers_tbl T (storage w) \<and>
      (e = None \<longrightarrow> (\<exists>m t. domainToJobModel (rt w) (heap w j) = Inr m \<and>
         jobs_tbl T (storage w') = (jobs_tbl T (storage w))(Job_ID (heap w j) \<mapsto> col_job T (m\<lparr>JM_UpdatedAt := t\<rparr>))))) w"
proof (cases "domainToJobModel (rt w) (heap w j)")
  case (Inl e)
  then show ?thesis by (simp add: PostgresStorage_SaveJob_def wp_simps storage_frame_def same_run_def)
next
  case (Inr m)
  have "JM_ID m = Job_ID (heap w j)" using Inr by (auto simp: domainToJobModel_def Let_def split: option.splits)
  then show ?thesis using save_jobD [OF assms, of c m "storage w"] Inr
    by (auto simp: PostgresStorage_SaveJob_def wp_simps storage_frame_def same_run_def)
qed

lemma postgres_get_rule:
  assumes "gorm_laws G T"
  shows "wp (PostgresStorage_GetJob G c jid) (\<lambda>res w'. storage_frame w w' \<and> jobs_tbl T (storage w') = jobs_tbl T (storage w) \<and>
      (reads_up G \<longrightarrow> (case jobs_tbl T (storage w) jid of
         None \<Rightarrow> res = Inl (GoErr ''job not found'')
       | Some m \<Rightarrow> (case jobModelToDomain (rt w) m of
           Inl e \<Rightarrow> res = Inl e
         | Inr J \<Rightarrow> res = Inr (next_ref w) \<and> heap w' (next_ref w) = J)))) w"
proof -
  let ?r = "First_job G c (Where ''id = ?'' [AUuid jid] any_row) (storage w)"
  have law: "first_job_law G T" and key: "key_law T" using assms by (simp_all add: gorm_laws_def)
  have q: "q_where (Where ''id = ?'' [AUuid jid] any_row) = [(''id = ?'', [AUuid jid])]" by (simp add: Where_def any_row_def)
  note D = law [unfolded first_job_law_def, rule_format, OF prod.collapse [symmetric],
      of c "Where ''id = ?'' [AUuid jid] any_row" "storage w", unfolded q]
  show ?thesis
  proof (cases "fst ?r")
    case (Inl e)
    have up: "reads_up G \<Longrightarrow> e = ErrRecordNotFound G" using Inl unfolding reads_up_def by blast
    have "e = ErrRecordNotFound G \<Longrightarrow> jobs_tbl T (storage w) jid = None"
    proof (rule ccontr)
      assume "e = ErrRecordNotFound G" "jobs_tbl T (storage w) jid \<noteq> None"
      moreover from this obtain m where "jobs_tbl T (storage w) jid = Some m" by blast
      moreover from this have "JM_ID m = jid" using key unfolding key_law_def by blast
      ultimately show False using D Inl by auto
    qed
    then show ?thesis using D Inl up
      by (auto simp: PostgresStorage_GetJob_def wp_simps storage_frame_def same_run_def)
  next
    case (Inr m)
    then obtain k where k: "jobs_tbl T (storage w) k = Some m" "JM_ID m = jid" using D by auto
    moreover have "JM_ID m = k" using key k(1) unfolding key_law_def by blast
    ultimately have "jobs_tbl T (storage w) jid = Some m" by simp
    then show ?thesis using D Inr
      by (auto simp: PostgresStorage_GetJob_def wp_simps storage_frame_def same_run_def split: sum.splits)
  qed
qed

text \<open>
  C27: The row of a job denotes the job: converting a job to its database model and back returns it
  unchanged but for an absent payload, which becomes the empty object, the order of its metadata and
  strings of the retry policy that are not UTF-8.
\<close>

theorem postgres_model_roundtrip:
  assumes "codec_laws r" and "meta_readable r (Job_Metadata J)" and "domainToJobModel r J = Inr m"
  shows "jobModelToDomain r m = Inr (norm_stored J)"
  by (rule model_roundtrip [OF assms])

text \<open>
  C9: A job that was saved is found: after a successful save, reading the job's identifier returns a new
  object with the same identifier, type, priority, status, attempt counters, delays and error, whatever
  the table held before.
\<close>

theorem postgres_save_get:
  assumes "gorm_laws G T" and "column_laws (rt w) T" and "codec_laws (rt w)" and "reads_up G"
    and "meta_readable (rt w) (Job_Metadata (heap w j))"
    and "run_state (PostgresStorage_SaveJob G c j) w = (None, w1)"
    and "run_state (PostgresStorage_GetJob G c (Job_ID (heap w j))) w1 = (res, w2)"
  shows "\<exists>j'. res = Inr j' \<and> next_ref w \<le> j' \<and> same_decisions (heap w j) (heap w2 j')"
proof -
  note S = wpD [OF postgres_save_rule [OF assms(1)] assms(6)]
  then obtain m t where m: "domainToJobModel (rt w) (heap w j) = Inr m"
    "jobs_tbl T (storage w1) = (jobs_tbl T (storage w))(Job_ID (heap w j) \<mapsto> col_job T (m\<lparr>JM_UpdatedAt := t\<rparr>))" by blast
  obtain J' where J': "jobModelToDomain (rt w) (col_job T (m\<lparr>JM_UpdatedAt := t\<rparr>)) = Inr J'" "same_decisions (heap w j) J'"
    using domain_of_column [OF assms(2,3,5) m(1)] by blast
  have "rt w1 = rt w" "next_ref w \<le> next_ref w1" using S by (simp_all add: storage_frame_def same_run_def)
  then show ?thesis using wpD [OF postgres_get_rule [OF assms(1)] assms(7)] assms(4) m(2) J' by simp
qed

text \<open>
  A save of the library writes one row, inserted or updated, when it succeeds; so \<^verbatim>\<open>UpdateJob\<close> inserts a job that the table does not
  hold, and its answer that the job was not found is not given.
\<close>

lemma postgres_update_is_save:
  assumes "gorm_laws G T"
  shows "PostgresStorage_UpdateJob G c j = PostgresStorage_SaveJob G c j"
proof -
  have one: "fst (fst (Save_job G c m st)) = None \<Longrightarrow> snd (fst (Save_job G c m st)) \<noteq> 0" for m st
    using save_jobD(2) [OF assms, of c m st] by simp
  show ?thesis
  proof (rule state.expand, rule ext)
    fix w
    show "run_state (PostgresStorage_UpdateJob G c j) w = run_state (PostgresStorage_SaveJob G c j) w"
      using one by (cases "domainToJobModel (rt w) (heap w j)")
        (auto simp: PostgresStorage_UpdateJob_def PostgresStorage_SaveJob_def read_job_def db_def)
  qed
qed

section \<open>Lists of jobs\<close>

text \<open>The rows that a filter of the port selects, and the page of them.\<close>

definition filter_matches :: "JobFilter \<Rightarrow> JobModel \<Rightarrow> bool" where
  "filter_matches flt m \<longleftrightarrow>
     (\<forall>s. Filter_Status flt = Some s \<longrightarrow> JM_Status m = s) \<and>
     (\<forall>ty. Filter_JobType flt = Some ty \<longrightarrow> JM_Type m = ty) \<and>
     (\<forall>p. Filter_Priority flt = Some p \<longrightarrow> JM_Priority m = p)"

definition page :: "JobFilter \<Rightarrow> 'm list \<Rightarrow> 'm list" where
  "page flt xs = (let ys = drop (nat (sint (Filter_Offset flt))) xs
     in if 0 < sint (Filter_Limit flt) then take (nat (sint (Filter_Limit flt))) ys else ys)"

lemma list_query_parts:
  "q_order (list_query flt) = Some ''created_at DESC''"
  "list_all (\<lambda>cond. job_cond cond m) (q_where (list_query flt)) \<longleftrightarrow> filter_matches flt m"
  "window (list_query flt) xs = page flt xs"
  "q_limit (list_query flt) = Some n \<or> q_offset (list_query flt) = Some n \<Longrightarrow> 0 < sint n"
  by (auto simp: list_query_def Let_def any_row_def Where_def Order_def Limit_def Offset_def filter_matches_def
      window_def page_def word_sless_alt split: option.splits if_splits)

lemma convert_jobs_rule:
  "wp (convert_jobs ms) (\<lambda>res w'. storage_frame w w' \<and> storage w' = storage w \<and>
     (case res of
        Inr js \<Rightarrow> js = [next_ref w..<next_ref w + length ms] \<and>
          list_all2 (\<lambda>m j. jobModelToDomain (rt w) m = Inr (heap w' j)) ms js
      | Inl e \<Rightarrow> \<exists>m \<in> set ms. jobModelToDomain (rt w) m = Inl e)) w"
proof (induction ms arbitrary: w)
  case Nil
  then show ?case by (simp add: wp_simps storage_frame_def same_run_def)
next
  case (Cons m ms)
  show ?case
  proof (cases "jobModelToDomain (rt w) m")
    case (Inl e)
    then show ?thesis by (simp add: wp_simps storage_frame_def same_run_def)
  next
    case (Inr J)
    let ?w1 = "w\<lparr>heap := (heap w)(next_ref w := J), next_ref := Suc (next_ref w)\<rparr>"
    show ?thesis unfolding convert_jobs.simps wp_bind wp_gets Inr sum.case wp_alloc_job
    proof (rule wp_mono [OF Cons.IH], goal_cases)
      case (1 res w')
      have "heap w' (next_ref w) = J" using 1 by (simp add: storage_frame_def)
      moreover have "next_ref w # [Suc (next_ref w)..<Suc (next_ref w + length ms)] = [next_ref w..<Suc (next_ref w + length ms)]"
        by (simp add: upt_conv_Cons del: upt_Suc)
      ultimately show ?case using 1 Inr
        by (auto simp: wp_simps storage_frame_def same_run_def simp del: upt_Suc split: sum.splits)
    qed
  qed
qed

text \<open>
  C17: Listing jobs returns the page that was asked for: the rows that match every given criterion,
  newest first, without those before the offset and not more than a positive limit; each becomes a new
  job object. A limit or offset that is not positive is not applied.
\<close>

theorem postgres_list_page:
  assumes "gorm_laws G T" and "run_state (PostgresStorage_ListJobs G c flt) w = (Inr js, w')"
  shows "\<exists>rows. row_list (jobs_tbl T (storage w)) (filter_matches flt) (\<lambda>m. - JM_CreatedAt m) rows \<and>
    list_all2 (\<lambda>m j. jobModelToDomain (rt w) m = Inr (heap w' j)) (page flt rows) js \<and>
    distinct js \<and> (\<forall>j \<in> set js. next_ref w \<le> j)"
proof -
  have law: "find_jobs_law G T" using assms by (simp add: gorm_laws_def)
  note D = law [unfolded find_jobs_law_def, rule_format, OF prod.collapse [symmetric], of c "list_query flt" "storage w"]
  have rank: "job_rank ''created_at DESC'' m \<le> job_rank ''created_at DESC'' m' \<longleftrightarrow> - JM_CreatedAt m \<le> - JM_CreatedAt m'"
    for m m' by (auto simp: job_rank_def less_eq_prod_def)
  have rows: "row_list tbl P (job_rank ''created_at DESC'') ms = row_list tbl P (\<lambda>m. - JM_CreatedAt m) ms"
    for tbl :: "uuid \<rightharpoonup> JobModel" and P ms unfolding row_list_def sorted_map rank ..
  have "wp (PostgresStorage_ListJobs G c flt) (\<lambda>res w'. \<forall>js. res = Inr js \<longrightarrow>
    (\<exists>rows. row_list (jobs_tbl T (storage w)) (filter_matches flt) (\<lambda>m. - JM_CreatedAt m) rows \<and>
    list_all2 (\<lambda>m j. jobModelToDomain (rt w) m = Inr (heap w' j)) (page flt rows) js \<and>
    js = [next_ref w..<next_ref w + length (page flt rows)])) w"
  proof (cases "fst (Find_jobs G c (list_query flt) (storage w))")
    case (Inl e)
    then show ?thesis by (simp add: PostgresStorage_ListJobs_def wp_simps)
  next
    case (Inr ms)
    then have "fst (Find_jobs G c (list_query flt) (storage w)) = Inr ms \<and> q_order (list_query flt) = Some ''created_at DESC'' \<and>
        (\<forall>n. q_limit (list_query flt) = Some n \<or> q_offset (list_query flt) = Some n \<longrightarrow> 0 < sint n)"
      using list_query_parts(1,4) by blast
    from D [THEN conjunct2, THEN conjunct2, THEN spec, THEN spec, THEN mp, OF this]
    obtain rows where "row_list (jobs_tbl T (storage w)) (filter_matches flt) (\<lambda>m. - JM_CreatedAt m) rows"
      "ms = page flt rows"
      unfolding list_query_parts(2,3) rows by (elim exE conjE)
    then show ?thesis unfolding PostgresStorage_ListJobs_def wp_bind wp_db Inr sum.case
      by (intro wp_mono [OF convert_jobs_rule] allI impI exI [of _ rows]) simp
  qed
  from wpD [OF this assms(2)] show ?thesis by (elim allE impE exE) auto
qed

section \<open>Workers\<close>

text \<open>
  C32: Deactivating stale workers touches exactly the stale ones: a worker that is active and whose last
  heartbeat is older than the timeout becomes inactive, every other worker keeps its row, and none is
  added or removed; a worker that reported after the cut-off stays active.
\<close>

theorem postgres_deactivate_exact:
  assumes "gorm_laws G T" and "run_state (PostgresStorage_DeactivateStaleWorkers G c timeout) w = (None, w')"
  shows "let cutoff = time_Add (clock (rt w) (ticks w)) (- timeout) in
    \<forall>k. workers_tbl T (storage w') k = map_option (\<lambda>m. if WM_LastHeartbeat m < cutoff \<and> WM_Status m = ''active''
      then col_worker T (m\<lparr>WM_Status := ''inactive''\<rparr>) else m) (workers_tbl T (storage w) k)"
proof -
  have law: "update_workers_law G T" using assms by (simp add: gorm_laws_def)
  let ?t = "time_Add (clock (rt w) (ticks w)) (- timeout)"
  let ?q = "Where ''last_heartbeat < ? AND status = ?'' [ATime ?t, AStr ''active''] any_row"
  let ?r = "Update_workers G c ?q ''status'' (AStr ''inactive'') (storage w)"
  have eq: "?r = ((fst (fst ?r), snd (fst ?r)), snd ?r)" by simp
  note D = law [unfolded update_workers_law_def, rule_format, OF eq]
  have run: "fst (fst ?r) = None" "storage w' = snd ?r"
    using assms(2) by (auto simp: PostgresStorage_DeactivateStaleWorkers_def now_def db_def)
  have set: "worker_set ''status'' (AStr ''inactive'') m = m\<lparr>WM_Status := ''inactive''\<rparr>" for m
    by (simp add: worker_set_def)
  have cond: "list_all (\<lambda>cond. worker_cond cond m) (q_where ?q) \<longleftrightarrow> WM_LastHeartbeat m < ?t \<and> WM_Status m = ''active''" for m
    by (simp add: Where_def any_row_def)
  show ?thesis using D run unfolding Let_def set cond by simp
qed

section \<open>A database for the examples\<close>

text \<open>The newest row with a key counts.\<close>

record demo_db =
  db_jobs :: "JobModel list"
  db_workers :: "WorkerModel list"

definition job_row :: "demo_db \<Rightarrow> uuid \<rightharpoonup> JobModel" where
  "job_row st k = find (\<lambda>m. JM_ID m = k) (db_jobs st)"

definition worker_row :: "demo_db \<Rightarrow> string \<rightharpoonup> WorkerModel" where
  "worker_row st k = find (\<lambda>m. WM_ID m = k) (db_workers st)"

definition job_rows :: "demo_db \<Rightarrow> gorm_query \<Rightarrow> JobModel list" where
  "job_rows st q = filter (\<lambda>m. list_all (\<lambda>cond. job_cond cond m) (q_where q))
     (map (\<lambda>k. the (job_row st k)) (remdups (map JM_ID (db_jobs st))))"

definition demo_gorm :: "demo_db gorm" where
  "demo_gorm = \<lparr>
     Save_job = (\<lambda>c m st. ((None, 1), st\<lparr>db_jobs := m # db_jobs st\<rparr>)),
     First_job = (\<lambda>c q st. (case job_rows st q of [] \<Rightarrow> Inl (GoErr ''record not found'') | m # _ \<Rightarrow> Inr m, st)),
     Find_jobs = (\<lambda>c q st. (Inr (window q (case q_order q of None \<Rightarrow> job_rows st q
        | Some order \<Rightarrow> sort_key (job_rank order) (job_rows st q))), st)),
     Updates_jobs = (\<lambda>c q cols st. ((None, 0), st)),
     CreateInBatches = (\<lambda>c ms n st. ((None, of_nat (length ms)), st\<lparr>db_jobs := ms @ db_jobs st\<rparr>)),
     Save_history = (\<lambda>c h st. ((None, 1), st)), Find_history = (\<lambda>c q st. (Inr [], st)),
     Save_worker = (\<lambda>c m st. ((None, 1), st\<lparr>db_workers := m # db_workers st\<rparr>)),
     Find_workers = (\<lambda>c q st. (Inr (db_workers st), st)),
     Update_workers = (\<lambda>c q column v st. ((None, 1), st\<lparr>db_workers := map (\<lambda>m.
        if list_all (\<lambda>cond. worker_cond cond m) (q_where q) then worker_set column v m else m) (db_workers st)\<rparr>)),
     AutoMigrate = (\<lambda>st. (None, st)), sql_DB = (\<lambda>st. (None, st)), sql_Close = (\<lambda>st. (None, st)),
     ErrRecordNotFound = GoErr ''record not found''\<rparr>"

definition demo_tables :: "demo_db tables" where
  "demo_tables = \<lparr>jobs_tbl = job_row, workers_tbl = worker_row, col_job = (\<lambda>m. m), col_worker = (\<lambda>m. m)\<rparr>"

lemma demo_tables_simps: "jobs_tbl demo_tables = job_row" "workers_tbl demo_tables = worker_row"
  "col_job demo_tables = (\<lambda>m. m)" "col_worker demo_tables = (\<lambda>m. m)"
  by (simp_all add: demo_tables_def)

lemma job_row_key: "job_row st k = Some m \<Longrightarrow> JM_ID m = k"
  by (auto simp: job_row_def find_Some_iff)

lemma job_rows_set:
  "m \<in> set (job_rows st q) \<longleftrightarrow> job_row st (JM_ID m) = Some m \<and> list_all (\<lambda>cond. job_cond cond m) (q_where q)"
  "distinct (map JM_ID (job_rows st q))"
proof -
  have some: "\<exists>m. job_row st k = Some m \<and> JM_ID m = k" if "k \<in> JM_ID ` set (db_jobs st)" for k
  proof -
    have "job_row st k \<noteq> None" using that by (auto simp: job_row_def find_None_iff)
    then show ?thesis using job_row_key by blast
  qed
  have ids: "map JM_ID (map (\<lambda>k. the (job_row st k)) (remdups (map JM_ID (db_jobs st)))) = remdups (map JM_ID (db_jobs st))"
    using some by (force intro: map_idI)
  show "distinct (map JM_ID (job_rows st q))" unfolding job_rows_def
    by (rule distinct_map_filter) (simp only: ids distinct_remdups)
  have "job_row st (JM_ID m) = Some m \<Longrightarrow> m \<in> set (db_jobs st)" by (auto simp: job_row_def find_Some_iff)
  then show "m \<in> set (job_rows st q) \<longleftrightarrow> job_row st (JM_ID m) = Some m \<and> list_all (\<lambda>cond. job_cond cond m) (q_where q)"
    using some by (force simp: job_rows_def image_iff)
qed

lemma demo_find: "row_list (job_row st) (\<lambda>m. list_all (\<lambda>cond. job_cond cond m) (q_where q)) rank (sort_key rank (job_rows st q))"
  unfolding row_list_def
proof (intro exI [of _ "map JM_ID (sort_key rank (job_rows st q))"] conjI)
  have "mset (map JM_ID (sort_key rank (job_rows st q))) = mset (map JM_ID (job_rows st q))" by simp
  then show "distinct (map JM_ID (sort_key rank (job_rows st q)))" using job_rows_set(2) by (metis mset_eq_imp_distinct_iff)
  show "set (map JM_ID (sort_key rank (job_rows st q))) =
      {k. \<exists>m. job_row st k = Some m \<and> list_all (\<lambda>cond. job_cond cond m) (q_where q)}"
    using job_rows_set(1) job_row_key by (auto simp: image_iff) metis
  show "sort_key rank (job_rows st q) = map (\<lambda>k. the (job_row st k)) (map JM_ID (sort_key rank (job_rows st q)))"
    using job_rows_set(1) by (auto intro: map_idI [symmetric])
  show "sorted (map rank (sort_key rank (job_rows st q)))" by simp
qed

lemma demo_gorm_laws: "gorm_laws demo_gorm demo_tables" "column_laws r demo_tables" "reads_up demo_gorm"
proof -
  have "save_job_law demo_gorm demo_tables"
    unfolding save_job_law_def
  proof (intro allI impI, goal_cases)
    case (1 c m st e n st')
    then show ?case by (auto simp: demo_gorm_def demo_tables_def job_row_def worker_row_def fun_eq_iff
        intro!: exI [of _ "JM_UpdatedAt m"])
  qed
  moreover have "find_jobs_law demo_gorm demo_tables"
    using demo_find by (auto simp: find_jobs_law_def demo_gorm_def demo_tables_def)
  moreover have "first_job_law demo_gorm demo_tables"
  proof -
    have hit: "job_row st k = Some m \<Longrightarrow> list_all (\<lambda>cond. job_cond cond m) (q_where q) \<Longrightarrow> m \<in> set (job_rows st q)" for st k m q
      using job_rows_set(1) job_row_key by metis
    show ?thesis unfolding first_job_law_def
    proof (intro allI impI, goal_cases)
      case (1 c q st res st')
      have res: "st' = st" "res = (case job_rows st q of [] \<Rightarrow> Inl (GoErr ''record not found'') | m # _ \<Rightarrow> Inr m)"
        using 1 by (auto simp: demo_gorm_def)
      show ?case
      proof (cases "job_rows st q")
        case Nil
        then show ?thesis using res hit [of st _ _ q] by (auto simp: demo_tables_def)
      next
        case (Cons m ms)
        then show ?thesis using res job_rows_set(1) [of m st q] by (auto simp: demo_tables_def)
      qed
    qed
  qed
  moreover have "update_workers_law demo_gorm demo_tables"
  proof -
    have set: "WM_ID (worker_set column v m) = WM_ID m" for column v m by (simp add: worker_set_def split: sql_arg.split)
    have "find (\<lambda>m. WM_ID m = k) (map f ms) = map_option f (find (\<lambda>m. WM_ID m = k) ms)" if "\<And>m. WM_ID (f m) = WM_ID m"
      for f k ms using that by (induction ms) auto
    note F = this
    show ?thesis unfolding update_workers_law_def
    proof (intro allI impI, goal_cases)
      case (1 c q column v st e n st')
      let ?f = "\<lambda>m. if list_all (\<lambda>cond. worker_cond cond m) (q_where q) then worker_set column v m else m"
      have "find (\<lambda>m. WM_ID m = k) (map ?f (db_workers st)) = map_option ?f (find (\<lambda>m. WM_ID m = k) (db_workers st))" for k
        by (rule F) (simp add: set)
      then show ?case using 1 unfolding demo_tables_simps
        by (auto simp: demo_gorm_def job_row_def worker_row_def fun_eq_iff)
    qed
  qed
  moreover have "key_law demo_tables" using job_row_key by (auto simp: key_law_def demo_tables_def worker_row_def find_Some_iff)
  ultimately show "gorm_laws demo_gorm demo_tables" by (simp add: gorm_laws_def)
  show "column_laws r demo_tables" by (simp add: column_laws_def demo_tables_def)
  show "reads_up demo_gorm" by (auto simp: reads_up_def demo_gorm_def split: list.splits)
qed

lemma demo_meta_readable: "meta_readable demo_runtime (Job_Metadata demo_job)"
  using demo_readable(1) by (simp add: meta_readable_def readable_def demo_job_def enc_meta_def del: quote.simps)

definition demo_worker :: WorkerModel where
  "demo_worker = \<lparr>WM_ID = ''w1'', WM_Hostname = ''host'', WM_SupportedTypes = ''[]'', WM_MaxConcurrent = 1, WM_CurrentJobs = 0,
     WM_Status = ''active'', WM_LastHeartbeat = 0, WM_RegisteredAt = 0\<rparr>"

definition demo_pg_world :: "(demo_db, unit) world" where
  "demo_pg_world = \<lparr>rt = demo_runtime, ticks = 9000000, uuids = 0, ranges = 0, heap = (\<lambda>_. demo_job), next_ref = 1,
     storage = \<lparr>db_jobs = [], db_workers = [demo_worker]\<rparr>, queue = (), stdout = [], exit_code = None\<rparr>"

lemma demo_model: "\<exists>m. domainToJobModel demo_runtime demo_job = Inr m"
proof -
  have "\<exists>t. enc_retry demo_runtime (Job_RetryPolicy demo_job) = Some t"
    by (simp add: enc_retry_def demo_job_def zero_job_def zero_policy_def omit_time_def)
  then show ?thesis by (auto simp: domainToJobModel_def)
qed

lemma demo_pg_save: "\<exists>w1. run_state (PostgresStorage_SaveJob demo_gorm \<lparr>deadline = None\<rparr> 0) demo_pg_world = (None, w1)"
proof -
  obtain m where "domainToJobModel demo_runtime demo_job = Inr m" using demo_model by blast
  then show ?thesis by (simp add: PostgresStorage_SaveJob_def demo_pg_world_def read_job_def db_def demo_gorm_def)
qed

theorem postgres_model_roundtrip_witness:
  "\<exists>m. domainToJobModel demo_runtime demo_job = Inr m \<and> jobModelToDomain demo_runtime m = Inr (norm_stored demo_job)"
  using demo_model postgres_model_roundtrip [OF demo_codec_laws demo_meta_readable] by blast

theorem postgres_save_get_witness:
  "\<exists>w1 w2 j'. run_state (PostgresStorage_SaveJob demo_gorm \<lparr>deadline = None\<rparr> 0) demo_pg_world = (None, w1) \<and>
     run_state (PostgresStorage_GetJob demo_gorm \<lparr>deadline = None\<rparr> 7) w1 = (Inr j', w2) \<and> same_decisions demo_job (heap w2 j')"
proof -
  obtain w1 where w1: "run_state (PostgresStorage_SaveJob demo_gorm \<lparr>deadline = None\<rparr> 0) demo_pg_world = (None, w1)"
    using demo_pg_save by blast
  have world: "rt demo_pg_world = demo_runtime" "heap demo_pg_world 0 = demo_job" "Job_ID demo_job = 7"
    by (simp_all add: demo_pg_world_def demo_job_def)
  obtain res w2 where get: "run_state (PostgresStorage_GetJob demo_gorm \<lparr>deadline = None\<rparr> (Job_ID (heap demo_pg_world 0))) w1 = (res, w2)"
    by fastforce
  have "column_laws (rt demo_pg_world) demo_tables" "codec_laws (rt demo_pg_world)"
    "meta_readable (rt demo_pg_world) (Job_Metadata (heap demo_pg_world 0))"
    using demo_gorm_laws(2) demo_codec_laws demo_meta_readable by (simp_all add: world)
  from postgres_save_get [OF demo_gorm_laws(1) this(1,2) demo_gorm_laws(3) this(3) w1 get] show ?thesis
    using w1 get world by auto
qed

theorem postgres_list_page_witness:
  "\<exists>js w' rows. run_state (PostgresStorage_ListJobs demo_gorm \<lparr>deadline = None\<rparr>
       \<lparr>Filter_Status = Some ''pending'', Filter_JobType = None, Filter_Priority = None, Filter_Limit = 10, Filter_Offset = 0\<rparr>)
       demo_pg_world = (Inr js, w') \<and>
     row_list (job_row (storage demo_pg_world)) (\<lambda>m. JM_Status m = ''pending'') (\<lambda>m. - JM_CreatedAt m) rows \<and> length js = length rows"
proof -
  let ?flt = "\<lparr>Filter_Status = Some ''pending'', Filter_JobType = None, Filter_Priority = None, Filter_Limit = 10, Filter_Offset = 0\<rparr> :: JobFilter"
  have run: "run_state (PostgresStorage_ListJobs demo_gorm \<lparr>deadline = None\<rparr> ?flt) demo_pg_world = (Inr [], demo_pg_world)"
    by (simp add: PostgresStorage_ListJobs_def db_def demo_gorm_def job_rows_def demo_pg_world_def window_def list_query_def
        Let_def Where_def Order_def Limit_def any_row_def word_sless_alt)
  have jobs: "jobs_tbl demo_tables = job_row" by (simp add: demo_tables_def)
  from postgres_list_page [OF demo_gorm_laws(1) run, unfolded jobs] obtain rows where
    r: "row_list (job_row (storage demo_pg_world)) (filter_matches ?flt) (\<lambda>m. - JM_CreatedAt m) rows" by blast
  have "filter_matches ?flt = (\<lambda>m. JM_Status m = ''pending'')" by (auto simp: filter_matches_def)
  moreover have "rows = []" using r by (auto simp: row_list_def job_row_def demo_pg_world_def)
  ultimately show ?thesis using r run by (intro exI [of _ "[]"] exI [of _ demo_pg_world]) auto
qed

theorem postgres_deactivate_exact_witness:
  "\<exists>w'. run_state (PostgresStorage_DeactivateStaleWorkers demo_gorm \<lparr>deadline = None\<rparr> Second) demo_pg_world = (None, w') \<and>
     worker_row (storage w') ''w1'' = Some (demo_worker\<lparr>WM_Status := ''inactive''\<rparr>)"
proof -
  obtain w' where run: "run_state (PostgresStorage_DeactivateStaleWorkers demo_gorm \<lparr>deadline = None\<rparr> Second) demo_pg_world = (None, w')"
    by (simp add: PostgresStorage_DeactivateStaleWorkers_def now_def db_def demo_gorm_def)
  have "worker_row (storage demo_pg_world) ''w1'' = Some demo_worker"
    by (simp add: worker_row_def demo_pg_world_def demo_worker_def)
  moreover have "clock (rt demo_pg_world) (ticks demo_pg_world) = 9000000000" "sint (- Second) = -1000000000"
    by (simp_all add: demo_pg_world_def demo_runtime_def Second_def)
  ultimately show ?thesis using run postgres_deactivate_exact [OF demo_gorm_laws(1) run]
    by (simp add: Let_def demo_tables_def time_Add_def demo_worker_def)
qed

end
