(* ===== verification/Handlers.thy ===== *)
theory Handlers
  imports Codec_Laws Services
begin

text \<open>
  \<^verbatim>\<open>pkg/handlers/email.go\<close> and \<^verbatim>\<open>payments.go\<close>: the handlers that both programs register. A handler reads
  its payload from the job's JSON, validates it and calls its service.
\<close>

section \<open>Email\<close>

record EmailPayload =
  Email_To :: string
  Email_Subject :: string
  Email_Body :: string
  Email_From :: string

definition zero_email :: EmailPayload where
  "zero_email = \<lparr>Email_To = [], Email_Subject = [], Email_Body = [], Email_From = []\<rparr>"

definition email_fields :: "EmailPayload field list" where
  "email_fields =
     [fld ''to'' dec_string Email_To (\<lambda>x p. p\<lparr>Email_To := x\<rparr>),
      fld ''subject'' dec_string Email_Subject (\<lambda>x p. p\<lparr>Email_Subject := x\<rparr>),
      fld ''body'' dec_string Email_Body (\<lambda>x p. p\<lparr>Email_Body := x\<rparr>),
      fld ''from'' dec_string Email_From (\<lambda>x p. p\<lparr>Email_From := x\<rparr>)]"

type_synonym ('st, 'q) EmailService =
  "ctx \<Rightarrow> string \<Rightarrow> string \<Rightarrow> string \<Rightarrow> string \<Rightarrow> ('st, 'q, go_error option) prog"

definition EmailHandler_Handle :: "('st, 'q) EmailService \<Rightarrow> ctx \<Rightarrow> job_ref \<Rightarrow> ('st, 'q, go_error option) prog" where
  "EmailHandler_Handle emailService c j = do {
     job \<leftarrow> read_job j;
     (case unmarshal email_fields (Job_Payload job) zero_email of
        None \<Rightarrow> ret (Some (Wrapped ''invalid email payload: '' json_error))
      | Some payload \<Rightarrow>
          if Email_To payload = [] \<or> Email_Subject payload = []
          then ret (Some (GoErr ''missing required email fields''))
          else emailService c (Email_To payload) (Email_Subject payload) (Email_Body payload) (Email_From payload)) }"

definition NewEmailHandler :: "('st, 'q) EmailService \<Rightarrow> ('st, 'q) JobHandler" where
  "NewEmailHandler emailService = \<lparr>Handle = EmailHandler_Handle emailService, GetType = JobTypeEmail\<rparr>"

section \<open>Payments\<close>

record PaymentPayload =
  Payment_ID :: string
  Payment_Amount :: rat
  Payment_Currency :: string
  Payment_UserID :: string

definition zero_payment :: PaymentPayload where
  "zero_payment = \<lparr>Payment_ID = [], Payment_Amount = 0, Payment_Currency = [], Payment_UserID = []\<rparr>"

definition payment_fields :: "runtime \<Rightarrow> PaymentPayload field list" where
  "payment_fields r =
     [fld ''payment_id'' dec_string Payment_ID (\<lambda>x p. p\<lparr>Payment_ID := x\<rparr>),
      fld ''amount'' (dec_float r) Payment_Amount (\<lambda>x p. p\<lparr>Payment_Amount := x\<rparr>),
      fld ''currency'' dec_string Payment_Currency (\<lambda>x p. p\<lparr>Payment_Currency := x\<rparr>),
      fld ''user_id'' dec_string Payment_UserID (\<lambda>x p. p\<lparr>Payment_UserID := x\<rparr>)]"

type_synonym ('st, 'q) PaymentService =
  "ctx \<Rightarrow> string \<Rightarrow> rat \<Rightarrow> string \<Rightarrow> string \<Rightarrow> ('st, 'q, go_error option) prog"

definition PaymentHandler_Handle :: "('st, 'q) PaymentService \<Rightarrow> ctx \<Rightarrow> job_ref \<Rightarrow> ('st, 'q, go_error option) prog" where
  "PaymentHandler_Handle paymentService c j = do {
     job \<leftarrow> read_job j;
     r \<leftarrow> gets rt;
     (case unmarshal (payment_fields r) (Job_Payload job) zero_payment of
        None \<Rightarrow> ret (Some (Wrapped ''invalid payment payload: '' json_error))
      | Some payload \<Rightarrow>
          if Payment_ID payload = [] \<or> Payment_Amount payload \<le> 0 \<or> Payment_UserID payload = []
          then ret (Some (GoErr ''invalid payment data''))
          else paymentService c (Payment_ID payload) (Payment_Amount payload) (Payment_Currency payload)
            (Payment_UserID payload)) }"

definition NewPaymentHandler :: "('st, 'q) PaymentService \<Rightarrow> ('st, 'q) JobHandler" where
  "NewPaymentHandler paymentService = \<lparr>Handle = PaymentHandler_Handle paymentService, GetType = JobTypePayment\<rparr>"

section \<open>The services of the programs\<close>

text \<open>
  \<open>Intn\<close> and \<open>Float32\<close> are what \<^verbatim>\<open>math/rand\<close> returns in a state. The thresholds are the float32 values nearest to 0.1 and 0.08.
\<close>

definition MockEmailService_SendEmail ::
  "(go_int \<Rightarrow> ('st, 'q) world \<Rightarrow> go_int) \<Rightarrow> (('st, 'q) world \<Rightarrow> rat) \<Rightarrow> ('st, 'q) EmailService" where
  "MockEmailService_SendEmail Intn Float32 c recipient subject body sender = do {
     n \<leftarrow> gets (Intn 3);
     Sleep ((n + 1) * Second);
     f \<leftarrow> gets Float32;
     (if f < 13421773 / 134217728 then ret (Some (GoErr ''SMTP server timeout''))
      else do {
        printf ''[EMAIL_SERVICE] Email sent to %s: %s'' [FmtStr recipient, FmtStr subject];
        ret None }) }"

definition MockPaymentService_ProcessPayment ::
  "(go_int \<Rightarrow> ('st, 'q) world \<Rightarrow> go_int) \<Rightarrow> (('st, 'q) world \<Rightarrow> rat) \<Rightarrow> ('st, 'q) PaymentService" where
  "MockPaymentService_ProcessPayment Intn Float32 c paymentID amount currency userID = do {
     n \<leftarrow> gets (Intn 5);
     Sleep ((n + 2) * Second);
     f \<leftarrow> gets Float32;
     (if f < 10737418 / 134217728 then ret (Some (GoErr ''insufficient funds''))
      else do {
        printf ''[PAYMENT_SERVICE] Payment %s processed: %.2f %s for user %s''
          [FmtStr paymentID, FmtFloat amount, FmtStr currency, FmtStr userID];
        ret None }) }"

section \<open>Properties\<close>

text \<open>A payload as a client writes it.\<close>

definition enc_payment :: "runtime \<Rightarrow> PaymentPayload \<Rightarrow> jtext" where
  "enc_payment r p = TObj [(''payment_id'', enc_string (Payment_ID p)), (''amount'', TNum (float64_Text r (Payment_Amount p))),
     (''currency'', enc_string (Payment_Currency p)), (''user_id'', enc_string (Payment_UserID p))]"

lemma plain_payment [simp]: "plain ''payment_id''" "plain ''amount''" "plain ''currency''" "plain ''user_id''"
  by (simp_all add: plain_def)

lemma find_payment [simp]:
  "find_field (payment_fields r) ''payment_id'' = Some (\<lambda>t p. map_option (\<lambda>x. p\<lparr>Payment_ID := x\<rparr>) (dec_string t (Payment_ID p)))"
  "find_field (payment_fields r) ''amount'' = Some (\<lambda>t p. map_option (\<lambda>x. p\<lparr>Payment_Amount := x\<rparr>) (dec_float r t (Payment_Amount p)))"
  "find_field (payment_fields r) ''currency'' = Some (\<lambda>t p. map_option (\<lambda>x. p\<lparr>Payment_Currency := x\<rparr>) (dec_string t (Payment_Currency p)))"
  "find_field (payment_fields r) ''user_id'' = Some (\<lambda>t p. map_option (\<lambda>x. p\<lparr>Payment_UserID := x\<rparr>) (dec_string t (Payment_UserID p)))"
  by (simp_all add: find_field_def payment_fields_def fld_def)

lemma unmarshal_payment:
  assumes "numbers_ok r (JNum (Payment_Amount p))"
  shows "unmarshal (payment_fields r) (render (enc_payment r p)) zero_payment =
    Some (p\<lparr>Payment_ID := utf8_fix (Payment_ID p), Payment_Currency := utf8_fix (Payment_Currency p),
      Payment_UserID := utf8_fix (Payment_UserID p)\<rparr>)"
proof -
  have "well_spelled (enc_payment r p)" unfolding enc_payment_def using assms by (intro spelled_members) simp
  moreover have "nesting (enc_payment r p) \<le> 10000" by (simp add: enc_payment_def)
  ultimately have "json_parse (render (enc_payment r p)) = Some (enc_payment r p)" by (rule json_parse_render)
  moreover have "dec_float r (TNum (float64_Text r (Payment_Amount p))) x = Some (Payment_Amount p)" for x
    using assms by (simp add: dec_float_def)
  ultimately show ?thesis
    by (simp add: unmarshal_def dec_struct_def enc_payment_def dec_member_hit zero_payment_def)
qed

lemma payment_guard:
  assumes "\<And>pid amount cur uid. pid \<noteq> [] \<Longrightarrow> 0 < amount \<Longrightarrow> uid \<noteq> [] \<Longrightarrow> wp (svc c pid amount cur uid) Q w"
    and "\<And>e. Q (Some e) w"
  shows "wp (PaymentHandler_Handle svc c j) Q w"
  using assms by (simp add: PaymentHandler_Handle_def wp_simps split: option.split)

lemma email_guard:
  assumes "\<And>recipient subject body sender. recipient \<noteq> [] \<Longrightarrow> subject \<noteq> [] \<Longrightarrow> wp (svc c recipient subject body sender) Q w"
    and "\<And>e. Q (Some e) w"
  shows "wp (EmailHandler_Handle svc c j) Q w"
  using assms by (simp add: EmailHandler_Handle_def wp_simps split: option.split)

text \<open>
  C28: A payment is made as it was requested: for the payload of a request with an identifier, a positive
  amount and a user, running the handler is calling the service once with exactly these values, strings
  repaired to UTF-8.
\<close>

theorem payment_handler_delivers:
  assumes "numbers_ok (rt w) (JNum (Payment_Amount p))" and "Payment_ID p \<noteq> []" and "0 < Payment_Amount p" and "Payment_UserID p \<noteq> []"
    and "Job_Payload (heap w j) = render (enc_payment (rt w) p)"
  shows "run_state (PaymentHandler_Handle svc c j) w = run_state (svc c (utf8_fix (Payment_ID p)) (Payment_Amount p)
      (utf8_fix (Payment_Currency p)) (utf8_fix (Payment_UserID p))) w"
proof -
  have ne: "s \<noteq> [] \<Longrightarrow> utf8_fix s \<noteq> []" for s by (cases s) (auto simp: Let_def replacement_def)
  show ?thesis using unmarshal_payment [OF assms(1)] assms(2-5) ne
    by (simp add: PaymentHandler_Handle_def read_job_def)
qed

text \<open>
  C22: No handler acts on bad data. Whatever bytes the payload of a job holds, the email service is called
  only with a recipient and a subject and the payment service only with an identifier, a positive amount
  and a user; otherwise the handler returns an error and nothing has changed. So what holds after every such call, and
  before it for an error, holds after the handler.
\<close>

theorem handlers_guard:
  assumes "\<And>recipient subject body sender. recipient \<noteq> [] \<Longrightarrow> subject \<noteq> [] \<Longrightarrow> wp (email c recipient subject body sender) Q w"
    and "\<And>pid amount cur uid. pid \<noteq> [] \<Longrightarrow> 0 < amount \<Longrightarrow> uid \<noteq> [] \<Longrightarrow> wp (payment c pid amount cur uid) Q w"
    and "\<And>e. Q (Some e) w"
  shows "wp (Handle (NewEmailHandler email) c j) Q w \<and> wp (Handle (NewPaymentHandler payment) c j) Q w"
  unfolding NewEmailHandler_def NewPaymentHandler_def JobHandler.simps
  by (intro conjI email_guard payment_guard assms)

section \<open>Examples\<close>

text \<open>A service that prints the amount it was asked to charge, and one that prints the recipient.\<close>

definition charging :: "(unit, unit) PaymentService" where
  "charging c pid amount cur uid = do { printf ''charge'' [FmtFloat amount]; ret None }"

definition mailing :: "(unit, unit) EmailService" where
  "mailing c recipient subject body sender = do { printf ''mail'' [FmtStr recipient]; ret None }"

definition demo_payment :: PaymentPayload where
  "demo_payment = \<lparr>Payment_ID = ''p1'', Payment_Amount = 12, Payment_Currency = ''EUR'', Payment_UserID = ''u1''\<rparr>"

definition demo_payment_world :: "(unit, unit) world" where
  "demo_payment_world = \<lparr>rt = demo_runtime, ticks = 0, uuids = 0, ranges = 0,
     heap = (\<lambda>_. zero_job\<lparr>Job_Payload := render (enc_payment demo_runtime demo_payment)\<rparr>), next_ref = 1,
     storage = (), queue = (), stdout = [], exit_code = None\<rparr>"

theorem payment_handler_delivers_witness:
  "stdout (snd (run_state (PaymentHandler_Handle charging \<lparr>deadline = None\<rparr> 0) demo_payment_world)) = [(''charge'', [FmtFloat 12])]"
proof -
  have "numbers_ok (rt demo_payment_world) (JNum (Payment_Amount demo_payment))"
    by (simp add: demo_payment_world_def demo_runtime_def demo_payment_def lex_number_show_int demo_parse_show)
  moreover have "Job_Payload (heap demo_payment_world 0) = render (enc_payment (rt demo_payment_world) demo_payment)"
    by (simp add: demo_payment_world_def)
  ultimately have "run_state (PaymentHandler_Handle charging \<lparr>deadline = None\<rparr> 0) demo_payment_world =
      run_state (charging \<lparr>deadline = None\<rparr> (utf8_fix (Payment_ID demo_payment)) (Payment_Amount demo_payment)
        (utf8_fix (Payment_Currency demo_payment)) (utf8_fix (Payment_UserID demo_payment))) demo_payment_world"
    by (intro payment_handler_delivers) (simp_all add: demo_payment_def)
  then show ?thesis by (simp add: charging_def printf_def demo_payment_def demo_payment_world_def)
qed

theorem handlers_guard_witness:
  "wp (Handle (NewEmailHandler mailing) \<lparr>deadline = None\<rparr> 0) (\<lambda>r w. stdout w \<noteq> [(''charge'', [FmtFloat 0])]) demo_payment_world \<and>
   wp (Handle (NewPaymentHandler charging) \<lparr>deadline = None\<rparr> 0) (\<lambda>r w. stdout w \<noteq> [(''charge'', [FmtFloat 0])]) demo_payment_world"
  by (rule handlers_guard) (simp_all add: mailing_def charging_def wp_simps demo_payment_world_def)

end
