(* ===== verification/Worker_Runner.thy ===== *)
theory Worker_Runner
  imports System
begin

text \<open>
  \<^verbatim>\<open>internal/adapters/primary/worker/runner.go\<close>: a worker process registers itself, then runs one
  goroutine that sends heartbeats and \<^verbatim>\<open>maxConcurrent\<close> goroutines that process jobs, until its context is
  cancelled. The goroutines are modelled twice: one processing goroutine as a loop, for what it does to
  the queue, and all of them as a step relation, for how the process stops.
\<close>

section \<open>The runner\<close>

record ('st, 'q) WorkerRunner =
  Run_processor :: "('st, 'q) ProcessorService"
  Run_storage :: "('st, 'q) StoragePort"
  Run_logger :: "('st, 'q) LoggerPort"
  Run_workerID :: string
  Run_hostname :: string
  Run_maxConcurrent :: go_int
  Run_priorities :: "Priority list"

definition NewWorkerRunner where
  "NewWorkerRunner p st lg workerID hostname maxConcurrent =
     \<lparr>Run_processor = p, Run_storage = st, Run_logger = lg, Run_workerID = workerID,
      Run_hostname = hostname, Run_maxConcurrent = maxConcurrent,
      Run_priorities = [PriorityCritical, PriorityHigh, PriorityMedium, PriorityLow]\<rparr>"

text \<open>The part of \<^verbatim>\<open>Start\<close> before the goroutines are started.\<close>

definition register :: "('st, 'q) WorkerRunner \<Rightarrow> ctx \<Rightarrow> ('st, 'q, go_error option) prog" where
  "register R c = do {
     t1 \<leftarrow> now;
     t2 \<leftarrow> now;
     err \<leftarrow> RegisterWorker (Run_storage R) c \<lparr>Worker_ID = Run_workerID R, Worker_Hostname = Run_hostname R,
       Worker_SupportedTypes = [JobTypeEmail, JobTypePayment, JobTypeDataExport],
       Worker_MaxConcurrent = Run_maxConcurrent R, Worker_CurrentJobs = 0, Worker_Status = ''active'',
       Worker_LastHeartbeat = t1, Worker_RegisteredAt = t2\<rparr>;
     (case err of
        Some e \<Rightarrow> ret (Some (Wrapped ''failed to register worker: '' e))
      | None \<Rightarrow> do {
          Log_Info (Run_logger R) c ''Worker started''
            [Field_String ''worker_id'' (Run_workerID R), Field_String ''hostname'' (Run_hostname R),
             Field_Int ''max_concurrent'' (Run_maxConcurrent R)];
          ret None }) }"

text \<open>The names of the processing goroutines: \<^verbatim>\<open>fmt.Sprintf("%s-%d", w.workerID, workerNum)\<close>.\<close>

definition instances :: "('st, 'q) WorkerRunner \<Rightarrow> string list" where
  "instances R = map (\<lambda>i. Run_workerID R @ ''-'' @ show_int (int i)) [0..<nat (sint (Run_maxConcurrent R))]"

text \<open>One tick of \<^verbatim>\<open>sendHeartbeat\<close>.\<close>

definition heartbeat :: "('st, 'q) WorkerRunner \<Rightarrow> ctx \<Rightarrow> ('st, 'q, unit) prog" where
  "heartbeat R c = do {
     err \<leftarrow> UpdateWorkerHeartbeat (Run_storage R) c (Run_workerID R);
     (case err of
        Some e \<Rightarrow> Log_Error (Run_logger R) c ''Failed to send heartbeat''
          [Field_String ''worker_id'' (Run_workerID R), Field_String ''error'' (Error e)]
      | None \<Rightarrow> ret ()) }"

text \<open>One round of \<^verbatim>\<open>processJobs\<close>, and \<open>n\<close> rounds of it, after which the context is found cancelled.\<close>

definition process_round :: "('st, 'q) WorkerRunner \<Rightarrow> ctx \<Rightarrow> string \<Rightarrow> ('st, 'q, unit) prog" where
  "process_round R c workerInstanceID = do {
     err \<leftarrow> ProcessNextJob (Run_processor R) c workerInstanceID (Run_priorities R);
     (if err \<noteq> None then Sleep (1 * Second) else ret ()) }"

fun processJobs :: "('st, 'q) WorkerRunner \<Rightarrow> ctx \<Rightarrow> string \<Rightarrow> nat \<Rightarrow> ('st, 'q, unit) prog" where
  "processJobs R c workerInstanceID 0 = ret ()"
| "processJobs R c workerInstanceID (Suc n) = do {
     process_round R c workerInstanceID;
     processJobs R c workerInstanceID n }"

lemma distinct_instances: "distinct (instances R)"
proof -
  have eq: "show_int (int x) = show_int (int y) \<longleftrightarrow> x = y" for x y
    by (metis demo_parse_show of_nat_eq_iff option.inject)
  have "inj_on (\<lambda>i. Run_workerID R @ ''-'' @ show_int (int i)) A" for A by (rule inj_onI) (simp add: eq)
  then show ?thesis unfolding instances_def by (simp add: distinct_map)
qed

section \<open>All goroutines\<close>

text \<open>
  The main goroutine waits for the cancellation, logs it and waits for the others. A processing goroutine
  looks at the context between two rounds; the context may be cancelled during a round. The heartbeat
  goroutine selects among the cancellation and a tick, in any order when both are ready.
\<close>

datatype phase = Serving | Stopping | Returned

record ('st, 'q) running =
  run_world :: "('st, 'q) world"
  cancelled :: bool
  main_at :: phase
  beating :: bool
  idle :: "string list"
  busy :: "string list"

inductive runner_step :: "('st, 'q) WorkerRunner \<Rightarrow> ctx \<Rightarrow> ('st, 'q) running \<Rightarrow> ('st, 'q) running \<Rightarrow> bool" for R c where
  cancel: "\<not> cancelled s \<Longrightarrow> runner_step R c s (s\<lparr>cancelled := True\<rparr>)"
| beat: "beating s \<Longrightarrow> run_state (heartbeat R c) (run_world s) = (u, w') \<Longrightarrow> runner_step R c s (s\<lparr>run_world := w'\<rparr>)"
| stop_beating: "beating s \<Longrightarrow> cancelled s \<Longrightarrow> runner_step R c s (s\<lparr>beating := False\<rparr>)"
| begin_round: "idle s = pre @ i # post \<Longrightarrow> \<not> cancelled s \<Longrightarrow>
    runner_step R c s (s\<lparr>idle := pre @ post, busy := i # busy s\<rparr>)"
| end_round: "busy s = pre @ i # post \<Longrightarrow> run_state (process_round R c i) (run_world s) = (u, w') \<Longrightarrow>
    runner_step R c s (s\<lparr>run_world := w', busy := pre @ post, idle := i # idle s\<rparr>)"
| stop: "idle s = pre @ i # post \<Longrightarrow> cancelled s \<Longrightarrow> runner_step R c s (s\<lparr>idle := pre @ post\<rparr>)"
| log_stop: "main_at s = Serving \<Longrightarrow> cancelled s \<Longrightarrow>
    run_state (Log_Info (Run_logger R) c ''Worker shutting down'' [Field_String ''worker_id'' (Run_workerID R)])
      (run_world s) = (u, w') \<Longrightarrow>
    runner_step R c s (s\<lparr>run_world := w', main_at := Stopping\<rparr>)"
| return_nil: "main_at s = Stopping \<Longrightarrow> \<not> beating s \<Longrightarrow> idle s = [] \<Longrightarrow> busy s = [] \<Longrightarrow>
    runner_step R c s (s\<lparr>main_at := Returned\<rparr>)"

inductive_cases runner_stepE: "runner_step R c s s'"

text \<open>The state in which \<^verbatim>\<open>Start\<close> has started all goroutines.\<close>

definition started :: "('st, 'q) WorkerRunner \<Rightarrow> ('st, 'q) world \<Rightarrow> ('st, 'q) running" where
  "started R w = \<lparr>run_world = w, cancelled = False, main_at = Serving, beating = True, idle = instances R, busy = []\<rparr>"

inductive runs_to for R c s where
  runs_refl: "runs_to R c s s"
| runs_step: "runs_to R c s s1 \<Longrightarrow> runner_step R c s1 s2 \<Longrightarrow> runs_to R c s s2"

text \<open>How many steps other than heartbeats are left once the context is cancelled.\<close>

definition steps_left :: "('st, 'q) running \<Rightarrow> nat" where
  "steps_left s = 2 * length (busy s) + length (idle s) + (if beating s then 1 else 0) +
     (case main_at s of Serving \<Rightarrow> 2 | Stopping \<Rightarrow> 1 | Returned \<Rightarrow> 0)"

definition runner_inv :: "('st, 'q) WorkerRunner \<Rightarrow> ('st, 'q) running \<Rightarrow> bool" where
  "runner_inv R s \<longleftrightarrow> (main_at s \<noteq> Serving \<longrightarrow> cancelled s) \<and>
     (main_at s = Returned \<longrightarrow> \<not> beating s \<and> idle s = [] \<and> busy s = []) \<and>
     (\<not> cancelled s \<longrightarrow> beating s \<and> mset (idle s) + mset (busy s) = mset (instances R)) \<and>
     mset (idle s) + mset (busy s) \<subseteq># mset (instances R)"

lemma add_mset_subseteqD: "add_mset x A \<subseteq># B \<Longrightarrow> A \<subseteq># B"
  by (meson mset_subset_eq_insertD subset_mset.less_imp_le)

lemma runner_inv_step: "runner_step R c s s' \<Longrightarrow> runner_inv R s \<Longrightarrow> runner_inv R s'"
  by (induction rule: runner_step.induct)
    (auto simp: runner_inv_def add_ac dest: add_mset_subseteqD)

lemma runs_inv: "runs_to R c (started R w) s \<Longrightarrow> runner_inv R s"
proof (induction rule: runs_to.induct)
  case runs_refl
  then show ?case by (simp add: runner_inv_def started_def)
qed (rule runner_inv_step)

lemma step_cancelled: "runner_step R c s s' \<Longrightarrow> cancelled s \<Longrightarrow> cancelled s'"
  by (induction rule: runner_step.induct) auto

lemma step_enabled:
  assumes "cancelled s" and "runner_inv R s" and "main_at s \<noteq> Returned"
  shows "\<exists>s'. runner_step R c s s' \<and> steps_left s' < steps_left s"
proof -
  consider "busy s \<noteq> []" | "idle s \<noteq> []" | "beating s" | "main_at s = Serving"
    | "busy s = []" "idle s = []" "\<not> beating s" "main_at s = Stopping"
    using assms(3) by (cases "main_at s") auto
  then show ?thesis
  proof cases
    case 1
    then obtain i b where b: "busy s = i # b" by (cases "busy s") auto
    obtain u w' where "run_state (process_round R c i) (run_world s) = (u, w')" by (metis surj_pair)
    from end_round [of s "[]", OF _ this] b show ?thesis by (fastforce simp: steps_left_def)
  next
    case 2
    then obtain i b where b: "idle s = i # b" by (cases "idle s") auto
    from stop [of s "[]" i b R c] b assms(1) show ?thesis by (fastforce simp: steps_left_def)
  next
    case 3
    from stop_beating [OF 3 assms(1), of R c] show ?thesis using 3 by (fastforce simp: steps_left_def)
  next
    case 4
    obtain u w' where "run_state (Log_Info (Run_logger R) c ''Worker shutting down'' [Field_String ''worker_id'' (Run_workerID R)])
      (run_world s) = (u, w')" by (metis surj_pair)
    from log_stop [OF 4 assms(1) this] show ?thesis using 4 by (fastforce simp: steps_left_def)
  next
    case 5
    from return_nil [OF 5(4,3,2,1), of R c] show ?thesis using 5 by (fastforce simp: steps_left_def)
  qed
qed

lemma runs_trans: "runs_to R c s1 s2 \<Longrightarrow> runs_to R c s s1 \<Longrightarrow> runs_to R c s s2"
  by (induction rule: runs_to.induct) (auto intro: runs_to.intros)

text \<open>Without the heartbeat goroutine every step after the cancellation leaves less to do.\<close>

lemma quiet_step_left:
  assumes "runner_step R c s s'" and "cancelled s" and "\<not> beating s"
  shows "steps_left s' < steps_left s \<and> cancelled s' \<and> \<not> beating s'"
  using assms by (induction rule: runner_step.induct) (auto simp: steps_left_def)

lemma no_infinite_descent:
  assumes "\<And>i. g (Suc i) < (g i :: nat)"
  shows False
proof -
  have "g i + i \<le> g 0" for i
  proof (induction i)
    case (Suc i)
    then show ?case using assms [of i] by linarith
  qed simp
  from this [of "Suc (g 0)"] show False by simp
qed

lemma no_infinite_shutdown:
  assumes "\<And>i. runner_step R c (f i) (f (Suc i))" and "cancelled (f 0)" and "\<not> beating (f n)"
  shows False
proof -
  have canc: "cancelled (f i)" for i
    by (induction i) (use assms(2) step_cancelled [OF assms(1)] in auto)
  have "\<not> beating (f (n + i))" for i
    by (induction i) (use assms(3) quiet_step_left [OF assms(1) canc] in auto)
  then have "steps_left (f (n + Suc i)) < steps_left (f (n + i))" for i
    using quiet_step_left [OF assms(1) canc] by simp
  then show False by (rule no_infinite_descent)
qed

lemma runs_cancelled: "runs_to R c s s' \<Longrightarrow> cancelled s \<Longrightarrow> cancelled s'"
  by (induction rule: runs_to.induct) (auto dest: step_cancelled)

lemma returned_stuck: "runner_inv R s \<Longrightarrow> main_at s = Returned \<Longrightarrow> \<not> runner_step R c s s'"
  unfolding runner_inv_def by (auto elim!: runner_stepE)


section \<open>Working through the queue\<close>

text \<open>A runner on the in-memory adapters.\<close>

definition memory_runner :: "(MemoryStorage, MemoryQueue) JobHandler list \<Rightarrow> string \<Rightarrow> go_int \<Rightarrow> (MemoryStorage, MemoryQueue) WorkerRunner" where
  "memory_runner hs workerID n = NewWorkerRunner (memory_processor hs) memory_storage MockLogger workerID ''localhost'' n"

abbreviation lanes :: "mem_world \<Rightarrow> Priority \<Rightarrow> uuid list" where
  "lanes w \<equiv> map_get_list (queues (queue w))"

definition backlog_size :: "mem_world \<Rightarrow> nat" where
  "backlog_size w = sum_list (map (\<lambda>p. length (lanes w p)) named_priorities)"

lemma backlog_size_0: "backlog_size w = 0 \<longleftrightarrow> (\<forall>p \<in> set named_priorities. lanes w p = [])"
  by (auto simp: backlog_size_def)

lemma backlog_size_pop:
  assumes "p \<in> set named_priorities" and "lanes w p = jid # rest" and "lanes w' = (lanes w)(p := rest)"
  shows "Suc (backlog_size w') = backlog_size w"
  using assms distinct_named_priorities unfolding backlog_size_def
  by (auto simp: named_priorities_def priority_consts)

lemma round_steps:
  assumes "reachable hs ok (w, fl)" and "quiet_handlers hs"
    and "run_state (ProcessNextJob (memory_processor hs) c i named_priorities) w = (r, w')"
  shows "reachable hs ok (w', fl) \<and> (backlog_size w = 0 \<and> w' = w \<or> Suc (backlog_size w') = backlog_size w)"
proof -
  have inv: "sys_inv (w, fl)" using reachable_inv [OF assms(1,2)] .
  then have wf: "mq_wf w" by (simp add: sys_inv_def)
  show ?thesis
  proof (cases rule: dequeue_cases [OF wf, of named_priorities])
    case 1
    then have "w' = w" using ProcessNextJob_none [OF wf 1(1)] assms(3) by simp
    then show ?thesis using assms(1) 1(1) by (simp add: backlog_size_0)
  next
    case (2 pre p post jid rest j w1)
    have deq: "run_state (Dequeue memory_queue c named_priorities) w = (Inr (Some j), w1)"
      using 2(8) by (simp add: memory_queue_def MemoryQueue_Dequeue_def)
    have work: "run_state (ProcessJob (memory_processor hs) c j i) w1 = (r, w')"
      using assms(3) 2(8) by (simp add: ProcessNextJob_def MemoryQueue_Dequeue_def)
    have r1: "reachable hs ok (w1, j # fl)" using reachable.step [OF assms(1) take [OF deq]] .
    have "sys_step hs ok (w1, j # fl) (w', fl)" using sys_step.work [OF work, of ok "[]" fl] by simp
    then have "reachable hs ok (w', fl)" using reachable.step [OF r1] by blast
    have w1: "heap w1 = heap w" "next_ref w1 = next_ref w" "storage w1 = storage w" "lanes w1 = (lanes w)(p := rest)"
      using 2(7) by (simp_all add: fun_eq_iff)
    have "mq_wf w1" using reachable_inv [OF r1 assms(2)] by (simp add: sys_inv_def)
    moreover have "map_get (jobs (storage w1)) (Job_ID (heap w1 j)) \<noteq> None"
      using reachable_inv [OF r1 assms(2)] by (auto simp: sys_inv_def hands_ok_def)
    ultimately obtain J where "mp.job_run hs i j J w1 r w'"
      using ProcessJob_run [OF _ _ _ assms(2) work] 2(5) w1(2) by auto
    then have "lanes w' = lanes w1" by (auto simp: mp.job_run_def mp.failed_to_def split: option.splits)
    then have "lanes w' = (lanes w)(p := rest)" using w1(4) by simp
    moreover have "p \<in> set named_priorities" unfolding 2(1) by simp
    ultimately show ?thesis using backlog_size_pop [of p w jid rest w'] 2(3) \<open>reachable hs ok (w', fl)\<close> by simp
  qed
qed

lemma processJobs_steps:
  assumes "reachable hs ok (w, fl)" and "quiet_handlers hs"
    and "run_state (processJobs (memory_runner hs workerID m) c i n) w = (u, w')"
  shows "reachable hs ok (w', fl) \<and> backlog_size w' = backlog_size w - n"
  using assms(1,3)
proof (induction n arbitrary: w)
  case (Suc n)
  have sel: "Run_processor (memory_runner hs workerID m) = memory_processor hs"
    "Run_priorities (memory_runner hs workerID m) = named_priorities"
    by (simp_all add: memory_runner_def NewWorkerRunner_def named_priorities_def)
  obtain r w1 where r: "run_state (ProcessNextJob (memory_processor hs) c i named_priorities) w = (r, w1)"
    by (metis surj_pair)
  have "run_state (process_round (memory_runner hs workerID m) c i) w = ((), w1)"
    using r by (simp add: process_round_def sel Sleep_def)
  then have rest: "run_state (processJobs (memory_runner hs workerID m) c i n) w1 = (u, w')"
    using Suc.prems(2) by simp
  note R = round_steps [OF Suc.prems(1) assms(2) r]
  then show ?case using Suc.IH [OF _ rest] by auto
qed simp

text \<open>
  C11: A worker works through its queue: from any state the system can reach, after as many rounds as
  there are jobs in the four priority queues these are empty, whether the jobs succeed or fail, and the
  state is again one the system can reach, so that every one of those jobs is done, scheduled again or buried.
\<close>

theorem processJobs_drains:
  assumes "reachable hs ok (w, fl)" and "quiet_handlers hs"
    and "run_state (processJobs (memory_runner hs workerID m) c i n) w = (u, w')"
    and "sum_list (map (\<lambda>p. length (map_get_list (queues (queue w)) p)) named_priorities) \<le> n"
  shows "(\<forall>p \<in> set named_priorities. map_get_list (queues (queue w')) p = []) \<and> reachable hs ok (w', fl)"
  using processJobs_steps [OF assms(1-3)] assms(4) backlog_size_0 [of w'] by (simp add: backlog_size_def)

section \<open>Examples\<close>


definition scheduled_world :: mem_world where
  "scheduled_world = snd (run_state (SchedulerService_ScheduleJob memory_scheduler \<lparr>deadline = None\<rparr>
     (example_request\<lparr>Req_ScheduleAt := None\<rparr>)) empty_world)"

theorem processJobs_drains_witness:
  "let n = sum_list (map (\<lambda>p. length (map_get_list (queues (queue scheduled_world)) p)) named_priorities) in
   \<forall>p \<in> set named_priorities. map_get_list (queues (queue (snd (run_state
     (processJobs (memory_runner [constant_handler None] ''w'' 1) \<lparr>deadline = None\<rparr> ''w-0'' n) scheduled_world)))) p = []"
proof -
  let ?c = "\<lparr>deadline = None\<rparr> :: ctx" and ?hs = "[constant_handler None]"
  let ?n = "sum_list (map (\<lambda>p. length (map_get_list (queues (queue scheduled_world)) p)) named_priorities)"
  let ?sched = "run_state (SchedulerService_ScheduleJob memory_scheduler ?c (example_request\<lparr>Req_ScheduleAt := None\<rparr>)) empty_world"
  have sched: "?sched = (fst ?sched, scheduled_world)" by (simp add: scheduled_world_def)
  obtain u w' where run: "run_state (processJobs (memory_runner ?hs ''w'' 1) ?c ''w-0'' ?n) scheduled_world = (u, w')"
    by (metis surj_pair)
  have q: "quiet_handlers ?hs" by (rule one_job_world_laws(5))
  have "reachable ?hs (\<lambda>_. True) (empty_world, [])"
    by (rule reachable.start) (simp add: sys_init_def empty_world_def demo_runtime_laws)
  moreover have "fresh_uuid empty_world" by (simp add: fresh_uuid_def empty_world_def)
  ultimately have "reachable ?hs (\<lambda>_. True) (scheduled_world, [])"
    using reachable.step sys_step.schedule [OF _ _ sched, of "\<lambda>_. True"] by blast
  from processJobs_drains [OF this q run order_refl] show ?thesis unfolding run Let_def by simp
qed

end
