(* ===== verification/Rest_Api.thy ===== *)
theory Rest_Api
  imports System Codec_Laws
begin

text \<open>
  \<^verbatim>\<open>internal/adapters/primary/rest_api/handler.go\<close>: the HTTP handlers. Of the web framework they use the
  binding of a request body (a parameter, \<open>ShouldBindJSON\<close>), the path and query parameters (arguments) and the
  response, which is the status and the value that is written as JSON.
\<close>

section \<open>Handlers\<close>

datatype json_body = ErrorBody string | JobBody job_ref | JobsBody "job_ref list" | StatsBody QueueStats

type_synonym response = "nat \<times> json_body"

record ('st, 'q) Handler =
  H_scheduler :: "('st, 'q) SchedulerService"
  H_processor :: "('st, 'q) ProcessorService"

definition NewHandler :: "('st, 'q) SchedulerService \<Rightarrow> ('st, 'q) ProcessorService \<Rightarrow> ('st, 'q) Handler" where
  "NewHandler s p = \<lparr>H_scheduler = s, H_processor = p\<rparr>"

definition Handler_ScheduleJob ::
  "(string \<Rightarrow> go_error + ScheduleJobRequest) \<Rightarrow> ('st, 'q) Handler \<Rightarrow> ctx \<Rightarrow> string \<Rightarrow> ('st, 'q, response) prog" where
  "Handler_ScheduleJob ShouldBindJSON h c body = (case ShouldBindJSON body of
     Inl err \<Rightarrow> ret (400, ErrorBody (Error err))
   | Inr req \<Rightarrow> do {
       res \<leftarrow> SchedulerService_ScheduleJob (H_scheduler h) c req;
       (case res of
          Inl err \<Rightarrow> ret (500, ErrorBody (Error err))
        | Inr job \<Rightarrow> ret (201, JobBody job)) })"

definition Handler_GetJob :: "('st, 'q) Handler \<Rightarrow> ctx \<Rightarrow> string \<Rightarrow> ('st, 'q, response) prog" where
  "Handler_GetJob h c jobID = do {
     r \<leftarrow> gets rt;
     (case uuid_Parse r jobID of
        None \<Rightarrow> ret (400, ErrorBody ''invalid job ID'')
      | Some jid \<Rightarrow> do {
          res \<leftarrow> SchedulerService_GetJob (H_scheduler h) c jid;
          (case res of
             Inl err \<Rightarrow> ret (404, ErrorBody ''job not found'')
           | Inr job \<Rightarrow> ret (200, JobBody job)) }) }"

text \<open>The filter of a list request; a parameter that is absent reads as the empty string.\<close>

definition list_filter :: "(string \<Rightarrow> string) \<Rightarrow> JobFilter" where
  "list_filter Query =
     (let f = \<lparr>Filter_Status = None, Filter_JobType = None, Filter_Priority = None, Filter_Limit = 50, Filter_Offset = 0\<rparr>;
          f = (if Query ''status'' \<noteq> [] then f\<lparr>Filter_Status := Some (Query ''status'')\<rparr> else f);
          f = (if Query ''type'' \<noteq> [] then f\<lparr>Filter_JobType := Some (Query ''type'')\<rparr> else f);
          f = (if Query ''limit'' \<noteq> [] then (case Atoi (Query ''limit'') of Some n \<Rightarrow> f\<lparr>Filter_Limit := n\<rparr> | None \<Rightarrow> f) else f)
      in if Query ''offset'' \<noteq> [] then (case Atoi (Query ''offset'') of Some n \<Rightarrow> f\<lparr>Filter_Offset := n\<rparr> | None \<Rightarrow> f) else f)"

definition Handler_ListJobs :: "('st, 'q) Handler \<Rightarrow> ctx \<Rightarrow> (string \<Rightarrow> string) \<Rightarrow> ('st, 'q, response) prog" where
  "Handler_ListJobs h c Query = do {
     res \<leftarrow> SchedulerService_ListJobs (H_scheduler h) c (list_filter Query);
     (case res of
        Inl err \<Rightarrow> ret (500, ErrorBody (Error err))
      | Inr found \<Rightarrow> ret (200, JobsBody found)) }"

definition Handler_GetQueueStats :: "('st, 'q) Handler \<Rightarrow> ctx \<Rightarrow> ('st, 'q, response) prog" where
  "Handler_GetQueueStats h c = do {
     (stats, err) \<leftarrow> SchedulerService_GetQueueStats (H_scheduler h) c;
     (case err of
        Some e \<Rightarrow> ret (500, ErrorBody (Error e))
      | None \<Rightarrow> ret (200, StatsBody stats)) }"

section \<open>Properties\<close>

definition memory_handler :: "(MemoryStorage, MemoryQueue) JobHandler list \<Rightarrow> (MemoryStorage, MemoryQueue) Handler" where
  "memory_handler hs = NewHandler memory_scheduler (memory_processor hs)"

lemma memory_handler_sel [simp]: "H_scheduler (memory_handler hs) = memory_scheduler"
  by (simp add: memory_handler_def NewHandler_def)

lemma stored_pointer:
  assumes "map_get (jobs (storage w)) jid = Some i"
  shows "ms_view (storage w) (heap w) jid = Some (heap w i)"
  using assms by (simp add: ms_view_def)

text \<open>
  C21: A client gets back what it posted: a request body that binds is answered with 201 and a job that
  carries the request, under the next identifier; asking for the job by the text of that identifier is
  answered with 200 and a job with the same contents. A text that is no identifier is answered with 400, and an
  identifier that is not stored with 404.
\<close>

theorem rest_post_then_get:
  assumes "mq_wf w" and "codec_laws (rt w)" and "ShouldBindJSON body = Inr req"
    and "run_state (Handler_ScheduleJob ShouldBindJSON (memory_handler hs) c body) w = (resp, w1)"
  shows "\<exists>j j'. resp = (201, JobBody j) \<and>
    requested_job (rt w) (clock (rt w) (ticks w + 3)) (uuid_New (rt w) (uuids w)) req (heap w1 j) \<and>
    run_state (Handler_GetJob (memory_handler hs) c (uuid_String (rt w) (Job_ID (heap w1 j)))) w1 = ((200, JobBody j'), w1) \<and>
    heap w1 j' = heap w1 j \<and>
    (\<forall>s. uuid_Parse (rt w) s = None \<longrightarrow>
       run_state (Handler_GetJob (memory_handler hs) c s) w1 = ((400, ErrorBody ''invalid job ID''), w1)) \<and>
    (\<forall>u. map_get (jobs (storage w1)) u = None \<longrightarrow>
       run_state (Handler_GetJob (memory_handler hs) c (uuid_String (rt w) u)) w1 = ((404, ErrorBody ''job not found''), w1))"
proof -
  let ?jid = "uuid_New (rt w) (uuids w)" and ?t = "clock (rt w) (ticks w + 3)"
  obtain r w1' where r0: "run_state (SchedulerService_ScheduleJob memory_scheduler c req) w = (r, w1')"
    by (metis surj_pair)
  moreover have "w1' = w1" and resp: "resp = (case r of Inl err \<Rightarrow> (500, ErrorBody (Error err)) | Inr job \<Rightarrow> (201, JobBody job))"
    using assms(3,4) r0 by (cases r; simp add: Handler_ScheduleJob_def)+
  ultimately have r: "run_state (SchedulerService_ScheduleJob memory_scheduler c req) w = (r, w1)" by simp
  have rt: "rt w1 = rt w" using wpD [OF schedule_effect r] by simp
  obtain j where j: "r = Inr j" "requested_job (rt w) ?t ?jid req (heap w1 j)"
      "ms_view (storage w1) (heap w1) (Job_ID (heap w1 j)) = Some (heap w1 j)"
    using wpD [OF mb.ScheduleJob_rule [OF assms(1), of memory_scheduler c req] r]
    by (auto simp: memory_scheduler_def NewSchedulerService_def)
  obtain i where i: "map_get (jobs (storage w1)) (Job_ID (heap w1 j)) = Some i" "heap w1 i = heap w1 j"
    using j(3) by (auto simp: ms_view_def split: option.splits)
  have parse: "uuid_Parse (rt w1) (uuid_String (rt w) u) = Some u" for u
    using assms(2) rt by (simp add: codec_laws_def)
  have get: "run_state (Handler_GetJob (memory_handler hs) c s) w1 = ((case uuid_Parse (rt w1) s of
      None \<Rightarrow> (400, ErrorBody ''invalid job ID'')
    | Some u \<Rightarrow> (case map_get (jobs (storage w1)) u of None \<Rightarrow> (404, ErrorBody ''job not found'') | Some i \<Rightarrow> (200, JobBody i))), w1)" for s
    by (simp add: Handler_GetJob_def SchedulerService_GetJob_def memory_scheduler_def NewSchedulerService_def
        MemoryStorage_GetJob_def split: option.split)
  show ?thesis unfolding get parse
    using resp j i rt by (intro exI [of _ j] exI [of _ i]) simp
qed

text \<open>The number that a parameter denotes, or a default when it is absent or not a number.\<close>

definition query_int :: "(string \<Rightarrow> string) \<Rightarrow> string \<Rightarrow> int \<Rightarrow> int" where
  "query_int Query name fallback =
     (if Query name = [] then fallback else case Atoi (Query name) of None \<Rightarrow> fallback | Some n \<Rightarrow> sint n)"

lemma list_filter_parts:
  "sint (Filter_Limit (list_filter Query)) = query_int Query ''limit'' 50"
  "sint (Filter_Offset (list_filter Query)) = query_int Query ''offset'' 0"
  by (simp_all add: list_filter_def query_int_def Let_def split: option.split)

lemma list_filter_matches: "job_matches (list_filter Query) J \<longleftrightarrow>
    (Query ''status'' = [] \<or> Job_Status J = Query ''status'') \<and> (Query ''type'' = [] \<or> Job_Type J = Query ''type'')"
  by (auto simp: job_matches_def list_filter_def Let_def split: option.split)

text \<open>
  C34: What a list request on the in-memory storage is answered: 200 and the stored jobs with the status and type asked for, in
  the order the runtime visits them, without the first \<^verbatim>\<open>offset\<close> and cut off after \<^verbatim>\<open>limit\<close>. A limit that is absent or
  not a number is 50, so that a page has at most 50 jobs then and at most \<^verbatim>\<open>limit\<close> for a positive limit. For a limit of zero or less there
  is no bound: the answer holds all of them.
\<close>

theorem rest_list_page:
  assumes "ms_ok (storage w)" and "fair_range (rt w)"
    and "run_state (Handler_ListJobs (memory_handler hs) c Query) w = (resp, w')"
  shows "\<exists>order js. mset order = mset (map snd (jobs (storage w))) \<and> resp = (200, JobsBody js) \<and>
    (let limit = query_int Query ''limit'' 50; offset = query_int Query ''offset'' 0;
         found = filter (\<lambda>j. (Query ''status'' = [] \<or> Job_Status (heap w j) = Query ''status'') \<and>
           (Query ''type'' = [] \<or> Job_Type (heap w j) = Query ''type'')) order
     in js = (if 0 < limit then take (nat limit) (drop (nat offset) found) else drop (nat offset) found) \<and>
        (0 < limit \<longrightarrow> int (length js) \<le> limit) \<and> (limit \<le> 0 \<and> offset \<le> 0 \<longrightarrow> js = found)) \<and>
    storage w' = storage w \<and> heap w' = heap w"
proof -
  let ?f = "list_filter Query"
  obtain r w1 where r0: "run_state (MemoryStorage_ListJobs c ?f) w = (r, w1)" by (metis surj_pair)
  then have "w1 = w'" and resp: "resp = (case r of Inl err \<Rightarrow> (500, ErrorBody (Error err)) | Inr js \<Rightarrow> (200, JobsBody js))"
    using assms(3) by (cases r; simp add: Handler_ListJobs_def SchedulerService_ListJobs_def memory_scheduler_def
        NewSchedulerService_def)+
  with r0 have r: "run_state (MemoryStorage_ListJobs c ?f) w = (r, w')" by simp
  from list_jobs_page [OF assms(1,2) r, unfolded list_filter_parts list_filter_matches] obtain order where
    order: "mset order = mset (map snd (jobs (storage w)))" "storage w' = storage w" "heap w' = heap w"
    and page: "r = Inr (let page = drop (nat (query_int Query ''offset'' 0)) (filter (\<lambda>j. (Query ''status'' = [] \<or> Job_Status (heap w j) = Query ''status'') \<and>
           (Query ''type'' = [] \<or> Job_Type (heap w j) = Query ''type'')) order)
        in if 0 < query_int Query ''limit'' 50 then take (nat (query_int Query ''limit'' 50)) page else page)" by blast
  let ?found = "filter (\<lambda>j. (Query ''status'' = [] \<or> Job_Status (heap w j) = Query ''status'') \<and>
    (Query ''type'' = [] \<or> Job_Type (heap w j) = Query ''type'')) order"
  let ?js = "if 0 < query_int Query ''limit'' 50
    then take (nat (query_int Query ''limit'' 50)) (drop (nat (query_int Query ''offset'' 0)) ?found)
    else drop (nat (query_int Query ''offset'' 0)) ?found"
  have "resp = (200, JobsBody ?js)" using resp unfolding page Let_def by simp
  moreover have "0 < query_int Query ''limit'' 50 \<Longrightarrow> int (length ?js) \<le> query_int Query ''limit'' 50" by simp
  moreover have "query_int Query ''limit'' 50 \<le> 0 \<and> query_int Query ''offset'' 0 \<le> 0 \<Longrightarrow> ?js = ?found" by simp
  ultimately show ?thesis using order unfolding Let_def by blast
qed

section \<open>Examples\<close>

theorem rest_post_then_get_witness:
  "\<exists>j j' w1. run_state (Handler_ScheduleJob (\<lambda>_. Inr example_request) (memory_handler []) \<lparr>deadline = None\<rparr> ''{}'') empty_world =
      ((201, JobBody j), w1) \<and>
    run_state (Handler_GetJob (memory_handler []) \<lparr>deadline = None\<rparr> (uuid_String demo_runtime (Job_ID (heap w1 j)))) w1 =
      ((200, JobBody j'), w1) \<and> heap w1 j' = heap w1 j"
proof -
  let ?run = "run_state (Handler_ScheduleJob (\<lambda>_. Inr example_request) (memory_handler []) \<lparr>deadline = None\<rparr> ''{}'') empty_world"
  have run: "?run = (fst ?run, snd ?run)" by simp
  have "mq_wf empty_world" "rt empty_world = demo_runtime" by (simp_all add: empty_world_def mq_inv_New)
  moreover from this have "codec_laws (rt empty_world)" using demo_codec_laws by simp
  ultimately show ?thesis
    using rest_post_then_get [of empty_world "\<lambda>_. Inr example_request" "''{}''" example_request "[]" "\<lparr>deadline = None\<rparr>", OF _ _ refl run]
      run by metis
qed

definition only_limit :: "string \<Rightarrow> string \<Rightarrow> string" where
  "only_limit v name = (if name = ''limit'' then v else [])"

theorem rest_list_page_witness:
  "\<exists>js. fst (run_state (Handler_ListJobs (memory_handler []) \<lparr>deadline = None\<rparr> (only_limit ''0'')) one_job_world) = (200, JobsBody js) \<and>
     mset js = mset (map snd (jobs (storage one_job_world)))"
proof -
  let ?run = "run_state (Handler_ListJobs (memory_handler []) \<lparr>deadline = None\<rparr> (only_limit ''0'')) one_job_world"
  have run: "?run = (fst ?run, snd ?run)" by simp
  have laws: "ms_ok (storage one_job_world)" "fair_range (rt one_job_world)"
    by (simp_all add: one_job_world_def empty_world_def NewMemoryStorage_def ms_ok_def map_ok_def map_keys_def demo_runtime_laws)
  have limit: "query_int (only_limit ''0'') ''limit'' 50 = 0" "query_int (only_limit ''0'') ''offset'' 0 = 0"
    using Atoi_show_int [of 0] by (simp_all add: query_int_def only_limit_def show_int_def show_nat.simps digit_of_def)
  show ?thesis using rest_list_page [OF laws run] unfolding Let_def limit by (auto simp: only_limit_def)
qed

end
