(* ===== verification/Programs.thy ===== *)
theory Programs
  imports Redis_Queue Postgres_Storage Handlers Worker_Runner Rest_Api
begin

text \<open>
  \<^verbatim>\<open>cmd/schedular/main.go\<close> and \<^verbatim>\<open>cmd/worker/main.go\<close>: how the two programs put the components together, and how
  they start and stop.
\<close>

section \<open>Adapters and services\<close>

text \<open>
  The adapters that both programs open. An error of the storage is dropped and the adapter is nil
  then, and so is the client of the queue when it cannot be reached (\<open>None\<close>); every later call on it panics.
\<close>

definition open_adapters ::
  "(string \<Rightarrow> go_error + 'st gorm) \<Rightarrow> (string \<Rightarrow> go_error + 'o) \<Rightarrow> ('o \<Rightarrow> 'q redis) \<Rightarrow>
   ('st, 'q, 'st gorm option \<times> 'q redis option) prog" where
  "open_adapters open_db parse new = do {
     cfg \<leftarrow> gets (\<lambda>w. LoadConfig (frac_ns (rt w)) (os_Getenv (rt w)));
     st \<leftarrow> NewPostgresStorage open_db (DatabaseURL cfg);
     client \<leftarrow> NewRedisQueue parse new (RedisURL cfg);
     ret (case st of Inl _ \<Rightarrow> None | Inr G \<Rightarrow> Some G, client) }"

definition program_scheduler :: "'st gorm \<Rightarrow> 'q redis \<Rightarrow> ('st, 'q) SchedulerService" where
  "program_scheduler G C = NewSchedulerService (postgres_storage G) (redis_queue C) MockMetrics MockLogger"

definition program_processor ::
  "(go_int \<Rightarrow> ('st, 'q) world \<Rightarrow> go_int) \<Rightarrow> (('st, 'q) world \<Rightarrow> rat) \<Rightarrow> 'st gorm \<Rightarrow> 'q redis \<Rightarrow> ('st, 'q) ProcessorService" where
  "program_processor Intn Float32 G C =
     RegisterHandler
       (RegisterHandler (NewProcessorService (postgres_storage G) (redis_queue C) MockMetrics MockLogger)
         (NewEmailHandler (MockEmailService_SendEmail Intn Float32)))
       (NewPaymentHandler (MockPaymentService_ProcessPayment Intn Float32))"

section \<open>The scheduler program\<close>

text \<open>The routes; matching a request to one of them is up to the web framework.\<close>

datatype http_request = POST_jobs string | GET_job string | GET_jobs "string \<Rightarrow> string" | GET_queues_stats

definition serve ::
  "(string \<Rightarrow> go_error + ScheduleJobRequest) \<Rightarrow> ('st, 'q) Handler \<Rightarrow> ctx \<Rightarrow> http_request \<Rightarrow> ('st, 'q, response) prog" where
  "serve ShouldBindJSON h c req = (case req of
     POST_jobs body \<Rightarrow> Handler_ScheduleJob ShouldBindJSON h c body
   | GET_job jobID \<Rightarrow> Handler_GetJob h c jobID
   | GET_jobs Query \<Rightarrow> Handler_ListJobs h c Query
   | GET_queues_stats \<Rightarrow> Handler_GetQueueStats h c)"

text \<open>One tick of the delayed job processor; its error is dropped.\<close>

definition tick :: "('st, 'q) QueuePort \<Rightarrow> ctx \<Rightarrow> ('st, 'q, unit) prog" where
  "tick Q c = do { _ \<leftarrow> ProcessDelayedJobs Q c; ret () }"

text \<open>
  The goroutines of the program: the server, the ticker, and the main one, which waits for a signal,
  cancels the context, shuts the server down and waits for the others. The server may fail by itself.
  A shutdown waits ten seconds at most for the requests that are being answered; one that takes longer
  goes on beside the main goroutine until the program exits.
\<close>

datatype main_phase = Up | Cancelled | Closed | Exited

record ('st, 'q) scheduling =
  sch_world :: "('st, 'q) world"
  sch_main :: main_phase
  sch_ticking :: bool
  sch_serving :: bool
  sch_answering :: bool

inductive sched_step for B h Q c where
  request: "sch_answering s \<Longrightarrow> sch_main s \<noteq> Exited \<Longrightarrow> run_state (serve B h rc req) (sch_world s) = (resp, w') \<Longrightarrow>
    sched_step B h Q c s (s\<lparr>sch_world := w'\<rparr>)"
| ticker: "sch_ticking s \<Longrightarrow> run_state (tick Q c) (sch_world s) = (u, w') \<Longrightarrow> sched_step B h Q c s (s\<lparr>sch_world := w'\<rparr>)"
| signal: "sch_main s = Up \<Longrightarrow> run_state (printf ''Shutting down...'' []) (sch_world s) = (u, w') \<Longrightarrow>
    sched_step B h Q c s (s\<lparr>sch_world := w', sch_main := Cancelled\<rparr>)"
| server_failed: "sch_serving s \<Longrightarrow> run_state (printf ''HTTP server error: %v'' [FmtStr e]) (sch_world s) = (u, w') \<Longrightarrow>
    sched_step B h Q c s (s\<lparr>sch_world := w', sch_serving := False\<rparr>)"
| stop_ticker: "sch_ticking s \<Longrightarrow> sch_main s \<noteq> Up \<Longrightarrow> sched_step B h Q c s (s\<lparr>sch_ticking := False\<rparr>)"
| server_closed: "sch_main s = Cancelled \<Longrightarrow>
    sched_step B h Q c s (s\<lparr>sch_main := Closed, sch_serving := False, sch_answering := False\<rparr>)"
| server_timeout: "sch_main s = Cancelled \<Longrightarrow>
    run_state (printf ''HTTP server shutdown error: %v'' [FmtStr ''context deadline exceeded'']) (sch_world s) = (u, w') \<Longrightarrow>
    sched_step B h Q c s (s\<lparr>sch_world := w', sch_main := Closed, sch_serving := False\<rparr>)"
| exit: "sch_main s = Closed \<Longrightarrow> \<not> sch_ticking s \<Longrightarrow> \<not> sch_serving s \<Longrightarrow>
    run_state (printf ''Shutdown complete'' []) (sch_world s) = (u, w') \<Longrightarrow>
    sched_step B h Q c s (s\<lparr>sch_world := w', sch_main := Exited\<rparr>)"

inductive sched_runs for B h Q c w where
  booted: "run_state (printf ''Job scheduler started on :8000'' []) w = (u, w') \<Longrightarrow>
    sched_runs B h Q c w \<lparr>sch_world = w', sch_main = Up, sch_ticking = True, sch_serving = True, sch_answering = True\<rparr>"
| stepped: "sched_runs B h Q c w s \<Longrightarrow> sched_step B h Q c s s' \<Longrightarrow> sched_runs B h Q c w s'"

text \<open>
  The delayed jobs are promoted until the program is told to stop, also when its server has failed; when it
  exits, its listener and its ticker have stopped.
\<close>

lemma sched_stopped:
  "sched_runs B h Q c w s \<Longrightarrow> (sch_main s = Up \<longrightarrow> sch_ticking s) \<and>
     (sch_main s \<in> {Closed, Exited} \<longrightarrow> \<not> sch_serving s) \<and> (sch_main s = Exited \<longrightarrow> \<not> sch_ticking s)"
proof (induction rule: sched_runs.induct)
  case (stepped s s')
  from stepped(2,3) show ?case by (induction rule: sched_step.induct) auto
qed simp

section \<open>The worker program\<close>

definition worker_runner ::
  "(go_int \<Rightarrow> ('st, 'q) world \<Rightarrow> go_int) \<Rightarrow> (('st, 'q) world \<Rightarrow> rat) \<Rightarrow> 'st gorm \<Rightarrow> 'q redis \<Rightarrow> ('st, 'q) WorkerRunner" where
  "worker_runner Intn Float32 G C =
     NewWorkerRunner (program_processor Intn Float32 G C) (postgres_storage G) MockLogger ''worker-1'' ''localhost'' 5"

text \<open>\<^verbatim>\<open>log.Fatalf\<close> prints and ends the process.\<close>

definition Fatalf :: "string \<Rightarrow> fmt_arg list \<Rightarrow> ('st, 'q, unit) prog" where
  "Fatalf fmt args = do {
     printf fmt args;
     modify (\<lambda>w. w\<lparr>exit_code := Some 1\<rparr>) }"

text \<open>
  The worker is started in a goroutine of its own, beside the main one: it registers before or after the first message of the main goroutine.
\<close>

inductive worker_boots :: "('st, 'q) WorkerRunner \<Rightarrow> ctx \<Rightarrow> ('st, 'q) world \<Rightarrow> go_error option \<Rightarrow> ('st, 'q) world \<Rightarrow> bool" for R c w where
  register_first: "run_state (register R c) w = (e, w1) \<Longrightarrow> run_state (printf ''Worker started'' []) w1 = (u, w2) \<Longrightarrow>
    worker_boots R c w e w2"
| message_first: "run_state (printf ''Worker started'' []) w = (u, w1) \<Longrightarrow> run_state (register R c) w1 = (e, w2) \<Longrightarrow>
    worker_boots R c w e w2"

text \<open>
  How the program ends, and in which state its runner is then: the worker could not be registered, which ends the process before or after the first
  message; or a signal cancels the runner's context, at any moment of its work or before it has begun, and the program exits at once.
\<close>

inductive worker_exit :: "('st, 'q) WorkerRunner \<Rightarrow> ctx \<Rightarrow> ('st, 'q) world \<Rightarrow> ('st, 'q) running option \<Rightarrow> ('st, 'q) world \<Rightarrow> bool" for R c w where
  failed_first: "run_state (register R c) w = (Some e, w1) \<Longrightarrow>
    run_state (Fatalf ''Worker failed: %v'' [FmtStr (Error e)]) w1 = (u, w2) \<Longrightarrow>
    worker_exit R c w None w2"
| failed: "worker_boots R c w (Some e) w1 \<Longrightarrow>
    run_state (Fatalf ''Worker failed: %v'' [FmtStr (Error e)]) w1 = (u, w2) \<Longrightarrow>
    worker_exit R c w None w2"
| not_begun: "run_state (printf ''Worker started'' []) w = (u, w1) \<Longrightarrow>
    run_state (printf ''Worker shutting down...'' []) w1 = (u, w2) \<Longrightarrow>
    run_state (printf ''Worker stopped'' []) w2 = (u, w3) \<Longrightarrow> worker_exit R c w None w3"
| stopped: "worker_boots R c w None w2 \<Longrightarrow>
    runs_to R c (started R w2) s \<Longrightarrow> \<not> cancelled s \<Longrightarrow>
    run_state (printf ''Worker shutting down...'' []) (run_world s) = (u, w3) \<Longrightarrow>
    runs_to R c (s\<lparr>run_world := w3, cancelled := True\<rparr>) s' \<Longrightarrow>
    run_state (printf ''Worker stopped'' []) (run_world s') = (u, w4) \<Longrightarrow> worker_exit R c w (Some s') w4"

text \<open>The program does not wait for its runner: it may exit in the middle of a round.\<close>

lemma worker_abandons_round:
  assumes "run_state (register R c) w = (None, w1)" and "instances R = i # is"
  shows "\<exists>s w2. worker_exit R c w (Some s) w2 \<and> busy s = [i]"
proof -
  obtain w2 where w2: "run_state (printf ''Worker started'' []) w1 = ((), w2)" by (simp add: printf_def)
  let ?s = "started R w2"
  let ?b = "?s\<lparr>idle := is, busy := [i]\<rparr>"
  obtain w3 where w3: "run_state (printf ''Worker shutting down...'' []) (run_world ?b) = ((), w3)" by (simp add: printf_def)
  let ?e = "?b\<lparr>run_world := w3, cancelled := True\<rparr>"
  obtain w4 where w4: "run_state (printf ''Worker stopped'' []) (run_world ?e) = ((), w4)" by (simp add: printf_def)
  have "runner_step R c ?s ?b" using begin_round [of ?s "[]" i "is" R c] assms(2) by (simp add: started_def)
  then have "runs_to R c ?s ?b" by (blast intro: runs_to.intros)
  from worker_exit.stopped [OF register_first [OF assms(1) w2] this _ w3 runs_refl w4] show ?thesis
    by (intro exI [of _ ?e] exI [of _ w4]) (simp add: started_def)
qed

section \<open>Handlers of the programs\<close>

lemma program_handlers:
  "map_get (Proc_handlers (program_processor Intn Float32 G C)) ty =
     (if ty = JobTypePayment then Some (NewPaymentHandler (MockPaymentService_ProcessPayment Intn Float32))
      else if ty = JobTypeEmail then Some (NewEmailHandler (MockEmailService_SendEmail Intn Float32)) else None)"
  by (simp add: program_processor_def RegisterHandler_def NewProcessorService_def NewEmailHandler_def NewPaymentHandler_def)

text \<open>The worker registers as supporting data exports, and no program has a handler for them.\<close>

lemma data_export_unhandled:
  assumes "Job_Type (heap w j) = JobTypeDataExport"
  shows "run_state (executeJob (program_processor Intn Float32 G C) c j) w =
    (Some (GoErr (''no handler registered for job type: '' @ JobTypeDataExport)), w)"
  using assms by (simp add: executeJob_def program_handlers read_job_def JobTypeDataExport_def JobTypeEmail_def JobTypePayment_def)

end
