(* ===== verification/Spec2Isabelle.thy ===== *)
theory Spec2Isabelle
  imports System Programs
begin

text \<open>
  A verification of the job scheduler service: a scheduler program with an HTTP interface, which stores
  jobs and queues them by priority or for a later time, and worker programs, which take jobs from the queue,
  run the handler of their type, and retry or bury the ones that fail.

  \<^bold>\<open>Parts and how they interact.\<close> The HTTP handlers (\<^verbatim>\<open>adapters/primary/rest_api\<close>) call the scheduler service
  (\<^verbatim>\<open>core/services/schedular.go\<close>), the worker runner (\<^verbatim>\<open>adapters/primary/worker\<close>) calls the processor service
  (\<^verbatim>\<open>core/services/processor.go\<close>). Both services work on the domain (\<^verbatim>\<open>core/domain\<close>) and reach storage, queue,
  metrics and logging through the interfaces of \<^verbatim>\<open>core/ports\<close>, which the adapters of \<^verbatim>\<open>adapters/secondary\<close>
  implement, in memory or on PostgreSQL and Redis. \<^verbatim>\<open>cmd/schedular\<close> and \<^verbatim>\<open>cmd/worker\<close> put the parts together.

  \<^bold>\<open>Programs as state transformers.\<close> Every operation is a function in the state monad over the record
  \<open>world\<close> (theory Ports): the job objects, which services and adapters share by pointer (\<open>heap\<close>), the state of the storage and of the queue adapter,
  what was printed, and counters into the \<open>runtime\<close>, which gives the clock readings, the fresh identifiers, the order in which Go
  iterates over a map and the environment. Errors are values (\<open>go_error\<close>); integers and durations are 64-bit words. Statements about code are
  weakest preconditions (\<open>wp\<close>, theory Prelude) or equations on \<open>run_state\<close>; no operation can fail to
  return, since every loop of the source is over a finite collection, except the loops of the goroutines,
  which are step relations.

  \<^bold>\<open>Theories.\<close>
  \<^item> Prelude, GoStd: Go maps, errors, the calculus, 64-bit arithmetic; instants, durations and the parsing
    functions of the standard library that the service computes with.
  \<^item> Config, Priority, Retry, Job: \<^verbatim>\<open>internal/config\<close> and \<^verbatim>\<open>core/domain\<close>. The backoff schedule is exact while its
    product fits an int64, is capped always, and wraps beyond; \<^verbatim>\<open>MaxAttempts\<close> bounds executions.
  \<^item> Ports, Contracts: the interfaces as records of operations and their contracts as locales: \<open>observability\<close>,
    \<open>storage_contract\<close> and \<open>queue_contract\<close>, and their extensions for adapters that do not fail.
  \<^item> Services: both services, every method. Processor and Scheduler: what they do over any adapters that satisfy the
    contracts (locales \<open>backend\<close> and \<open>processor\<close>).
  \<^item> Memory_Queue, Memory_Storage, Mocks: the in-memory adapters and the mocks, with the interpretations of the
    contracts: well-formedness, order of delivery, promotion of due jobs, paging, history, stale workers.
  \<^item> Memory_Backend: the services on these adapters: the outcome of scheduling and of each way an execution ends.
  \<^item> System: clients, the ticker and any number of workers in any order as a step relation; by induction over its runs
    no job is lost, duplicated or misplaced, and executions stay within the limit.
  \<^item> Json, Json_Strings, Codec, Codec_Laws: \<^verbatim>\<open>encoding/json\<close> as the service uses it and the round trip of a job.
  \<^item> Redis_Queue, Postgres_Storage: the networked adapters, every method: order of delivery, promotion that loses
    nothing when commands fail, but never selects a time before 1970, statistics; round trips through rows, paging, stale workers.
  \<^item> Handlers, Worker_Runner, Rest_Api, Programs: the job handlers, the worker process with its goroutines (it stops;
    it works through its queue), the HTTP handlers, and both \<^verbatim>\<open>main\<close> functions.
  \<^item> This theory: scheduling over PostgreSQL and Redis together.

  \<^bold>\<open>Parameters and what is assumed of them.\<close> The Redis client and the database library are not part of the repository: they are
  records of operations, arguments of the adapters. \<open>redis_laws\<close> and \<open>gorm_laws\<close> state the documented meaning of their commands, also that a
  command answered with an error may have been executed, but not that the client sends a command again after a lost reply; \<open>redis_up\<close> and \<open>reads_up\<close> say that the server
  answers. \<open>column_laws\<close> says what a row keeps of a job (JSON columns may be reformatted, instants rounded). \<open>codec_laws\<close> says
  that the texts of identifiers and instants can be read back, \<open>fair_range\<close> that iterating over a map visits every
  key once. Each is satisfied by a concrete instance in the examples of its theory.

  \<^bold>\<open>Fuel and bounds.\<close> The JSON parser recurses with fuel \<open>2 * length s + 1\<close>, which is shown to be enough for every text
  that the service writes (\<open>fuel_enough\<close>), and rejects a nesting beyond 10000 as the library does. The loop of a worker goroutine, \<open>processJobs\<close>, is given
  its number of rounds; as a goroutine of the process it is the step relation \<open>runner_step\<close>. Scores of delayed jobs are float64 values:
  the conversion rounds beyond \<open>2 ^ 53\<close> seconds.

  \<^bold>\<open>Not modelled.\<close> The text that \<^verbatim>\<open>fmt\<close> renders from a format and its arguments. Interleavings finer than one call of an adapter or service:
  the in-memory adapters hold a lock during a call, and in theory System a worker may be interrupted between taking a job and
  processing it, but not within \<open>ProcessJob\<close>. Routing and request binding of the web framework, reading and writing of HTTP, process signals other
  than their effect, handlers and commands that block forever, the schema migration, connection pools, and calls on an adapter that failed to open, which dereference nil. The
  table names and column types of the models, the SQL scripts and the container files.
\<close>

section \<open>Scheduling on the production adapters\<close>

text \<open>What scheduling the job \<open>J\<close> adds to the Redis queue: an entry of the delayed jobs or the newest entry of its lane.\<close>

definition redis_placed :: "runtime \<Rightarrow> 'q lists \<Rightarrow> 'q zsets \<Rightarrow> Job \<Rightarrow> 'q \<Rightarrow> 'q \<Rightarrow> bool" where
  "redis_placed r L Z J q q' \<longleftrightarrow> (\<exists>v. marshal_job r J = Some v \<and>
     (if Job_Status J = StatusScheduled
      then L q' = L q \<and> Z q' = (Z q)(''delayed_jobs'' := (Z q ''delayed_jobs'')(v \<mapsto> float64_of_int (time_Unix (Job_ScheduledAt J))))
      else Z q' = Z q \<and> L q' = (L q)(getQueueName (Job_Priority J) := v # L q (getQueueName (Job_Priority J)))))"

text \<open>The row \<open>k\<close> of the table denotes the job \<open>J\<close>.\<close>

definition row_denotes :: "runtime \<Rightarrow> (uuid \<rightharpoonup> JobModel) \<Rightarrow> uuid \<Rightarrow> Job \<Rightarrow> bool" where
  "row_denotes r tbl k J \<longleftrightarrow> (\<exists>m J'. tbl k = Some m \<and> jobModelToDomain r m = Inr J' \<and> same_decisions J J')"

lemma enqueueJob_redis:
  fixes w :: "('st, 'q) world"
  assumes "redis_laws C L Z" and "Sched_queue s = redis_queue C"
  shows "wp (enqueueJob s c j) (\<lambda>e w'. queue_frame w w' \<and> heap w' = heap w \<and>
      (redis_placed (rt w) L Z (heap w j) (queue w) (queue w') \<or>
       e \<noteq> None \<and> L (queue w') = L (queue w) \<and> Z (queue w') = Z (queue w))) w"
proof (cases "Job_Status (heap w j) = StatusScheduled")
  case True
  then show ?thesis unfolding enqueueJob_def assms(2) redis_queue_def QueuePort.simps
    by (simp add: wp_simps)
      (rule wp_mono [OF redis_delay_rule [OF assms(1)]], auto simp: redis_placed_def split: option.splits)
next
  case False
  then show ?thesis unfolding enqueueJob_def assms(2) redis_queue_def QueuePort.simps
    by (simp add: wp_simps)
      (rule wp_mono [OF redis_enqueue_rule [OF assms(1)]], auto simp: redis_placed_def Let_def split: option.splits)
qed

lemma schedule_production:
  fixes w :: "('st, 'q) world"
  assumes "redis_laws C L Z" and "gorm_laws G T" and "column_laws (rt w) T" and "codec_laws (rt w)"
    and "meta_readable (rt w) (Req_Metadata req)"
  shows "wp (SchedulerService_ScheduleJob (program_scheduler G C) c req) (\<lambda>res w'.
    \<exists>J. requested_job (rt w) (clock (rt w) (ticks w + 3)) (uuid_New (rt w) (uuids w)) req J \<and>
      (redis_placed (rt w) L Z J (queue w) (queue w') \<and> row_denotes (rt w) (jobs_tbl T (storage w')) (Job_ID J) J \<or>
       (\<exists>e. res = Inl e) \<and> L (queue w') = L (queue w) \<and> Z (queue w') = Z (queue w)) \<and>
      (\<forall>j. res = Inr j \<longrightarrow> j = next_ref w \<and> heap w' j = J)) w"
proof -
  have sel: "Sched_storage (program_scheduler G C) = postgres_storage G" "Sched_queue (program_scheduler G C) = redis_queue C"
    "Sched_metrics (program_scheduler G C) = MockMetrics" "Sched_logger (program_scheduler G C) = MockLogger"
    by (simp_all add: program_scheduler_def NewSchedulerService_def)
  have save: "SaveJob (postgres_storage G) = PostgresStorage_SaveJob G" by (simp add: postgres_storage_def)
  show ?thesis unfolding SchedulerService_ScheduleJob_def wp_bind sel save
  proof (rule wp_mono [OF create_job_rule], elim conjE, rule wp_mono [OF postgres_save_rule [OF assms(2)]], elim conjE, goal_cases)
    case (1 j w1 e w2)
    let ?J = "heap w1 j"
    have same: "rt w2 = rt w" "heap w2 = heap w1" "queue w2 = queue w" "j = next_ref w"
      using 1 by (simp_all add: storage_frame_def same_run_def)
    show ?case
    proof (cases e)
      case (Some err)
      then show ?thesis using 1 same by (auto simp: wp_simps intro!: exI [of _ ?J] mock.error wp_rules)
    next
      case None
      obtain m t where m: "domainToJobModel (rt w1) ?J = Inr m"
        "jobs_tbl T (storage w2) = (jobs_tbl T (storage w1))(Job_ID ?J \<mapsto> col_job T (m\<lparr>JM_UpdatedAt := t\<rparr>))"
        using 1 None by blast
      have "Job_Metadata ?J = Req_Metadata req" "rt w1 = rt w" using 1 by (simp_all add: requested_job_def)
      then have row: "row_denotes (rt w) (jobs_tbl T (storage w2)) (Job_ID ?J) ?J"
        using domain_of_column [OF assms(3,4), of ?J m t] assms(5) m by (simp add: row_denotes_def)
      show ?thesis unfolding None option.case wp_bind
      proof (rule wp_mono [OF enqueueJob_redis [OF assms(1) sel(2)]], elim conjE, goal_cases)
        case inner: (1 e3 w3)
        have st: "storage w3 = storage w2" "rt w3 = rt w2" using inner by (simp_all add: queue_frame_def same_run_def)
        show ?case using 1 inner same st row
          by (cases e3) (auto simp: wp_simps intro!: exI [of _ ?J] wp_rules)
      qed
    qed
  qed
qed

text \<open>
  C5: Scheduling over PostgreSQL and Redis, as the programs do, whatever commands fail: the queue gains
  nothing, or it gains exactly one entry, which holds the requested job, in the lane of its priority or
  among the delayed jobs at its time, and then the row of the job is stored, so that no worker finds an entry whose job
  was never saved. A request that is answered with a job is stored and queued; only an error may leave the queue as it was.
\<close>

theorem production_schedule:
  fixes w :: "('st, 'q) world"
  assumes "redis_laws C L Z" and "gorm_laws G T" and "column_laws (rt w) T" and "codec_laws (rt w)"
    and "meta_readable (rt w) (Req_Metadata req)"
    and "run_state (SchedulerService_ScheduleJob (program_scheduler G C) c req) w = (res, w')"
  shows "\<exists>J. requested_job (rt w) (clock (rt w) (ticks w + 3)) (uuid_New (rt w) (uuids w)) req J \<and>
    (redis_placed (rt w) L Z J (queue w) (queue w') \<and> row_denotes (rt w) (jobs_tbl T (storage w')) (Job_ID J) J \<or>
     (\<exists>e. res = Inl e) \<and> L (queue w') = L (queue w) \<and> Z (queue w') = Z (queue w)) \<and>
    (\<forall>j. res = Inr j \<longrightarrow> j = next_ref w \<and> heap w' j = J)"
  using wpD [OF schedule_production [OF assms(1-5)] assms(6)] .

section \<open>Example\<close>

definition demo_production :: "(demo_db, redis_store) world" where
  "demo_production = \<lparr>rt = demo_runtime, ticks = 0, uuids = 0, ranges = 0, heap = (\<lambda>_. zero_job), next_ref = 0,
     storage = \<lparr>db_jobs = [], db_workers = []\<rparr>, queue = \<lparr>ds_lists = (\<lambda>_. []), ds_zsets = (\<lambda>_. [])\<rparr>,
     stdout = [], exit_code = None\<rparr>"

theorem production_schedule_witness:
  "case run_state (SchedulerService_ScheduleJob (program_scheduler demo_gorm demo_redis) \<lparr>deadline = None\<rparr>
       example_request) demo_production of (res, w') \<Rightarrow>
     \<exists>J. Job_Type J = Req_Type example_request \<and>
       (redis_placed demo_runtime ds_lists demo_Z J (queue demo_production) (queue w') \<and>
          row_denotes demo_runtime (job_row (storage w')) (Job_ID J) J \<or> (\<exists>e. res = Inl e))"
proof -
  let ?run = "run_state (SchedulerService_ScheduleJob (program_scheduler demo_gorm demo_redis) \<lparr>deadline = None\<rparr>
       example_request) demo_production"
  have run: "?run = (fst ?run, snd ?run)" by simp
  have rt: "rt demo_production = demo_runtime" by (simp add: demo_production_def)
  have "meta_readable demo_runtime (Req_Metadata example_request)"
    by (simp add: example_request_def meta_readable_def meta_numbers_def enc_meta_def)
  from production_schedule [of _ _ _ _ _ demo_production, unfolded rt,
      OF demo_redis_laws(1) demo_gorm_laws(1,2) demo_codec_laws this run]
  show ?thesis unfolding case_prod_beta requested_job_def demo_tables_simps by auto
qed

end
